theory Spec2Isabelle
  imports Main
begin

section \<open>Identifiers\<close>

text \<open>
  \<^verbatim>\<open>generate_mock_db.py\<close> builds every identifier with the f-string
  \<^verbatim>\<open>f"{prefix}_{self.counters[prefix]}"\<close>: the prefix, an underscore and the decimal
  rendering of a positive Python integer (no sign, no leading zero).
\<close>

definition digit_char :: "nat \<Rightarrow> char" where
  "digit_char d = ''0123456789'' ! d"

fun str_nat :: "nat \<Rightarrow> string" where
  "str_nat n = (if n < 10 then [digit_char n] else str_nat (n div 10) @ [digit_char (n mod 10)])"

declare str_nat.simps [simp del]

definition mk_id :: "string \<Rightarrow> nat \<Rightarrow> string" where
  "mk_id prefix n = prefix @ ''_'' @ str_nat n"

subsection \<open>The identifier factory\<close>

text \<open>
  \<^verbatim>\<open>class IdFactory\<close>: one dictionary \<^verbatim>\<open>counters\<close> from prefix to the last number issued.
  The counters only ever hold values obtained from \<^verbatim>\<open>get(prefix, 0) + 1\<close>, so they are
  natural numbers. \<^verbatim>\<open>next\<close> mutates the object; the model returns the new factory.
\<close>

record IdFactory =
  counters :: "string \<rightharpoonup> nat"

definition IdFactory_init :: IdFactory where
  "IdFactory_init = \<lparr>counters = Map.empty\<rparr>"

definition counter_get :: "IdFactory \<Rightarrow> string \<Rightarrow> nat" where
  "counter_get idf prefix = (case counters idf prefix of None \<Rightarrow> 0 | Some c \<Rightarrow> c)"

definition IdFactory_next :: "IdFactory \<Rightarrow> string \<Rightarrow> string \<times> IdFactory" where
  "IdFactory_next idf prefix =
     (let idf' = idf\<lparr>counters := (counters idf)(prefix \<mapsto> counter_get idf prefix + 1)\<rparr>
      in (mk_id prefix (counter_get idf' prefix), idf'))"

text \<open>A run of calls \<^verbatim>\<open>idf.next(p)\<close> for the prefixes \<open>ps\<close>, in order, on one factory.\<close>

fun issue :: "IdFactory \<Rightarrow> string list \<Rightarrow> string list \<times> IdFactory" where
  "issue idf [] = ([], idf)"
| "issue idf (p # ps) =
     (case IdFactory_next idf p of (i, idf') \<Rightarrow>
        (case issue idf' ps of (is, idf'') \<Rightarrow> (i # is, idf'')))"

section \<open>The ambient state: random source, clock, errors\<close>

text \<open>
  The generators share three pieces of state: the \<^verbatim>\<open>IdFactory\<close> object handed to them by
  reference, the module-global generator of \<^verbatim>\<open>random\<close>, and the wall clock read by
  \<^verbatim>\<open>datetime.now(timezone.utc)\<close>. The model threads them in one record.

  The Mersenne Twister itself is library code: the model takes its output as a stream of
  raw draws, arbitrary integers (\<open>rng w 0\<close> is the next one), and lets every primitive of
  \<^verbatim>\<open>random\<close> consume one draw, reduced to the range the primitive documents. The clock is the stream of the
  instants successive reads return, in microseconds since 0001-01-01T00:00:00Z.

  Exceptions are values: a computation returns \<open>Inl e\<close> when the Python raises \<open>e\<close>.
\<close>

datatype error = IndexError | ValueError | OverflowError

record world =
  factory :: IdFactory
  rng :: "nat \<Rightarrow> int"
  clock :: "nat \<Rightarrow> int"

type_synonym 'a run = "world \<Rightarrow> error + ('a \<times> world)"

definition returnE :: "'a \<Rightarrow> 'a run" where
  "returnE x w = Inr (x, w)"

definition raise :: "error \<Rightarrow> 'a run" where
  "raise e w = Inl e"

definition bindE :: "'a run \<Rightarrow> ('a \<Rightarrow> 'b run) \<Rightarrow> 'b run" where
  "bindE m f w = (case m w of Inl e \<Rightarrow> Inl e | Inr (x, w') \<Rightarrow> f x w')"

text \<open>\<^verbatim>\<open>for x in xs: body\<close>, with the local variables the body updates passed along.\<close>

primrec for_loop :: "'x list \<Rightarrow> ('x \<Rightarrow> 'l \<Rightarrow> 'l run) \<Rightarrow> 'l \<Rightarrow> 'l run" where
  "for_loop [] body l = returnE l"
| "for_loop (x # xs) body l = bindE (body x l) (for_loop xs body)"

text \<open>\<^verbatim>\<open>range(n)\<close>: empty when \<open>n \<le> 0\<close>.\<close>

definition range_py :: "int \<Rightarrow> int list" where
  "range_py n = map int [0..<nat n]"

subsection \<open>\<^verbatim>\<open>idf.next(prefix)\<close> on the shared factory\<close>

definition next_id :: "string \<Rightarrow> string run" where
  "next_id prefix w =
     (case IdFactory_next (factory w) prefix of (i, idf') \<Rightarrow> Inr (i, w\<lparr>factory := idf'\<rparr>))"

text \<open>The world after \<^verbatim>\<open>idf.next(prefix)\<close>.\<close>

definition issued :: "string \<Rightarrow> world \<Rightarrow> world" where
  "issued prefix w = w\<lparr>factory := snd (IdFactory_next (factory w) prefix)\<rparr>"

subsection \<open>The primitives of \<^verbatim>\<open>random\<close>\<close>

definition next_draw :: "world \<Rightarrow> world" where
  "next_draw w = w\<lparr>rng := (\<lambda>n. rng w (Suc n))\<rparr>"

definition draw :: "int run" where
  "draw w = Inr (rng w 0, next_draw w)"

text \<open>\<^verbatim>\<open>_randbelow(n)\<close> for \<open>n > 0\<close>: a number in \<open>[0, n)\<close>.\<close>

definition randbelow :: "nat \<Rightarrow> nat run" where
  "randbelow n = bindE draw (\<lambda>d. returnE (nat (d mod int n)))"

text \<open>\<^verbatim>\<open>random.choice(seq)\<close>: \<^verbatim>\<open>seq[_randbelow(len(seq))]\<close>, IndexError on an empty sequence.\<close>

definition choice :: "'a list \<Rightarrow> 'a run" where
  "choice seq =
     (if seq = [] then raise IndexError
      else bindE (randbelow (length seq)) (\<lambda>i. returnE (seq ! i)))"

definition pick :: "'a list \<Rightarrow> 'a run" where
  "pick seq = choice seq"

text \<open>
  \<^verbatim>\<open>random.random()\<close> is \<open>k / 2^53\<close> for a 53-bit \<open>k\<close>; the model returns \<open>k\<close>. A test
  \<^verbatim>\<open>random.random() > p\<close> with \<open>p = num / den\<close> is then a comparison of integers. The
  literal \<open>p\<close> of the source is a binary64 number, and \<open>num / den\<close> is its exact value
  (\<^verbatim>\<open>float.as_integer_ratio\<close>):

    \<^item> \<^verbatim>\<open>0.02\<close> is \<open>5764607523034235 / 2^58\<close>, \<^verbatim>\<open>0.03\<close> is \<open>1080863910568919 / 2^55\<close>,
    \<^item> \<^verbatim>\<open>0.05\<close> is \<open>3602879701896397 / 2^56\<close>, \<^verbatim>\<open>0.1\<close> is \<open>3602879701896397 / 2^55\<close>,
    \<^item> \<^verbatim>\<open>0.2\<close> is \<open>3602879701896397 / 2^54\<close>, \<^verbatim>\<open>0.4\<close> is \<open>3602879701896397 / 2^53\<close>,
    \<^item> \<^verbatim>\<open>0.6\<close> is \<open>5404319552844595 / 2^53\<close>; \<^verbatim>\<open>0.25\<close> and \<^verbatim>\<open>0.5\<close> are exact.
\<close>

definition random_unit :: "int run" where
  "random_unit = bindE draw (\<lambda>d. returnE (d mod 2 ^ 53))"

definition random_gt :: "int \<Rightarrow> int \<Rightarrow> bool run" where
  "random_gt num den = bindE random_unit (\<lambda>k. returnE (k * den > num * 2 ^ 53))"

definition random_lt :: "int \<Rightarrow> int \<Rightarrow> bool run" where
  "random_lt num den = bindE random_unit (\<lambda>k. returnE (k * den < num * 2 ^ 53))"

text \<open>
  Binary64 arithmetic on non-negative numbers, in units of \<open>2^-53\<close>: \<open>round53 n\<close> is the
  binary64 number nearest to \<open>n / 2^53\<close> (53 significant bits, ties to the even
  significand), again in units of \<open>2^-53\<close>.
\<close>

function bit_length :: "int \<Rightarrow> nat" where
  "bit_length n = (if n \<le> 0 then 0 else Suc (bit_length (n div 2)))"
  by pat_completeness auto
termination
  by (relation "measure nat") auto

declare bit_length.simps [simp del]

definition round_half_even :: "int \<Rightarrow> nat \<Rightarrow> int" where
  "round_half_even n s =
     (if s = 0 then n
      else let q = n div 2 ^ s; r = n mod 2 ^ s; h = 2 ^ (s - 1) in
           if h < r \<or> (r = h \<and> odd q) then q + 1 else q)"

definition round53 :: "int \<Rightarrow> int" where
  "round53 n = (let s = bit_length n - 53 in round_half_even n s * 2 ^ s)"

text \<open>
  \<^verbatim>\<open>int(random.uniform(a, b))\<close> for integers \<open>0 \<le> a \<le> b\<close>: \<^verbatim>\<open>a + (b - a) * random()\<close> in
  binary64 (the product is rounded, then the sum), truncated.
\<close>

definition uniform_int :: "int \<Rightarrow> int \<Rightarrow> int run" where
  "uniform_int a b =
     bindE random_unit
       (\<lambda>k. returnE (round53 (a * 2 ^ 53 + round53 ((b - a) * k)) div 2 ^ 53))"

text \<open>\<^verbatim>\<open>random.randint(a, b)\<close>: \<open>a + _randbelow(b - a + 1)\<close>, ValueError on an empty range.\<close>

definition randint :: "int \<Rightarrow> int \<Rightarrow> int run" where
  "randint a b =
     (if b < a then raise ValueError
      else bindE (randbelow (nat (b - a + 1))) (\<lambda>i. returnE (a + int i)))"

text \<open>
  \<^verbatim>\<open>random.shuffle(x)\<close>:
  \<^verbatim>\<open>for i in reversed(range(1, len(x))): j = randbelow(i + 1); x[i], x[j] = x[j], x[i]\<close>.
\<close>

definition shuffle :: "'a list \<Rightarrow> 'a list run" where
  "shuffle x =
     for_loop (rev [1..<length x])
       (\<lambda>i x. bindE (randbelow (i + 1)) (\<lambda>j. returnE (x[i := x ! j, j := x ! i]))) x"

text \<open>
  \<^verbatim>\<open>random.sample(population, k)\<close> on a population of at most 21 elements (the only call
  samples the five \<^verbatim>\<open>SCOPES\<close>): ValueError unless \<open>0 \<le> k \<le> n\<close>, then
  \<^verbatim>\<open>for i in range(k): j = randbelow(n - i); result[i] = pool[j]; pool[j] = pool[n - i - 1]\<close>.
\<close>

definition sample :: "'a list \<Rightarrow> int \<Rightarrow> 'a list run" where
  "sample population k =
     (let n = length population in
      if k < 0 \<or> int n < k then raise ValueError
      else bindE
        (for_loop [0..<nat k]
           (\<lambda>i (result, pool).
              bindE (randbelow (n - i))
                (\<lambda>j. returnE (result @ [pool ! j], pool[j := pool ! (n - i - 1)])))
           ([], population))
        (\<lambda>(result, pool). returnE result))"

text \<open>
  The two de-duplication loops of the source are the same loop:
  \<^verbatim>\<open>tries = 0; while <x collides> and tries < 10: x = <sample again>; tries += 1\<close>.
  The model returns the final \<open>x\<close> and the final \<open>tries\<close>.
\<close>

function resample :: "('a \<Rightarrow> bool) \<Rightarrow> 'a run \<Rightarrow> 'a \<Rightarrow> nat \<Rightarrow> ('a \<times> nat) run" where
  "resample collides again x tries w =
     (if collides x \<and> tries < 10
      then (case again w of Inl e \<Rightarrow> Inl e
            | Inr (x', w') \<Rightarrow> resample collides again x' (tries + 1) w')
      else Inr ((x, tries), w))"
  by pat_completeness auto
termination
  by (relation "measure (\<lambda>(collides, again, x, tries, w). 10 - tries)") auto

declare resample.simps [simp del]

subsection \<open>Clock and calendar\<close>

text \<open>
  An instant is its number of microseconds since 0001-01-01T00:00:00Z, a date its number
  of days since 0001-01-01. \<^verbatim>\<open>datetime\<close> and \<^verbatim>\<open>date\<close> cover the years 1 to 9999 and raise
  OverflowError when arithmetic leaves that range; \<^verbatim>\<open>timedelta(days=k)\<close> raises it when
  \<open>k\<close> exceeds 999999999 in magnitude.
\<close>

definition USEC_PER_MINUTE :: int where
  "USEC_PER_MINUTE = 60000000"

definition USEC_PER_DAY :: int where
  "USEC_PER_DAY = 86400000000"

definition MAX_DAYS :: int where
  "MAX_DAYS = 3652059"

definition next_tick :: "world \<Rightarrow> world" where
  "next_tick w = w\<lparr>clock := (\<lambda>n. clock w (Suc n))\<rparr>"

definition now_utc :: "int run" where
  "now_utc w = Inr (clock w 0, next_tick w)"

definition timedelta :: "int \<Rightarrow> int \<Rightarrow> int" where
  "timedelta days minutes = days * USEC_PER_DAY + minutes * USEC_PER_MINUTE"

definition dt_add :: "int \<Rightarrow> int \<Rightarrow> int run" where
  "dt_add t delta =
     (if 0 \<le> t + delta \<and> t + delta < MAX_DAYS * USEC_PER_DAY then returnE (t + delta)
      else raise OverflowError)"

definition dt_sub :: "int \<Rightarrow> int \<Rightarrow> int run" where
  "dt_sub t delta = dt_add t (- delta)"

text \<open>
  \<^verbatim>\<open>iso(dt)\<close> is \<^verbatim>\<open>dt.replace(microsecond=0).isoformat()\<close>. The model keeps the instant the
  text denotes, truncated to the whole second; the text is a one-to-one, order-preserving
  rendering of it.
\<close>

definition iso :: "int \<Rightarrow> int" where
  "iso t = t - t mod 1000000"

definition date_of :: "int \<Rightarrow> int" where
  "date_of t = t div USEC_PER_DAY"

definition date_sub_days :: "int \<Rightarrow> int \<Rightarrow> int run" where
  "date_sub_days d k =
     (if 999999999 < \<bar>k\<bar> then raise OverflowError
      else if 0 \<le> d - k \<and> d - k < MAX_DAYS then returnE (d - k)
      else raise OverflowError)"

subsection \<open>Grouping dictionaries\<close>

text \<open>
  \<^verbatim>\<open>by_key = {}; for x in xs: by_key.setdefault(x[key], []).append(x)\<close> and the later
  \<^verbatim>\<open>by_key.get(k, [])\<close>.
\<close>

definition setdefault_append :: "('k \<rightharpoonup> 'a list) \<Rightarrow> 'k \<Rightarrow> 'a \<Rightarrow> ('k \<rightharpoonup> 'a list)" where
  "setdefault_append m k x = m(k \<mapsto> (case m k of None \<Rightarrow> [] | Some xs \<Rightarrow> xs) @ [x])"

definition group_by :: "('a \<Rightarrow> 'k) \<Rightarrow> 'a list \<Rightarrow> ('k \<rightharpoonup> 'a list)" where
  "group_by key xs = foldl (\<lambda>m x. setdefault_append m (key x) x) Map.empty xs"

definition get_list :: "('k \<rightharpoonup> 'a list) \<Rightarrow> 'k \<Rightarrow> 'a list" where
  "get_list m k = (case m k of None \<Rightarrow> [] | Some xs \<Rightarrow> xs)"

section \<open>Catalog tables\<close>

definition FIRST_NAMES :: "string list" where
  "FIRST_NAMES =
    [''Alex'', ''Jordan'', ''Taylor'', ''Casey'', ''Riley'', ''Morgan'', ''Sam'', ''Jamie'',
     ''Cameron'', ''Avery'', ''Drew'', ''Quinn'', ''Reese'', ''Rowan'', ''Skyler'', ''Parker'',
     ''Elliot'', ''Hayden'', ''Emerson'', ''Blake'', ''Logan'', ''Harper'', ''Finley'', ''Sage'',
     ''Remy'', ''Dakota'', ''Tatum'', ''Emery'', ''Kendall'', ''Robin'']"

definition ORG_NAMES :: "string list" where
  "ORG_NAMES =
    [''Acme Inc'', ''Globex'', ''Initech'', ''Umbrella'', ''Hooli'', ''Stark Industries'',
     ''Wayne Enterprises'', ''Wonka Labs'', ''Aperture Science'', ''Cyberdyne Systems'',
     ''Tyrell Corp'', ''Vehement Capital'', ''Gekko & Co'', ''Massive Dynamic'',
     ''Soylent Works'', ''Monarch Solutions'', ''Octan Energy'']"

definition PROJECT_NAMES :: "string list" where
  "PROJECT_NAMES =
    [''Checkout'', ''Billing'', ''Growth'', ''Data Platform'', ''Observability'', ''Mobile App'',
     ''Web Revamp'', ''Fraud Engine'', ''ML Platform'', ''Realtime Chat'', ''Reporting'',
     ''Docs'', ''API Gateway'', ''Auth'']"

definition METRIC_CATALOG :: "(string \<times> int \<times> string) list" where
  "METRIC_CATALOG =
    [(''http_latency_ms'', 30, ''active''),
     (''error_rate_pct'', 60, ''active''),
     (''requests_per_minute'', 14, ''active''),
     (''cpu_usage_pct'', 7, ''active''),
     (''memory_usage_mb'', 30, ''active''),
     (''db_conn_pool_busy_pct'', 30, ''active'')]"

definition WIDGET_TYPES :: "string list" where
  "WIDGET_TYPES = [''timeseries'', ''stat'', ''table'', ''bar'']"

definition SCOPES :: "string list" where
  "SCOPES = [''viewer'', ''dashboard:write'', ''alert:write'', ''metric:write'', ''project:admin'']"

definition PLANS :: "string list" where
  "PLANS = [''free'', ''pro'', ''enterprise'']"

definition ALERT_NAMES :: "string list" where
  "ALERT_NAMES = [''High latency'', ''Error rate spike'', ''High CPU'', ''High memory'', ''RPM drop'']"

definition EVAL_SUITE_NAMES :: "string list" where
  "EVAL_SUITE_NAMES = [''Bot Regression'', ''Smoke Suite'', ''Latency Suite'', ''Alert Rules QA'']"

section \<open>Entity records\<close>

text \<open>
  Every generated dictionary has a fixed set of keys, so each is a record; field
  \<open>e_k\<close> of the record for entity \<open>e\<close> is the dictionary's key \<^verbatim>\<open>k\<close>. A value that may be
  \<^verbatim>\<open>None\<close> is an \<open>option\<close>. Timestamps are the instants of \<open>iso\<close>, dates day numbers.
\<close>

record org =
  org_id :: string
  org_name :: string
  org_plan :: string
  org_active :: bool

record user =
  user_id :: string
  user_org_id :: string
  user_email :: string
  user_name :: string
  user_role :: string
  user_active :: bool

record project =
  project_id :: string
  project_org_id :: string
  project_name :: string
  project_visibility :: string
  project_active :: bool

record dashboard =
  dashboard_id :: string
  dashboard_project_id :: string
  dashboard_name :: string
  dashboard_owner_user_id :: "string option"
  dashboard_active :: bool

record metric =
  metric_id :: string
  metric_project_id :: string
  metric_name :: string
  metric_retention_days :: int
  metric_status :: string

record metric_sample =
  sample_metric_id :: string
  sample_date :: int
  sample_count :: int

record filters =
  filters_env :: string
  filters_region :: "string list"

record widget =
  widget_id :: string
  widget_dashboard_id :: string
  widget_type :: string
  widget_metric_id :: "string option"
  widget_title :: string
  widget_filters :: filters
  widget_visible :: bool
  widget_archived :: bool

record alert =
  alert_id :: string
  alert_project_id :: string
  alert_name :: string
  alert_metric_id :: "string option"
  alert_threshold :: int
  alert_window :: string
  alert_enabled :: bool
  alert_last_fired_at :: "int option"

record incident =
  incident_id :: string
  incident_alert_id :: string
  incident_status :: string
  incident_opened_at :: int
  incident_resolved_at :: "int option"

record eval_suite =
  suite_id :: string
  suite_project_id :: string
  suite_name :: string
  suite_status :: string

record eval_run =
  run_id :: string
  run_suite_id :: string
  run_status :: string
  run_created_at :: int

record permission =
  perm_user_id :: string
  perm_project_id :: string
  perm_scopes :: "string list"

record feature_flag =
  flag_key :: string
  flag_enabled_for_orgs :: "string list"
  flag_enabled :: bool

record audit_log =
  log_id :: string
  log_org_id :: "string option"
  log_actor_user_id :: "string option"
  log_action :: string
  log_target_id :: "string option"
  log_at :: int

section \<open>The generators\<close>

text \<open>
  What the run takes from outside: the stream of draws \<^verbatim>\<open>random.seed(seed)\<close> starts, the
  readings of the wall clock, and the two text utilities used for e-mail addresses
  (\<^verbatim>\<open>slugify\<close> and \<^verbatim>\<open>str.lower\<close>), whose results no other field depends on.
\<close>

record env =
  seed_stream :: "int \<Rightarrow> nat \<Rightarrow> int"
  wall_clock :: "nat \<Rightarrow> int"
  slugify :: "string \<Rightarrow> string"
  lower :: "string \<Rightarrow> string"

subsection \<open>\<^verbatim>\<open>gen_orgs\<close>\<close>

definition org_row :: "string list \<Rightarrow> int \<Rightarrow> org run" where
  "org_row names i =
     (let name = (if i < int (length names) then names ! nat (i mod int (length names))
                  else ''Org '' @ str_nat (nat (i + 1))) in
      bindE (next_id ''org'') (\<lambda>oid.
      bindE (pick PLANS) (\<lambda>plan.
      bindE (random_gt 1080863910568919 (2 ^ 55)) (\<lambda>active.
      returnE \<lparr>org_id = oid, org_name = name, org_plan = plan, org_active = active\<rparr>))))"

definition gen_orgs :: "int \<Rightarrow> org list run" where
  "gen_orgs n =
     bindE (shuffle ORG_NAMES) (\<lambda>names.
     for_loop (range_py n)
       (\<lambda>i orgs. bindE (org_row names i) (\<lambda>r. returnE (orgs @ [r]))) [])"

subsection \<open>\<^verbatim>\<open>gen_users\<close>\<close>

definition user_row :: "env \<Rightarrow> string list \<Rightarrow> org \<Rightarrow> string \<Rightarrow> int \<Rightarrow> nat \<Rightarrow> (user \<times> nat) run" where
  "user_row env name_pool org domain u name_idx =
     bindE (next_id ''usr'') (\<lambda>uid.
     let first = name_pool ! (name_idx mod length name_pool);
         name_idx' = name_idx + 1;
         email_local = lower env first @ str_nat name_idx' in
     bindE (if u = 0 then returnE ''admin''
            else bindE (random_gt 3602879701896397 (2 ^ 54))
                   (\<lambda>b. returnE (if b then ''member'' else ''viewer''))) (\<lambda>role.
     bindE (random_gt 5764607523034235 (2 ^ 58)) (\<lambda>active.
     returnE (\<lparr>user_id = uid, user_org_id = org_id org,
               user_email = email_local @ ''@'' @ domain, user_name = first,
               user_role = role, user_active = active\<rparr>, name_idx'))))"

definition gen_users :: "env \<Rightarrow> org list \<Rightarrow> int \<Rightarrow> user list run" where
  "gen_users env orgs users_per_org =
     bindE (shuffle FIRST_NAMES) (\<lambda>name_pool.
     bindE (for_loop orgs
              (\<lambda>org. let domain = slugify env (org_name org) @ ''.com'' in
                 for_loop (range_py users_per_org)
                   (\<lambda>u (users, name_idx).
                      bindE (user_row env name_pool org domain u name_idx)
                        (\<lambda>(r, name_idx'). returnE (users @ [r], name_idx'))))
              ([], 0))
       (\<lambda>(users, name_idx). returnE users))"

subsection \<open>\<^verbatim>\<open>gen_projects\<close>\<close>

definition project_row :: "org \<Rightarrow> project run" where
  "project_row org =
     bindE (next_id ''prj'') (\<lambda>pid.
     bindE (pick PROJECT_NAMES) (\<lambda>name.
     bindE (random_gt 25 100) (\<lambda>private.
     bindE (random_gt 3602879701896397 (2 ^ 56)) (\<lambda>active.
     returnE \<lparr>project_id = pid, project_org_id = org_id org, project_name = name,
              project_visibility = (if private then ''private'' else ''public''),
              project_active = active\<rparr>))))"

definition gen_projects :: "org list \<Rightarrow> int \<Rightarrow> project list run" where
  "gen_projects orgs projects_per_org =
     for_loop orgs
       (\<lambda>org. for_loop (range_py projects_per_org)
          (\<lambda>p projects. bindE (project_row org) (\<lambda>r. returnE (projects @ [r])))) []"

subsection \<open>\<^verbatim>\<open>gen_dashboards\<close>\<close>

text \<open>\<^verbatim>\<open>pick(xs) if xs else None\<close>\<close>

definition pick_opt :: "'a list \<Rightarrow> 'a option run" where
  "pick_opt xs = (if xs \<noteq> [] then bindE (pick xs) (\<lambda>x. returnE (Some x)) else returnE None)"

definition dashboard_row :: "project \<Rightarrow> user list \<Rightarrow> dashboard run" where
  "dashboard_row prj org_users =
     bindE (pick_opt org_users) (\<lambda>owner.
     bindE (next_id ''db'') (\<lambda>did.
     bindE (pick [''Ops Overview'', ''Product KPIs'', ''Oncall'', ''SRE Board'',
                  ''Release Readiness'']) (\<lambda>name.
     bindE (random_gt 3602879701896397 (2 ^ 56)) (\<lambda>active.
     returnE \<lparr>dashboard_id = did, dashboard_project_id = project_id prj, dashboard_name = name,
              dashboard_owner_user_id = map_option user_id owner,
              dashboard_active = active\<rparr>))))"

definition gen_dashboards :: "project list \<Rightarrow> user list \<Rightarrow> int \<Rightarrow> dashboard list run" where
  "gen_dashboards projects users dashboards_per_project =
     (let users_by_org = group_by user_org_id users in
      for_loop projects
        (\<lambda>prj. let org_users = get_list users_by_org (project_org_id prj) in
           for_loop (range_py dashboards_per_project)
             (\<lambda>_ dashboards. bindE (dashboard_row prj org_users)
                (\<lambda>r. returnE (dashboards @ [r])))) [])"

subsection \<open>\<^verbatim>\<open>gen_metrics\<close>\<close>

definition metric_row :: "project \<Rightarrow> string set \<Rightarrow> (metric \<times> string set) run" where
  "metric_row prj used =
     bindE (pick METRIC_CATALOG) (\<lambda>c.
     bindE (resample (\<lambda>(name, retention, status). name \<in> used) (pick METRIC_CATALOG) c 0)
       (\<lambda>((name, retention, status), tries).
     bindE (next_id ''m'') (\<lambda>mid.
     returnE (\<lparr>metric_id = mid, metric_project_id = project_id prj, metric_name = name,
               metric_retention_days = retention, metric_status = status\<rparr>,
              insert name used))))"

definition gen_metrics :: "project list \<Rightarrow> int \<Rightarrow> metric list run" where
  "gen_metrics projects metrics_per_project =
     for_loop projects
       (\<lambda>prj metrics.
          bindE (for_loop (range_py metrics_per_project)
                   (\<lambda>_ (metrics, used).
                      bindE (metric_row prj used)
                        (\<lambda>(r, used'). returnE (metrics @ [r], used')))
                   (metrics, {}))
            (\<lambda>(metrics, used). returnE metrics)) []"

subsection \<open>\<^verbatim>\<open>gen_metric_samples\<close>\<close>

definition sample_row :: "metric \<Rightarrow> int \<Rightarrow> int \<Rightarrow> int \<Rightarrow> metric_sample run" where
  "sample_row m base_date samples_per_metric i =
     bindE (date_sub_days base_date (samples_per_metric - 1 - i)) (\<lambda>day.
     bindE (uniform_int 80 200000) (\<lambda>c.
     returnE \<lparr>sample_metric_id = metric_id m, sample_date = day, sample_count = c\<rparr>))"

definition gen_metric_samples :: "metric list \<Rightarrow> int \<Rightarrow> metric_sample list run" where
  "gen_metric_samples metrics samples_per_metric =
     bindE now_utc (\<lambda>now.
     let base_date = date_of now in
     for_loop metrics
       (\<lambda>m. for_loop (range_py samples_per_metric)
          (\<lambda>i samples. bindE (sample_row m base_date samples_per_metric i)
             (\<lambda>r. returnE (samples @ [r])))) [])"

subsection \<open>\<^verbatim>\<open>gen_widgets\<close>\<close>

definition widget_row :: "dashboard \<Rightarrow> metric list \<Rightarrow> widget run" where
  "widget_row db prj_metrics =
     bindE (pick_opt prj_metrics) (\<lambda>m.
     bindE (next_id ''w'') (\<lambda>wid.
     bindE (pick WIDGET_TYPES) (\<lambda>ty.
     bindE (pick [''Latency P95'', ''Error rate'', ''Traffic'', ''CPU usage'', ''Memory usage'',
                  ''DB pool busy'']) (\<lambda>title.
     bindE (pick [''prod'', ''staging'', ''dev'']) (\<lambda>env.
     bindE (pick [''us-east'', ''us-west'', ''eu-west'', ''ap-south'']) (\<lambda>region.
     bindE (random_gt 3602879701896397 (2 ^ 56)) (\<lambda>visible.
     bindE (random_lt 3602879701896397 (2 ^ 56)) (\<lambda>archived.
     returnE \<lparr>widget_id = wid, widget_dashboard_id = dashboard_id db, widget_type = ty,
              widget_metric_id = map_option metric_id m, widget_title = title,
              widget_filters = \<lparr>filters_env = env, filters_region = [region]\<rparr>,
              widget_visible = visible, widget_archived = archived\<rparr>))))))))"

definition gen_widgets :: "dashboard list \<Rightarrow> metric list \<Rightarrow> int \<Rightarrow> widget list run" where
  "gen_widgets dashboards metrics widgets_per_dashboard =
     (let metrics_by_project = group_by metric_project_id metrics in
      for_loop dashboards
        (\<lambda>db. let prj_metrics = get_list metrics_by_project (dashboard_project_id db) in
           for_loop (range_py widgets_per_dashboard)
             (\<lambda>_ widgets. bindE (widget_row db prj_metrics)
                (\<lambda>r. returnE (widgets @ [r])))) [])"

subsection \<open>\<^verbatim>\<open>gen_alerts\<close>\<close>

definition alert_row :: "project \<Rightarrow> metric list \<Rightarrow> alert run" where
  "alert_row prj prj_metrics =
     bindE (pick_opt prj_metrics) (\<lambda>m.
     bindE now_utc (\<lambda>now.
     bindE (randint 0 7) (\<lambda>days.
     bindE (randint 0 1440) (\<lambda>minutes.
     bindE (dt_sub now (timedelta days minutes)) (\<lambda>last_fire.
     bindE (next_id ''al'') (\<lambda>aid.
     bindE (pick ALERT_NAMES) (\<lambda>name.
     bindE (uniform_int 50 1000) (\<lambda>threshold.
     bindE (pick [''1m'', ''5m'', ''15m'', ''1h'']) (\<lambda>window.
     bindE (random_gt 3602879701896397 (2 ^ 55)) (\<lambda>enabled.
     bindE (random_gt 3602879701896397 (2 ^ 53)) (\<lambda>fired.
     returnE \<lparr>alert_id = aid, alert_project_id = project_id prj, alert_name = name,
              alert_metric_id = map_option metric_id m, alert_threshold = threshold,
              alert_window = window, alert_enabled = enabled,
              alert_last_fired_at = (if fired then Some (iso last_fire) else None)\<rparr>
     )))))))))))"

definition gen_alerts :: "project list \<Rightarrow> metric list \<Rightarrow> int \<Rightarrow> alert list run" where
  "gen_alerts projects metrics alerts_per_project =
     (let metrics_by_project = group_by metric_project_id metrics in
      for_loop projects
        (\<lambda>prj. let prj_metrics = get_list metrics_by_project (project_id prj) in
           for_loop (range_py alerts_per_project)
             (\<lambda>_ alerts. bindE (alert_row prj prj_metrics)
                (\<lambda>r. returnE (alerts @ [r])))) [])"

subsection \<open>\<^verbatim>\<open>gen_incidents\<close>\<close>

definition incident_row :: "alert \<Rightarrow> incident run" where
  "incident_row al =
     bindE now_utc (\<lambda>now.
     bindE (randint 0 10) (\<lambda>days.
     bindE (randint 10 10000) (\<lambda>minutes.
     bindE (dt_sub now (timedelta days minutes)) (\<lambda>opened.
     bindE (random_gt 5 10) (\<lambda>r.
     bindE (if r then bindE (randint 5 180) (\<lambda>minutes'.
                      bindE (dt_add opened (timedelta 0 minutes')) (\<lambda>resolved.
                      returnE (Some resolved, ''resolved'')))
            else returnE (None, ''open'')) (\<lambda>(resolved, status).
     bindE (next_id ''inc'') (\<lambda>iid.
     returnE \<lparr>incident_id = iid, incident_alert_id = alert_id al, incident_status = status,
              incident_opened_at = iso opened,
              incident_resolved_at = map_option iso resolved\<rparr>)))))))"

definition gen_incidents :: "alert list \<Rightarrow> int \<Rightarrow> incident list run" where
  "gen_incidents alerts incidents_per_alert =
     for_loop alerts
       (\<lambda>al. for_loop (range_py incidents_per_alert)
          (\<lambda>_ incidents. bindE (incident_row al) (\<lambda>r. returnE (incidents @ [r])))) []"

subsection \<open>\<^verbatim>\<open>gen_eval_suites\<close> and \<^verbatim>\<open>gen_eval_runs\<close>\<close>

definition eval_suite_row :: "project \<Rightarrow> eval_suite run" where
  "eval_suite_row prj =
     bindE (next_id ''es'') (\<lambda>sid.
     bindE (pick EVAL_SUITE_NAMES) (\<lambda>name.
     bindE (random_gt 3602879701896397 (2 ^ 55)) (\<lambda>active.
     returnE \<lparr>suite_id = sid, suite_project_id = project_id prj, suite_name = name,
              suite_status = (if active then ''active'' else ''disabled'')\<rparr>)))"

definition gen_eval_suites :: "project list \<Rightarrow> int \<Rightarrow> eval_suite list run" where
  "gen_eval_suites projects suites_per_project =
     for_loop projects
       (\<lambda>prj. for_loop (range_py suites_per_project)
          (\<lambda>_ suites. bindE (eval_suite_row prj) (\<lambda>r. returnE (suites @ [r])))) []"

definition eval_run_row :: "eval_suite \<Rightarrow> eval_run run" where
  "eval_run_row s =
     bindE now_utc (\<lambda>now.
     bindE (randint 0 5) (\<lambda>days.
     bindE (randint 0 (60 * 12)) (\<lambda>minutes.
     bindE (dt_sub now (timedelta days minutes)) (\<lambda>created.
     bindE (pick [''queued'', ''running'', ''passed'', ''failed'']) (\<lambda>status.
     bindE (next_id ''er'') (\<lambda>rid.
     returnE \<lparr>run_id = rid, run_suite_id = suite_id s, run_status = status,
              run_created_at = iso created\<rparr>))))))"

definition gen_eval_runs :: "eval_suite list \<Rightarrow> int \<Rightarrow> eval_run list run" where
  "gen_eval_runs suites runs_per_suite =
     for_loop suites
       (\<lambda>s. for_loop (range_py runs_per_suite)
          (\<lambda>_ runs. bindE (eval_run_row s) (\<lambda>r. returnE (runs @ [r])))) []"

subsection \<open>\<^verbatim>\<open>gen_permissions\<close>\<close>

definition permission_row :: "user \<Rightarrow> project list \<Rightarrow> string set \<Rightarrow> (permission \<times> string set) run" where
  "permission_row u available_projects chosen =
     bindE (choice available_projects) (\<lambda>prj.
     bindE (resample (\<lambda>prj. project_id prj \<in> chosen) (choice available_projects) prj 0)
       (\<lambda>(prj, tries).
     bindE (randint 1 (min 3 (int (length SCOPES)))) (\<lambda>k.
     bindE (sample SCOPES k) (\<lambda>scopes.
     returnE (\<lparr>perm_user_id = user_id u, perm_project_id = project_id prj,
               perm_scopes = scopes\<rparr>,
              insert (project_id prj) chosen)))))"

definition gen_permissions :: "project list \<Rightarrow> user list \<Rightarrow> int \<Rightarrow> permission list run" where
  "gen_permissions projects users permissions_per_user =
     (let projects_by_org = group_by project_org_id projects in
      for_loop users
        (\<lambda>u perms.
           let available_projects = get_list projects_by_org (user_org_id u) in
           bindE (for_loop (range_py (min permissions_per_user (int (length available_projects))))
                    (\<lambda>_ (perms, chosen).
                       bindE (permission_row u available_projects chosen)
                         (\<lambda>(r, chosen'). returnE (perms @ [r], chosen')))
                    (perms, {}))
             (\<lambda>(perms, chosen). returnE perms)) [])"

subsection \<open>\<^verbatim>\<open>gen_feature_flags\<close>\<close>

definition FLAG_KEYS :: "string list" where
  "FLAG_KEYS =
    [''widgets.grid_v2'', ''dashboards.public_share'', ''alerts.auto_mute'',
     ''metrics.rollup_v3'', ''projects.bulk_edit'', ''rbac.granular'',
     ''eval.live_compare'', ''ui.dark_mode'', ''api.tokens_v2'']"

definition feature_flag_row :: "org list \<Rightarrow> int \<Rightarrow> feature_flag run" where
  "feature_flag_row orgs i =
     (let key = (if i < int (length FLAG_KEYS) then FLAG_KEYS ! nat (i mod int (length FLAG_KEYS))
                 else ''custom.flag_'' @ str_nat (nat (i + 1))) in
      bindE (for_loop orgs
               (\<lambda>org ids. bindE (random_gt 5404319552844595 (2 ^ 53))
                             (\<lambda>b. returnE (if b then ids @ [org_id org] else ids)))
               []) (\<lambda>enabled_for_orgs.
      bindE (random_gt 3602879701896397 (2 ^ 53)) (\<lambda>enabled.
      returnE \<lparr>flag_key = key, flag_enabled_for_orgs = enabled_for_orgs,
               flag_enabled = enabled\<rparr>)))"

definition gen_feature_flags :: "org list \<Rightarrow> int \<Rightarrow> feature_flag list run" where
  "gen_feature_flags orgs feature_flags_count =
     for_loop (range_py feature_flags_count)
       (\<lambda>i flags. bindE (feature_flag_row orgs i) (\<lambda>r. returnE (flags @ [r]))) []"

subsection \<open>\<^verbatim>\<open>gen_audit_logs\<close>\<close>

definition ACTIONS :: "string list" where
  "ACTIONS =
    [''project.created'', ''project.archived'', ''dashboard.created'', ''dashboard.renamed'',
     ''widget.created'', ''widget.updated'', ''widget.deleted'',
     ''alert.created'', ''alert.updated'', ''alert.triggered'']"

definition audit_log_row :: "org list \<Rightarrow> user list \<Rightarrow> (string \<times> string) list \<Rightarrow> audit_log run" where
  "audit_log_row orgs users ids_pool =
     bindE (pick_opt users) (\<lambda>actor.
     bindE (if ids_pool \<noteq> []
            then bindE (pick ids_pool) (\<lambda>(ty, tid). returnE (Some ty, Some tid))
            else returnE (None, None)) (\<lambda>(target_type, target_id).
     bindE (pick ACTIONS) (\<lambda>act.
     bindE now_utc (\<lambda>now.
     bindE (randint 0 10000) (\<lambda>minutes.
     bindE (dt_sub now (timedelta 0 minutes)) (\<lambda>at.
     bindE (next_id ''aud'') (\<lambda>lid.
     returnE \<lparr>log_id = lid,
              log_org_id = (case actor of Some a \<Rightarrow> Some (user_org_id a)
                            | None \<Rightarrow> (if orgs \<noteq> [] then Some (org_id (orgs ! 0)) else None)),
              log_actor_user_id = map_option user_id actor,
              log_action = act, log_target_id = target_id, log_at = iso at\<rparr>)))))))"

definition gen_audit_logs ::
  "org list \<Rightarrow> user list \<Rightarrow> project list \<Rightarrow> dashboard list \<Rightarrow> widget list \<Rightarrow> alert list \<Rightarrow> int
     \<Rightarrow> audit_log list run" where
  "gen_audit_logs orgs users projects dashboards widgets alerts audit_logs_count =
     (let ids_pool = map (\<lambda>p. (''project'', project_id p)) projects
                   @ map (\<lambda>d. (''dashboard'', dashboard_id d)) dashboards
                   @ map (\<lambda>w. (''widget'', widget_id w)) widgets
                   @ map (\<lambda>a. (''alert'', alert_id a)) alerts in
      for_loop (range_py audit_logs_count)
        (\<lambda>_ logs. bindE (audit_log_row orgs users ids_pool) (\<lambda>r. returnE (logs @ [r]))) [])"

subsection \<open>\<^verbatim>\<open>build_mock_data\<close>\<close>

record config =
  c_orgs_count :: int
  c_users_per_org :: int
  c_projects_per_org :: int
  c_dashboards_per_project :: int
  c_widgets_per_dashboard :: int
  c_metrics_per_project :: int
  c_samples_per_metric :: int
  c_alerts_per_project :: int
  c_incidents_per_alert :: int
  c_suites_per_project :: int
  c_runs_per_suite :: int
  c_permissions_per_user :: int
  c_feature_flags_count :: int
  c_audit_logs_count :: int

record dataset =
  data_orgs :: "org list"
  data_users :: "user list"
  data_projects :: "project list"
  data_permissions :: "permission list"
  data_feature_flags :: "feature_flag list"
  data_dashboards :: "dashboard list"
  data_widgets :: "widget list"
  data_metrics :: "metric list"
  data_metric_samples :: "metric_sample list"
  data_alerts :: "alert list"
  data_incidents :: "incident list"
  data_eval_suites :: "eval_suite list"
  data_eval_runs :: "eval_run list"
  data_audit_logs :: "audit_log list"

text \<open>\<^verbatim>\<open>random.seed(seed); idf = IdFactory()\<close>\<close>

definition init_world :: "env \<Rightarrow> int \<Rightarrow> world" where
  "init_world env seed = \<lparr>factory = IdFactory_init, rng = seed_stream env seed, clock = wall_clock env\<rparr>"

definition generate :: "env \<Rightarrow> config \<Rightarrow> dataset run" where
  "generate env c =
     bindE (gen_orgs (c_orgs_count c)) (\<lambda>orgs.
     bindE (gen_users env orgs (c_users_per_org c)) (\<lambda>users.
     bindE (gen_projects orgs (c_projects_per_org c)) (\<lambda>projects.
     bindE (gen_dashboards projects users (c_dashboards_per_project c)) (\<lambda>dashboards.
     bindE (gen_metrics projects (c_metrics_per_project c)) (\<lambda>metrics.
     bindE (gen_metric_samples metrics (c_samples_per_metric c)) (\<lambda>metric_samples.
     bindE (gen_widgets dashboards metrics (c_widgets_per_dashboard c)) (\<lambda>widgets.
     bindE (gen_alerts projects metrics (c_alerts_per_project c)) (\<lambda>alerts.
     bindE (gen_incidents alerts (c_incidents_per_alert c)) (\<lambda>incidents.
     bindE (gen_eval_suites projects (c_suites_per_project c)) (\<lambda>eval_suites.
     bindE (gen_eval_runs eval_suites (c_runs_per_suite c)) (\<lambda>eval_runs.
     bindE (gen_permissions projects users (c_permissions_per_user c)) (\<lambda>permissions.
     bindE (gen_feature_flags orgs (c_feature_flags_count c)) (\<lambda>feature_flags.
     bindE (gen_audit_logs orgs users projects dashboards widgets alerts (c_audit_logs_count c))
       (\<lambda>audit_logs.
     returnE \<lparr>data_orgs = orgs, data_users = users, data_projects = projects,
              data_permissions = permissions, data_feature_flags = feature_flags,
              data_dashboards = dashboards, data_widgets = widgets, data_metrics = metrics,
              data_metric_samples = metric_samples, data_alerts = alerts,
              data_incidents = incidents, data_eval_suites = eval_suites,
              data_eval_runs = eval_runs, data_audit_logs = audit_logs\<rparr>
     ))))))))))))))"

definition build_mock_data :: "env \<Rightarrow> int \<Rightarrow> config \<Rightarrow> error + dataset" where
  "build_mock_data env seed c =
     (case generate env c (init_world env seed) of
        Inl e \<Rightarrow> Inl e
      | Inr (data, w) \<Rightarrow> Inr data)"

section \<open>An example run\<close>

text \<open>
  A concrete environment (a stream of large draws, a clock that starts in the year 2025 and
  advances by a millisecond per reading), the default seed 42 and a small configuration,
  with the dataset the model computes for them.
\<close>

definition example_env :: env where
  "example_env =
     \<lparr>seed_stream = (\<lambda>seed n. (seed + int n) * 2654435761 * 1048573),
      wall_clock = (\<lambda>n. 63900000000123456 + 1000 * int n),
      slugify = (\<lambda>s. s), lower = (\<lambda>s. s)\<rparr>"

definition example_config :: config where
  "example_config =
     \<lparr>c_orgs_count = 1, c_users_per_org = 2, c_projects_per_org = 2,
      c_dashboards_per_project = 1, c_widgets_per_dashboard = 1, c_metrics_per_project = 1,
      c_samples_per_metric = 2, c_alerts_per_project = 1, c_incidents_per_alert = 2,
      c_suites_per_project = 1, c_runs_per_suite = 1, c_permissions_per_user = 2,
      c_feature_flags_count = 1, c_audit_logs_count = 2\<rparr>"

definition example_data :: dataset where
  "example_data =
     \<lparr>data_orgs =
         [\<lparr>org_id = ''org_1'', org_name = ''Acme Inc'', org_plan = ''pro'',
             org_active = True\<rparr>],
         data_users =
           [\<lparr>user_id = ''usr_1'', user_org_id = ''org_1'',
               user_email = ''Jordan1@Acme Inc.com'', user_name = ''Jordan'',
               user_role = ''admin'', user_active = True\<rparr>,
            \<lparr>user_id = ''usr_2'', user_org_id = ''org_1'',
               user_email = ''Finley2@Acme Inc.com'', user_name = ''Finley'',
               user_role = ''member'', user_active = True\<rparr>],
         data_projects =
           [\<lparr>project_id = ''prj_1'', project_org_id = ''org_1'',
               project_name = ''API Gateway'', project_visibility = ''private'',
               project_active = False\<rparr>,
            \<lparr>project_id = ''prj_2'', project_org_id = ''org_1'',
               project_name = ''Auth'', project_visibility = ''private'',
               project_active = True\<rparr>],
         data_permissions =
           [\<lparr>perm_user_id = ''usr_1'', perm_project_id = ''prj_1'',
               perm_scopes = [''metric:write'']\<rparr>,
            \<lparr>perm_user_id = ''usr_1'', perm_project_id = ''prj_2'',
               perm_scopes = [''alert:write'']\<rparr>,
            \<lparr>perm_user_id = ''usr_2'', perm_project_id = ''prj_1'',
               perm_scopes = [''dashboard:write'']\<rparr>,
            \<lparr>perm_user_id = ''usr_2'', perm_project_id = ''prj_2'',
               perm_scopes = [''viewer'']\<rparr>],
         data_feature_flags =
           [\<lparr>flag_key = ''widgets.grid_v2'', flag_enabled_for_orgs = [],
               flag_enabled = True\<rparr>],
         data_dashboards =
           [\<lparr>dashboard_id = ''db_1'', dashboard_project_id = ''prj_1'',
               dashboard_name = ''Oncall'',
               dashboard_owner_user_id = Some ''usr_1'',
               dashboard_active = True\<rparr>,
            \<lparr>dashboard_id = ''db_2'', dashboard_project_id = ''prj_2'',
               dashboard_name = ''Product KPIs'',
               dashboard_owner_user_id = Some ''usr_2'',
               dashboard_active = True\<rparr>],
         data_widgets =
           [\<lparr>widget_id = ''w_1'', widget_dashboard_id = ''db_1'',
               widget_type = ''bar'', widget_metric_id = Some ''m_1'',
               widget_title = ''Memory usage'',
               widget_filters =
                 \<lparr>filters_env = ''dev'', filters_region = [''eu-west'']\<rparr>,
               widget_visible = True, widget_archived = False\<rparr>,
            \<lparr>widget_id = ''w_2'', widget_dashboard_id = ''db_2'',
               widget_type = ''table'', widget_metric_id = Some ''m_2'',
               widget_title = ''DB pool busy'',
               widget_filters =
                 \<lparr>filters_env = ''prod'', filters_region = [''us-west'']\<rparr>,
               widget_visible = True, widget_archived = True\<rparr>],
         data_metrics =
           [\<lparr>metric_id = ''m_1'', metric_project_id = ''prj_1'',
               metric_name = ''requests_per_minute'', metric_retention_days = 14,
               metric_status = ''active''\<rparr>,
            \<lparr>metric_id = ''m_2'', metric_project_id = ''prj_2'',
               metric_name = ''cpu_usage_pct'', metric_retention_days = 7,
               metric_status = ''active''\<rparr>],
         data_metric_samples =
           [\<lparr>sample_metric_id = ''m_1'', sample_date = 739582,
               sample_count = 151161\<rparr>,
            \<lparr>sample_metric_id = ''m_1'', sample_date = 739583,
               sample_count = 13019\<rparr>,
            \<lparr>sample_metric_id = ''m_2'', sample_date = 739582,
               sample_count = 74798\<rparr>,
            \<lparr>sample_metric_id = ''m_2'', sample_date = 739583,
               sample_count = 136576\<rparr>],
         data_alerts =
           [\<lparr>alert_id = ''al_1'', alert_project_id = ''prj_1'',
               alert_name = ''Error rate spike'', alert_metric_id = Some ''m_1'',
               alert_threshold = 576, alert_window = ''5m'',
               alert_enabled = True,
               alert_last_fired_at = Some 63899859540000000\<rparr>,
            \<lparr>alert_id = ''al_2'', alert_project_id = ''prj_2'',
               alert_name = ''High latency'', alert_metric_id = Some ''m_2'',
               alert_threshold = 74, alert_window = ''5m'', alert_enabled = True,
               alert_last_fired_at = Some 63899886300000000\<rparr>],
         data_incidents =
           [\<lparr>incident_id = ''inc_1'', incident_alert_id = ''al_1'',
               incident_status = ''resolved'',
               incident_opened_at = 63899099880000000,
               incident_resolved_at = Some 63899106120000000\<rparr>,
            \<lparr>incident_id = ''inc_2'', incident_alert_id = ''al_1'',
               incident_status = ''open'',
               incident_opened_at = 63899554140000000,
               incident_resolved_at = None\<rparr>,
            \<lparr>incident_id = ''inc_3'', incident_alert_id = ''al_2'',
               incident_status = ''open'',
               incident_opened_at = 63898732440000000,
               incident_resolved_at = None\<rparr>,
            \<lparr>incident_id = ''inc_4'', incident_alert_id = ''al_2'',
               incident_status = ''resolved'',
               incident_opened_at = 63899460600000000,
               incident_resolved_at = Some 63899464080000000\<rparr>],
         data_eval_suites =
           [\<lparr>suite_id = ''es_1'', suite_project_id = ''prj_1'',
               suite_name = ''Latency Suite'', suite_status = ''active''\<rparr>,
            \<lparr>suite_id = ''es_2'', suite_project_id = ''prj_2'',
               suite_name = ''Bot Regression'', suite_status = ''active''\<rparr>],
         data_eval_runs =
           [\<lparr>run_id = ''er_1'', run_suite_id = ''es_1'', run_status = ''queued'',
               run_created_at = 63899801760000000\<rparr>,
            \<lparr>run_id = ''er_2'', run_suite_id = ''es_2'', run_status = ''failed'',
               run_created_at = 63899542080000000\<rparr>],
         data_audit_logs =
           [\<lparr>log_id = ''aud_1'', log_org_id = Some ''org_1'',
               log_actor_user_id = Some ''usr_1'',
               log_action = ''project.created'', log_target_id = Some ''al_2'',
               log_at = 63899934600000000\<rparr>,
            \<lparr>log_id = ''aud_2'', log_org_id = Some ''org_1'',
               log_actor_user_id = Some ''usr_1'',
               log_action = ''dashboard.created'', log_target_id = Some ''db_2'',
               log_at = 63899803860000000\<rparr>]\<rparr>"



section \<open>Decimal rendering is injective\<close>

lemma lt10: "(d::nat) < 10 \<Longrightarrow> d \<in> {0,1,2,3,4,5,6,7,8,9}"
  by auto

lemma digit_char_inj: "a < 10 \<Longrightarrow> b < 10 \<Longrightarrow> digit_char a = digit_char b \<Longrightarrow> a = b"
  by (drule lt10, drule lt10) (auto simp: digit_char_def)

lemma digit_char_not_underscore: "d < 10 \<Longrightarrow> digit_char d \<noteq> CHR ''_''"
  by (drule lt10) (auto simp: digit_char_def)

lemma str_nat_nonempty: "str_nat n \<noteq> []"
  by (subst str_nat.simps) simp

lemma str_nat_no_underscore: "CHR ''_'' \<notin> set (str_nat n)"
proof (induction n rule: str_nat.induct)
  case (1 n)
  show ?case
  proof (cases "n < 10")
    case True
    then show ?thesis
      using digit_char_not_underscore [of n] by (subst str_nat.simps) auto
  next
    case False
    have "n mod 10 < 10" by simp
    then have "digit_char (n mod 10) \<noteq> CHR ''_''" by (rule digit_char_not_underscore)
    with False 1 show ?thesis
      by (subst str_nat.simps) auto
  qed
qed

lemma str_nat_inj: "str_nat n = str_nat m \<Longrightarrow> n = m"
proof (induction n arbitrary: m rule: str_nat.induct)
  case (1 n)
  show ?case
  proof (cases "n < 10")
    case n: True
    show ?thesis
    proof (cases "m < 10")
      case True
      with n 1(2) show ?thesis
        by (simp add: str_nat.simps [of n] str_nat.simps [of m] digit_char_inj)
    next
      case False
      with n 1(2) show ?thesis
        using str_nat_nonempty [of "m div 10"]
        by (auto simp: str_nat.simps [of n] str_nat.simps [of m])
    qed
  next
    case n: False
    show ?thesis
    proof (cases "m < 10")
      case True
      with n 1(2) show ?thesis
        using str_nat_nonempty [of "n div 10"]
        by (auto simp: str_nat.simps [of n] str_nat.simps [of m])
    next
      case False
      with n 1(2) have e: "str_nat (n div 10) = str_nat (m div 10)"
        and d: "digit_char (n mod 10) = digit_char (m mod 10)"
        by (simp_all add: str_nat.simps [of n] str_nat.simps [of m])
      from 1(1) [OF n e] have "n div 10 = m div 10" .
      moreover from d have "n mod 10 = m mod 10"
        by (intro digit_char_inj) simp_all
      ultimately show ?thesis
        by (metis div_mult_mod_eq)
    qed
  qed
qed

lemma split_at_last:
  assumes "a @ c # s = b @ c # t" "c \<notin> set s" "c \<notin> set t"
  shows "a = b \<and> s = t"
proof -
  from assms(1) have "rev (a @ c # s) = rev (b @ c # t)" by simp
  then have e: "rev s @ c # rev a = rev t @ c # rev b" by simp
  have "takeWhile (\<lambda>x. x \<noteq> c) (rev s @ c # rev a) = rev s"
    using assms(2) by (subst takeWhile_append2) auto
  moreover have "takeWhile (\<lambda>x. x \<noteq> c) (rev t @ c # rev b) = rev t"
    using assms(3) by (subst takeWhile_append2) auto
  ultimately have "rev s = rev t" using e by simp
  with e show ?thesis by simp
qed

lemma mk_id_inj: "mk_id p n = mk_id q m \<Longrightarrow> p = q \<and> n = m"
proof -
  assume "mk_id p n = mk_id q m"
  then have "p @ CHR ''_'' # str_nat n = q @ CHR ''_'' # str_nat m"
    by (simp add: mk_id_def)
  then have "p = q \<and> str_nat n = str_nat m"
    by (rule split_at_last) (rule str_nat_no_underscore)+
  then show ?thesis by (auto dest: str_nat_inj)
qed

section \<open>The identifier factory issues \<open>p_1, p_2, \<dots>\<close> per prefix\<close>

lemma IdFactory_next_id: "fst (IdFactory_next idf p) = mk_id p (counter_get idf p + 1)"
  by (simp add: IdFactory_next_def counter_get_def Let_def)

lemma IdFactory_next_counter:
  "counter_get (snd (IdFactory_next idf p)) q =
     (if q = p then counter_get idf p + 1 else counter_get idf q)"
  by (simp add: IdFactory_next_def counter_get_def Let_def)

lemma issue_Cons:
  "fst (issue idf (p # ps)) =
     fst (IdFactory_next idf p) # fst (issue (snd (IdFactory_next idf p)) ps)"
  by (simp split: prod.splits)

declare issue.simps(2) [simp del]

lemma issue_length: "length (fst (issue idf ps)) = length ps"
  by (induction ps arbitrary: idf) (simp_all add: issue_Cons)

text \<open>
  The \<open>i\<close>-th identifier carries the number of calls made so far for its own prefix,
  counted from the value the factory started with; calls for other prefixes do not count.
\<close>

lemma issue_nth:
  "i < length ps \<Longrightarrow>
   fst (issue idf ps) ! i =
     mk_id (ps ! i) (counter_get idf (ps ! i) + count_list (take (Suc i) ps) (ps ! i))"
proof (induction ps arbitrary: idf i)
  case Nil
  then show ?case by simp
next
  case (Cons p ps)
  show ?case
  proof (cases i)
    case 0
    then show ?thesis by (simp only: issue_Cons IdFactory_next_id) simp
  next
    case (Suc j)
    with Cons.prems have j: "j < length ps" by simp
    from Cons.IH [OF j, of "snd (IdFactory_next idf p)"] Suc show ?thesis
      by (simp only: issue_Cons IdFactory_next_counter) simp
  qed
qed

lemma issue_above:
  "x \<in> set (fst (issue idf ps)) \<Longrightarrow> \<exists>p n. x = mk_id p n \<and> counter_get idf p < n"
proof (induction ps arbitrary: idf)
  case Nil
  then show ?case by simp
next
  case (Cons p ps)
  let ?idf' = "snd (IdFactory_next idf p)"
  from Cons.prems have "x = mk_id p (counter_get idf p + 1) \<or> x \<in> set (fst (issue ?idf' ps))"
    by (simp only: issue_Cons IdFactory_next_id) simp
  then show ?case
  proof
    assume "x = mk_id p (counter_get idf p + 1)"
    moreover have "counter_get idf p < counter_get idf p + 1" by simp
    ultimately show ?thesis by blast
  next
    assume "x \<in> set (fst (issue ?idf' ps))"
    from Cons.IH [OF this] obtain q m where x: "x = mk_id q m" and m: "counter_get ?idf' q < m"
      by blast
    from m have "counter_get idf q < m"
      by (simp add: IdFactory_next_counter split: if_splits)
    with x show ?thesis by blast
  qed
qed

lemma issue_distinct: "distinct (fst (issue idf ps))"
proof (induction ps arbitrary: idf)
  case Nil
  then show ?case by simp
next
  case (Cons p ps)
  let ?idf' = "snd (IdFactory_next idf p)"
  let ?y = "mk_id p (counter_get idf p + 1)"
  have "?y \<notin> set (fst (issue ?idf' ps))"
  proof
    assume "?y \<in> set (fst (issue ?idf' ps))"
    from issue_above [OF this] obtain q m where e: "?y = mk_id q m" and m: "counter_get ?idf' q < m"
      by blast
    from mk_id_inj [OF e] have "q = p" "m = counter_get idf p + 1" by auto
    with m show False by (simp add: IdFactory_next_counter)
  qed
  with Cons.IH [of ?idf'] show ?case
    by (simp only: issue_Cons IdFactory_next_id) simp
qed

section \<open>Reasoning about runs\<close>

lemma returnE_Inr [simp]: "returnE x w = Inr (y, w') \<longleftrightarrow> y = x \<and> w' = w"
  by (auto simp: returnE_def)

lemma raise_Inr [simp]: "raise e w \<noteq> Inr r"
  by (simp add: raise_def)

lemma bindE_Inr:
  "bindE m f w = Inr (y, w') \<longleftrightarrow> (\<exists>x w1. m w = Inr (x, w1) \<and> f x w1 = Inr (y, w'))"
  by (auto simp: bindE_def split: sum.splits)

lemma bindE_InrE:
  assumes "bindE m f w = Inr (y, w')"
  obtains x w1 where "m w = Inr (x, w1)" "f x w1 = Inr (y, w')"
  using assms by (auto simp: bindE_Inr)

lemma for_loop_inv:
  assumes "for_loop xs body l w = Inr (l', w')"
    and "I l w"
    and "\<And>x l w l' w'. x \<in> set xs \<Longrightarrow> I l w \<Longrightarrow> body x l w = Inr (l', w') \<Longrightarrow> I l' w'"
  shows "I l' w'"
  using assms
proof (induction xs arbitrary: l w)
  case Nil
  then show ?case by simp
next
  case (Cons x xs)
  from Cons.prems(1) obtain l1 w1 where b: "body x l w = Inr (l1, w1)"
    and r: "for_loop xs body l1 w1 = Inr (l', w')"
    by (auto simp: bindE_Inr)
  have i1: "I l1 w1" by (rule Cons.prems(3) [OF _ Cons.prems(2) b]) simp
  show ?case
  proof (rule Cons.IH [OF r i1])
    fix y l w l' w'
    assume "y \<in> set xs" "I l w" "body y l w = Inr (l', w')"
    then show "I l' w'" using Cons.prems(3) [of y l w l' w'] by simp
  qed
qed

subsection \<open>What each primitive returns and how it changes the world\<close>

lemma next_draw_fields [simp]:
  "factory (next_draw w) = factory w" "clock (next_draw w) = clock w"
  "rng (next_draw w) = (\<lambda>n. rng w (Suc n))"
  by (simp_all add: next_draw_def)

lemma next_tick_fields [simp]:
  "factory (next_tick w) = factory w" "rng (next_tick w) = rng w"
  "clock (next_tick w) = (\<lambda>n. clock w (Suc n))"
  by (simp_all add: next_tick_def)

lemma draw_eq: "draw w = Inr (rng w 0, next_draw w)"
  by (simp add: draw_def)

lemma randbelow_eq: "randbelow n w = Inr (nat (rng w 0 mod int n), next_draw w)"
  by (simp add: randbelow_def bindE_def draw_eq returnE_def)

lemma randbelow_less: "0 < n \<Longrightarrow> nat (d mod int n) < n"
  by (simp add: nat_less_iff)

lemma choice_Inr:
  "choice seq w = Inr (x, w') \<longleftrightarrow>
     seq \<noteq> [] \<and> x = seq ! nat (rng w 0 mod int (length seq)) \<and> w' = next_draw w"
  by (auto simp: choice_def bindE_def randbelow_eq returnE_def raise_def)

lemma pick_Inr:
  "pick seq w = Inr (x, w') \<longleftrightarrow>
     seq \<noteq> [] \<and> x = seq ! nat (rng w 0 mod int (length seq)) \<and> w' = next_draw w"
  by (simp add: pick_def choice_Inr)

lemma pick_InrD: "pick seq w = Inr (x, w') \<Longrightarrow> x \<in> set seq \<and> w' = next_draw w"
  by (auto simp: pick_Inr randbelow_less)

lemma choice_InrD: "choice seq w = Inr (x, w') \<Longrightarrow> x \<in> set seq \<and> w' = next_draw w"
  by (auto simp: choice_Inr randbelow_less)

lemma pick_opt_InrD:
  "pick_opt xs w = Inr (r, w') \<Longrightarrow>
     (xs = [] \<and> r = None \<and> w' = w) \<or> (\<exists>x \<in> set xs. r = Some x \<and> w' = next_draw w)"
  by (auto simp: pick_opt_def bindE_Inr split: if_splits dest!: pick_InrD)

lemma random_unit_eq: "random_unit w = Inr (rng w 0 mod 2 ^ 53, next_draw w)"
  by (simp add: random_unit_def bindE_def draw_eq returnE_def)

lemma random_gt_eq:
  "random_gt num den w = Inr (rng w 0 mod 2 ^ 53 * den > num * 2 ^ 53, next_draw w)"
  by (simp add: random_gt_def bindE_def random_unit_eq returnE_def)

lemma random_lt_eq:
  "random_lt num den w = Inr (rng w 0 mod 2 ^ 53 * den < num * 2 ^ 53, next_draw w)"
  by (simp add: random_lt_def bindE_def random_unit_eq returnE_def)

lemma uniform_int_eq:
  "uniform_int a b w
     = Inr (round53 (a * 2 ^ 53 + round53 ((b - a) * (rng w 0 mod 2 ^ 53))) div 2 ^ 53,
            next_draw w)"
  by (simp add: uniform_int_def bindE_def random_unit_eq returnE_def)

lemma randint_Inr:
  "randint a b w = Inr (x, w') \<longleftrightarrow>
     a \<le> b \<and> x = a + int (nat (rng w 0 mod int (nat (b - a + 1)))) \<and> w' = next_draw w"
  by (auto simp: randint_def bindE_def randbelow_eq returnE_def raise_def)

lemma randint_InrD: "randint a b w = Inr (x, w') \<Longrightarrow> a \<le> x \<and> x \<le> b \<and> w' = next_draw w"
proof -
  assume r: "randint a b w = Inr (x, w')"
  then have ab: "a \<le> b" and x: "x = a + int (nat (rng w 0 mod int (nat (b - a + 1))))"
    and w: "w' = next_draw w"
    by (simp_all add: randint_Inr)
  from ab have "nat (rng w 0 mod int (nat (b - a + 1))) < nat (b - a + 1)"
    by (intro randbelow_less) simp
  with ab x w show ?thesis by simp
qed

lemma now_utc_eq: "now_utc w = Inr (clock w 0, next_tick w)"
  by (simp add: now_utc_def)

lemma dt_add_InrD: "dt_add t d w = Inr (x, w') \<Longrightarrow> x = t + d \<and> w' = w"
  by (auto simp: dt_add_def split: if_splits)

lemma dt_sub_InrD: "dt_sub t d w = Inr (x, w') \<Longrightarrow> x = t - d \<and> w' = w"
  by (auto simp: dt_sub_def dest: dt_add_InrD)

lemma date_sub_days_InrD: "date_sub_days d k w = Inr (x, w') \<Longrightarrow> x = d - k \<and> w' = w"
  by (auto simp: date_sub_days_def split: if_splits)

lemma issued_fields [simp]:
  "rng (issued p w) = rng w" "clock (issued p w) = clock w"
  "counter_get (factory (issued p w)) q
     = (if q = p then counter_get (factory w) p + 1 else counter_get (factory w) q)"
  by (simp_all add: issued_def IdFactory_next_counter)

lemma next_id_eq:
  "next_id p w = Inr (mk_id p (counter_get (factory w) p + 1), issued p w)"
  by (simp add: next_id_def issued_def case_prod_beta IdFactory_next_id)

lemma iso_add_minutes: "iso (t + timedelta 0 m) = iso t + m * USEC_PER_MINUTE"
proof -
  have e: "m * 60000000 = (m * 60) * (1000000::int)" by simp
  have "(t + m * 60000000) mod 1000000 = t mod 1000000"
    unfolding e by (rule mod_mult_self1)
  then show ?thesis
    by (simp add: iso_def timedelta_def USEC_PER_MINUTE_def)
qed

subsection \<open>Loops that append one row per iteration\<close>

lemma for_loop_concat:
  assumes "for_loop xs body acc w = Inr (out, w')"
    and "\<And>x acc w out w'. x \<in> set xs \<Longrightarrow> body x acc w = Inr (out, w')
           \<Longrightarrow> \<exists>rows. out = acc @ rows \<and> R x rows"
  shows "\<exists>rowss. out = acc @ concat rowss \<and> list_all2 R xs rowss"
  using assms
proof (induction xs arbitrary: acc w)
  case Nil
  then show ?case by simp
next
  case (Cons x xs)
  from Cons.prems(1) obtain acc1 w1 where b: "body x acc w = Inr (acc1, w1)"
    and r: "for_loop xs body acc1 w1 = Inr (out, w')"
    by (auto simp: bindE_Inr)
  from Cons.prems(2) [of x, OF _ b] obtain rows where rows: "acc1 = acc @ rows" "R x rows"
    by auto
  have "\<exists>rowss. out = acc1 @ concat rowss \<and> list_all2 R xs rowss"
  proof (rule Cons.IH [OF r])
    fix y acc w out w'
    assume "y \<in> set xs" and "body y acc w = Inr (out, w')"
    then show "\<exists>rows. out = acc @ rows \<and> R y rows"
      using Cons.prems(2) [of y acc w out w'] by simp
  qed
  then obtain rowss where "out = acc1 @ concat rowss" "list_all2 R xs rowss" by blast
  with rows have "out = acc @ concat (rows # rowss) \<and> list_all2 R (x # xs) (rows # rowss)"
    by simp
  then show ?case by blast
qed

text \<open>The same for a loop that carries a second local variable beside the list.\<close>

lemma for_loop_concat2:
  assumes "for_loop xs body (acc, s) w = Inr ((out, s'), w')"
    and "\<And>x acc s w out s' w'. x \<in> set xs \<Longrightarrow> body x (acc, s) w = Inr ((out, s'), w')
           \<Longrightarrow> \<exists>rows. out = acc @ rows \<and> R x rows"
  shows "\<exists>rowss. out = acc @ concat rowss \<and> list_all2 R xs rowss"
  using assms
proof (induction xs arbitrary: acc s w)
  case Nil
  then show ?case by simp
next
  case (Cons x xs)
  from Cons.prems(1) obtain acc1 s1 w1 where b: "body x (acc, s) w = Inr ((acc1, s1), w1)"
    and r: "for_loop xs body (acc1, s1) w1 = Inr ((out, s'), w')"
    by (auto simp: bindE_Inr)
  from Cons.prems(2) [of x, OF _ b] obtain rows where rows: "acc1 = acc @ rows" "R x rows"
    by auto
  have "\<exists>rowss. out = acc1 @ concat rowss \<and> list_all2 R xs rowss"
  proof (rule Cons.IH [OF r])
    fix y acc s w out s' w'
    assume "y \<in> set xs" and "body y (acc, s) w = Inr ((out, s'), w')"
    then show "\<exists>rows. out = acc @ rows \<and> R y rows"
      using Cons.prems(2) [of y acc s w out s' w'] by simp
  qed
  then obtain rowss where "out = acc1 @ concat rowss" "list_all2 R xs rowss" by blast
  with rows have "out = acc @ concat (rows # rowss) \<and> list_all2 R (x # xs) (rows # rowss)"
    by simp
  then show ?case by blast
qed

lemma concat_singletons:
  "list_all2 (\<lambda>x rows. \<exists>r. rows = [r] \<and> P x r) xs rowss \<Longrightarrow> list_all2 P xs (concat rowss)"
  by (induction xs rowss rule: list_all2_induct) auto

text \<open>\<^verbatim>\<open>for x in xs: acc.append(row(x))\<close>\<close>

lemma rows_loop:
  assumes "for_loop xs (\<lambda>x acc. bindE (row x) (\<lambda>r. returnE (acc @ [r]))) acc w = Inr (out, w')"
  shows "\<exists>rows. out = acc @ rows \<and> list_all2 (\<lambda>x r. \<exists>w1 w2. row x w1 = Inr (r, w2)) xs rows"
proof -
  let ?P = "\<lambda>x r. \<exists>w1 w2. row x w1 = Inr (r, w2)"
  have "\<exists>rowss. out = acc @ concat rowss \<and> list_all2 (\<lambda>x rows. \<exists>r. rows = [r] \<and> ?P x r) xs rowss"
  proof (rule for_loop_concat [OF assms])
    fix x acc w out w'
    assume "bindE (row x) (\<lambda>r. returnE (acc @ [r])) w = Inr (out, w')"
    then obtain r w1 where "row x w = Inr (r, w1)" "out = acc @ [r]"
      by (auto simp: bindE_Inr)
    then have "out = acc @ [r] \<and> (\<exists>r'. [r] = [r'] \<and> ?P x r')" by blast
    then show "\<exists>rows. out = acc @ rows \<and> (\<exists>r. rows = [r] \<and> ?P x r)" by blast
  qed
  then obtain rowss where "out = acc @ concat rowss"
    "list_all2 (\<lambda>x rows. \<exists>r. rows = [r] \<and> ?P x r) xs rowss" by blast
  with concat_singletons [of ?P xs rowss] show ?thesis by blast
qed

text \<open>\<^verbatim>\<open>for p in ps: for x in xs(p): acc.append(row(p, x))\<close>\<close>

lemma nested_rows_loop:
  assumes "for_loop ps (\<lambda>p. for_loop (xs p) (\<lambda>x acc. bindE (row p x) (\<lambda>r. returnE (acc @ [r]))))
             acc w = Inr (out, w')"
  shows "\<exists>rowss. out = acc @ concat rowss \<and>
           list_all2 (\<lambda>p rows. list_all2 (\<lambda>x r. \<exists>w1 w2. row p x w1 = Inr (r, w2)) (xs p) rows)
             ps rowss"
  by (rule for_loop_concat [OF assms]) (rule rows_loop)

lemma nested_rows_inv:
  assumes "for_loop ps (\<lambda>p. for_loop (xs p) (\<lambda>x acc. bindE (row p x) (\<lambda>r. returnE (acc @ [r]))))
             acc w = Inr (out, w')"
    and "I acc w"
    and "\<And>p x acc w r w'. p \<in> set ps \<Longrightarrow> x \<in> set (xs p) \<Longrightarrow> I acc w
           \<Longrightarrow> row p x w = Inr (r, w') \<Longrightarrow> I (acc @ [r]) w'"
  shows "I out w'"
proof (rule for_loop_inv [where I = I, OF assms(1,2)])
  fix p l w l' w'
  assume p: "p \<in> set ps" and l: "I l w"
    and b: "for_loop (xs p) (\<lambda>x acc. bindE (row p x) (\<lambda>r. returnE (acc @ [r]))) l w = Inr (l', w')"
  show "I l' w'"
  proof (rule for_loop_inv [where I = I, OF b l])
    fix x l w l' w'
    assume "x \<in> set (xs p)" "I l w" "bindE (row p x) (\<lambda>r. returnE (l @ [r])) w = Inr (l', w')"
    then obtain r w1 where "row p x w = Inr (r, w1)" "l' = l @ [r]" "w' = w1"
      by (auto simp: bindE_Inr)
    with p \<open>x \<in> set (xs p)\<close> \<open>I l w\<close> show "I l' w'"
      using assms(3) [of p x l w r w1] by simp
  qed
qed

lemma rows_inv:
  assumes "for_loop xs (\<lambda>x acc. bindE (row x) (\<lambda>r. returnE (acc @ [r]))) acc w = Inr (out, w')"
    and "I acc w"
    and "\<And>x acc w r w'. x \<in> set xs \<Longrightarrow> I acc w \<Longrightarrow> row x w = Inr (r, w') \<Longrightarrow> I (acc @ [r]) w'"
  shows "I out w'"
proof (rule for_loop_inv [where I = I, OF assms(1,2)])
  fix x l w l' w'
  assume "x \<in> set xs" "I l w" "bindE (row x) (\<lambda>r. returnE (l @ [r])) w = Inr (l', w')"
  then obtain r w1 where "x \<in> set xs" "I l w" "row x w = Inr (r, w1)" "l' = l @ [r]" "w' = w1"
    by (auto simp: bindE_Inr)
  then show "I l' w'"
    using assms(3) [of x l w r w1] by simp
qed

section \<open>The assembled run\<close>

lemma generate_InrE:
  assumes "generate env c w = Inr (d, w')"
  obtains w1 w2 w3 w4 w5 w6 w7 w8 w9 w10 w11 w12 w13 where
    "gen_orgs (c_orgs_count c) w = Inr (data_orgs d, w1)"
    "gen_users env (data_orgs d) (c_users_per_org c) w1 = Inr (data_users d, w2)"
    "gen_projects (data_orgs d) (c_projects_per_org c) w2 = Inr (data_projects d, w3)"
    "gen_dashboards (data_projects d) (data_users d) (c_dashboards_per_project c) w3
       = Inr (data_dashboards d, w4)"
    "gen_metrics (data_projects d) (c_metrics_per_project c) w4 = Inr (data_metrics d, w5)"
    "gen_metric_samples (data_metrics d) (c_samples_per_metric c) w5
       = Inr (data_metric_samples d, w6)"
    "gen_widgets (data_dashboards d) (data_metrics d) (c_widgets_per_dashboard c) w6
       = Inr (data_widgets d, w7)"
    "gen_alerts (data_projects d) (data_metrics d) (c_alerts_per_project c) w7
       = Inr (data_alerts d, w8)"
    "gen_incidents (data_alerts d) (c_incidents_per_alert c) w8 = Inr (data_incidents d, w9)"
    "gen_eval_suites (data_projects d) (c_suites_per_project c) w9
       = Inr (data_eval_suites d, w10)"
    "gen_eval_runs (data_eval_suites d) (c_runs_per_suite c) w10 = Inr (data_eval_runs d, w11)"
    "gen_permissions (data_projects d) (data_users d) (c_permissions_per_user c) w11
       = Inr (data_permissions d, w12)"
    "gen_feature_flags (data_orgs d) (c_feature_flags_count c) w12
       = Inr (data_feature_flags d, w13)"
    "gen_audit_logs (data_orgs d) (data_users d) (data_projects d) (data_dashboards d)
       (data_widgets d) (data_alerts d) (c_audit_logs_count c) w13
       = Inr (data_audit_logs d, w')"
  using assms unfolding generate_def
  by (elim bindE_InrE) auto

lemma build_mock_data_Inr:
  "build_mock_data env seed c = Inr d \<longleftrightarrow>
     (\<exists>w'. generate env c (init_world env seed) = Inr (d, w'))"
  by (auto simp: build_mock_data_def split: sum.splits)

lemma example_run: "build_mock_data example_env 42 example_config = Inr example_data"
  by code_simp


section \<open>Incidents: status and resolution time\<close>

definition incident_ok :: "incident \<Rightarrow> bool" where
  "incident_ok inc \<longleftrightarrow>
     (incident_status inc = ''resolved'' \<longleftrightarrow> incident_resolved_at inc \<noteq> None) \<and>
     (incident_status inc = ''open'' \<longleftrightarrow> incident_resolved_at inc = None) \<and>
     (case incident_resolved_at inc of None \<Rightarrow> True | Some t \<Rightarrow> incident_opened_at inc < t)"

lemma incident_row_ok:
  assumes "incident_row al w = Inr (inc, w')"
  shows "incident_ok inc"
proof -
  from assms obtain opened r resolved status w1 w2 where
    br: "(if r then bindE (randint 5 180) (\<lambda>minutes'.
                      bindE (dt_add opened (timedelta 0 minutes')) (\<lambda>resolved.
                      returnE (Some resolved, ''resolved'')))
            else returnE (None, ''open'')) w1 = Inr ((resolved, status), w2)"
    and inc: "incident_status inc = status" "incident_opened_at inc = iso opened"
      "incident_resolved_at inc = map_option iso resolved"
    unfolding incident_row_def
    by (elim bindE_InrE) (auto simp: bindE_Inr split: prod.splits)
  show ?thesis
  proof (cases r)
    case False
    with br inc show ?thesis by (simp add: incident_ok_def)
  next
    case True
    with br obtain m w3 w4 where m: "randint 5 180 w1 = Inr (m, w3)"
      and a: "dt_add opened (timedelta 0 m) w3 = Inr (the resolved, w4)"
      and s: "status = ''resolved''" "resolved = Some (the resolved)"
      by (auto simp: bindE_Inr)
    from randint_InrD [OF m] have "5 \<le> m" by simp
    moreover from dt_add_InrD [OF a] have "the resolved = opened + timedelta 0 m" by simp
    ultimately have "iso opened < iso (the resolved)"
      by (simp add: iso_add_minutes USEC_PER_MINUTE_def)
    with s inc show ?thesis
      by (cases resolved) (simp_all add: incident_ok_def)
  qed
qed

lemma gen_incidents_ok:
  assumes "gen_incidents alerts k w = Inr (incidents, w')"
  shows "\<forall>inc \<in> set incidents. incident_ok inc"
proof -
  let ?I = "\<lambda>(l::incident list) (w::world). \<forall>inc \<in> set l. incident_ok inc"
  have "?I incidents w'"
  proof (rule for_loop_inv [where I = ?I, OF assms [unfolded gen_incidents_def]])
    show "?I [] w" by simp
  next
    fix al l w l' w'
    assume l: "?I l w" and b: "for_loop (range_py k)
          (\<lambda>_ incidents. bindE (incident_row al) (\<lambda>r. returnE (incidents @ [r]))) l w = Inr (l', w')"
    show "?I l' w'"
    proof (rule for_loop_inv [where I = ?I, OF b l])
      fix x l w l' w'
      assume "?I l w" "bindE (incident_row al) (\<lambda>r. returnE (l @ [r])) w = Inr (l', w')"
      then show "?I l' w'"
        by (auto simp: bindE_Inr dest: incident_row_ok)
    qed
  qed
  then show ?thesis .
qed


text \<open>
  Claim C6. In every generated dataset, every incident has status \<^verbatim>\<open>"resolved"\<close> exactly
  when \<^verbatim>\<open>resolved_at\<close> is set and status \<^verbatim>\<open>"open"\<close> exactly when it is \<^verbatim>\<open>None\<close>, and a
  \<^verbatim>\<open>resolved_at\<close> that is set is strictly later than \<^verbatim>\<open>opened_at\<close>, both compared after
  their truncation to whole seconds.
\<close>

theorem incident_status_and_resolution:
  assumes "build_mock_data env seed c = Inr d"
  shows "\<forall>inc \<in> set (data_incidents d).
           (incident_status inc = ''resolved'' \<longleftrightarrow> incident_resolved_at inc \<noteq> None) \<and>
           (incident_status inc = ''open'' \<longleftrightarrow> incident_resolved_at inc = None) \<and>
           (\<forall>t. incident_resolved_at inc = Some t \<longrightarrow> incident_opened_at inc < t)"
proof
  fix inc
  assume i: "inc \<in> set (data_incidents d)"
  from assms obtain w' where "generate env c (init_world env seed) = Inr (d, w')"
    by (auto simp: build_mock_data_Inr)
  then obtain w8 w9 where
    "gen_incidents (data_alerts d) (c_incidents_per_alert c) w8 = Inr (data_incidents d, w9)"
    by (rule generate_InrE)
  from gen_incidents_ok [OF this] i have "incident_ok inc" by blast
  then show "(incident_status inc = ''resolved'' \<longleftrightarrow> incident_resolved_at inc \<noteq> None) \<and>
           (incident_status inc = ''open'' \<longleftrightarrow> incident_resolved_at inc = None) \<and>
           (\<forall>t. incident_resolved_at inc = Some t \<longrightarrow> incident_opened_at inc < t)"
    by (auto simp: incident_ok_def)
qed


theorem incident_status_and_resolution_witness:
  "build_mock_data example_env 42 example_config = Inr example_data
   \<and> map incident_status (data_incidents example_data)
       = [''resolved'', ''open'', ''open'', ''resolved'']
   \<and> list_all (\<lambda>inc.
         (incident_status inc = ''resolved'' \<longleftrightarrow> incident_resolved_at inc \<noteq> None) \<and>
         (incident_status inc = ''open'' \<longleftrightarrow> incident_resolved_at inc = None) \<and>
         (\<forall>t. incident_resolved_at inc = Some t \<longrightarrow> incident_opened_at inc < t))
       (data_incidents example_data)"
proof -
  from incident_status_and_resolution [OF example_run]
  have "list_all (\<lambda>inc.
         (incident_status inc = ''resolved'' \<longleftrightarrow> incident_resolved_at inc \<noteq> None) \<and>
         (incident_status inc = ''open'' \<longleftrightarrow> incident_resolved_at inc = None) \<and>
         (\<forall>t. incident_resolved_at inc = Some t \<longrightarrow> incident_opened_at inc < t))
       (data_incidents example_data)"
    by (simp only: list_all_iff)
  moreover have "map incident_status (data_incidents example_data)
       = [''resolved'', ''open'', ''open'', ''resolved'']"
    by (simp add: example_data_def)
  ultimately show ?thesis using example_run by simp
qed

section \<open>Users: cardinality and admins\<close>



lemma user_row_role:
  assumes "user_row env name_pool org domain u name_idx w = Inr ((r, name_idx'), w')"
  shows "user_org_id r = org_id org \<and> (user_role r = ''admin'' \<longleftrightarrow> u = 0)"
  using assms unfolding user_row_def Let_def
  by (elim bindE_InrE) (auto simp: bindE_Inr split: if_splits)

definition org_segment :: "int \<Rightarrow> org \<Rightarrow> user list \<Rightarrow> bool" where
  "org_segment k org seg \<longleftrightarrow>
     length seg = nat k \<and>
     (\<forall>i < nat k. user_org_id (seg ! i) = org_id org \<and> (user_role (seg ! i) = ''admin'' \<longleftrightarrow> i = 0))"

lemma users_inner_loop:
  assumes "for_loop (range_py k)
             (\<lambda>u (users, name_idx).
                bindE (user_row env name_pool org domain u name_idx)
                  (\<lambda>(r, name_idx'). returnE (users @ [r], name_idx')))
             (users, name_idx) w = Inr ((out, name_idx'), w')"
  shows "\<exists>seg. out = users @ seg \<and> org_segment k org seg"
proof -
  let ?P = "\<lambda>u r. user_org_id r = org_id org \<and> (user_role r = ''admin'' \<longleftrightarrow> u = (0::int))"
  have "\<exists>rowss. out = users @ concat rowss
          \<and> list_all2 (\<lambda>u rows. \<exists>r. rows = [r] \<and> ?P u r) (range_py k) rowss"
  proof (rule for_loop_concat2 [OF assms])
    fix u acc s w out s' w'
    assume "(case (acc, s) of (users, name_idx) \<Rightarrow>
               bindE (user_row env name_pool org domain u name_idx)
                 (\<lambda>(r, name_idx'). returnE (users @ [r], name_idx'))) w = Inr ((out, s'), w')"
    then obtain r w1 where "user_row env name_pool org domain u s w = Inr ((r, s'), w1)"
      "out = acc @ [r]"
      by (auto simp: bindE_Inr)
    with user_row_role [of env name_pool org domain u s w r s' w1]
    have "out = acc @ [r] \<and> (\<exists>r'. [r] = [r'] \<and> ?P u r')" by simp
    then show "\<exists>rows. out = acc @ rows \<and> (\<exists>r. rows = [r] \<and> ?P u r)" by blast
  qed
  then obtain rowss where out: "out = users @ concat rowss"
    and l: "list_all2 (\<lambda>u rows. \<exists>r. rows = [r] \<and> ?P u r) (range_py k) rowss" by blast
  from concat_singletons [OF l] have a: "list_all2 ?P (range_py k) (concat rowss)" .
  then have len: "length (concat rowss) = nat k"
    by (auto dest: list_all2_lengthD simp: range_py_def)
  have "\<forall>i < nat k. ?P (int i) (concat rowss ! i)"
  proof (intro allI impI)
    fix i assume i: "i < nat k"
    then have "i < length (range_py k)" by (simp add: range_py_def)
    from list_all2_nthD [OF a this] have "?P (range_py k ! i) (concat rowss ! i)" .
    with i show "?P (int i) (concat rowss ! i)" by (simp add: range_py_def)
  qed
  with len have "org_segment k org (concat rowss)"
    by (simp add: org_segment_def)
  with out show ?thesis by blast
qed

lemma gen_users_segments:
  assumes "gen_users env orgs k w = Inr (users, w')"
  shows "\<exists>segs. users = concat segs \<and> list_all2 (org_segment k) orgs segs"
proof -
  from assms obtain name_pool w1 w2 name_idx where
    loop: "for_loop orgs
              (\<lambda>org. let domain = slugify env (org_name org) @ ''.com'' in
                 for_loop (range_py k)
                   (\<lambda>u (users, name_idx).
                      bindE (user_row env name_pool org domain u name_idx)
                        (\<lambda>(r, name_idx'). returnE (users @ [r], name_idx'))))
              ([], 0) w1 = Inr ((users, name_idx), w2)"
    unfolding gen_users_def by (auto simp: bindE_Inr)
  have "\<exists>segs. users = [] @ concat segs \<and> list_all2 (org_segment k) orgs segs"
  proof (rule for_loop_concat2 [OF loop])
    fix org acc s w out s' w'
    assume "(let domain = slugify env (org_name org) @ ''.com'' in
                 for_loop (range_py k)
                   (\<lambda>u (users, name_idx).
                      bindE (user_row env name_pool org domain u name_idx)
                        (\<lambda>(r, name_idx'). returnE (users @ [r], name_idx'))))
              (acc, s) w = Inr ((out, s'), w')"
    then show "\<exists>rows. out = acc @ rows \<and> org_segment k org rows"
      unfolding Let_def by (rule users_inner_loop)
  qed
  then show ?thesis by simp
qed

subsection \<open>Lists made of segments of one length\<close>









section \<open>Rows: identifiers, references and effect on the world\<close>

text \<open>A step that only consumes random draws leaves the factory and the clock alone.\<close>

definition draws_only :: "world \<Rightarrow> world \<Rightarrow> bool" where
  "draws_only w w' \<longleftrightarrow> factory w' = factory w \<and> clock w' = clock w"

lemma draws_only_refl [simp]: "draws_only w w"
  by (simp add: draws_only_def)

lemma draws_only_next_draw [simp]: "draws_only w (next_draw w)"
  by (simp add: draws_only_def)

lemma draws_only_trans: "draws_only w w1 \<Longrightarrow> draws_only w1 w2 \<Longrightarrow> draws_only w w2"
  by (simp add: draws_only_def)

lemma draws_only_next_draw_trans [simp]: "draws_only w w1 \<Longrightarrow> draws_only w (next_draw w1)"
  by (simp add: draws_only_def)

lemma for_loop_draws_only:
  assumes "for_loop xs body l w = Inr (l', w')"
    and "\<And>x l w l' w'. x \<in> set xs \<Longrightarrow> body x l w = Inr (l', w') \<Longrightarrow> draws_only w w'"
  shows "draws_only w w'"
proof -
  have "draws_only w w'"
  proof (rule for_loop_inv [where I = "\<lambda>l v. draws_only w v", OF assms(1)])
    show "draws_only w w" by simp
  next
    fix x l v l' v'
    assume "x \<in> set xs" "draws_only w v" "body x l v = Inr (l', v')"
    then show "draws_only w v'"
      using assms(2) [of x l v l' v'] by (auto intro: draws_only_trans)
  qed
  then show ?thesis .
qed

lemma shuffle_draws_only: "shuffle x w = Inr (y, w') \<Longrightarrow> draws_only w w'"
  unfolding shuffle_def
  by (erule for_loop_draws_only) (auto simp: bindE_Inr randbelow_eq)

lemma sample_draws_only: "sample population k w = Inr (y, w') \<Longrightarrow> draws_only w w'"
  unfolding sample_def Let_def
  by (auto simp: bindE_Inr randbelow_eq split: if_splits
      elim!: for_loop_draws_only)

lemma resample_result:
  assumes "resample collides again x tries w = Inr ((y, tries'), w')"
    and "P x"
    and "\<And>w x' w'. again w = Inr (x', w') \<Longrightarrow> P x' \<and> draws_only w w'"
  shows "P y \<and> draws_only w w'"
  using assms
proof (induction collides again x tries w rule: resample.induct)
  case (1 collides again x tries w)
  show ?case
  proof (cases "collides x \<and> tries < 10")
    case False
    with "1.prems"(1,2) show ?thesis by (simp add: resample.simps [of collides again x tries w])
  next
    case True
    with "1.prems"(1) obtain x1 w1 where a: "again w = Inr (x1, w1)"
      and r: "resample collides again x1 (tries + 1) w1 = Inr ((y, tries'), w')"
      by (auto simp: resample.simps [of collides again x tries w] split: sum.splits)
    from "1.prems"(3) [OF a] have p: "P x1" and d: "draws_only w w1" by simp_all
    have "P y \<and> draws_only w1 w'"
      by (rule "1.IH" [OF True a refl r p]) (rule "1.prems"(3))
    with d show ?thesis by (auto intro: draws_only_trans)
  qed
qed

lemma project_row_spec:
  assumes "project_row org w = Inr (r, w')"
  shows "project_id r = mk_id ''prj'' (counter_get (factory w) ''prj'' + 1)
       \<and> project_org_id r = org_id org
       \<and> counter_get (factory w') ''prj'' = counter_get (factory w) ''prj'' + 1
       \<and> clock w' = clock w"
  using assms unfolding project_row_def
  by (elim bindE_InrE) (auto simp: next_id_eq pick_Inr random_gt_eq)

lemma user_row_spec:
  assumes "user_row env name_pool org domain u name_idx w = Inr ((r, name_idx'), w')"
  shows "user_id r = mk_id ''usr'' (counter_get (factory w) ''usr'' + 1)
       \<and> counter_get (factory w') ''usr'' = counter_get (factory w) ''usr'' + 1
       \<and> clock w' = clock w"
  using assms unfolding user_row_def Let_def
  by (elim bindE_InrE) (auto simp: next_id_eq bindE_Inr random_gt_eq split: if_splits)

lemma dashboard_row_spec:
  assumes "dashboard_row prj org_users w = Inr (r, w')"
  shows "dashboard_id r = mk_id ''db'' (counter_get (factory w) ''db'' + 1)
       \<and> dashboard_project_id r = project_id prj
       \<and> (case dashboard_owner_user_id r of None \<Rightarrow> True
           | Some uid \<Rightarrow> \<exists>u \<in> set org_users. user_id u = uid)
       \<and> counter_get (factory w') ''db'' = counter_get (factory w) ''db'' + 1
       \<and> clock w' = clock w"
  using assms unfolding dashboard_row_def
  by (elim bindE_InrE) (auto simp: next_id_eq pick_Inr random_gt_eq dest!: pick_opt_InrD)

lemma metric_row_spec:
  assumes "metric_row prj used w = Inr ((r, used'), w')"
  shows "metric_id r = mk_id ''m'' (counter_get (factory w) ''m'' + 1)
       \<and> metric_project_id r = project_id prj
       \<and> counter_get (factory w') ''m'' = counter_get (factory w) ''m'' + 1
       \<and> clock w' = clock w"
proof -
  from assms obtain c w1 name retention status tries w2 mid w3 where
    p: "pick METRIC_CATALOG w = Inr (c, w1)"
    and rs: "resample (\<lambda>(name, retention, status). name \<in> used) (pick METRIC_CATALOG) c 0 w1
           = Inr (((name, retention, status), tries), w2)"
    and n: "next_id ''m'' w2 = Inr (mid, w3)"
    and r: "r = \<lparr>metric_id = mid, metric_project_id = project_id prj, metric_name = name,
               metric_retention_days = retention, metric_status = status\<rparr>" "w' = w3"
    unfolding metric_row_def by (elim bindE_InrE) (auto simp: bindE_Inr split: prod.splits)
  from p have d1: "draws_only w w1" by (simp add: pick_Inr)
  have "True \<and> draws_only w1 w2"
    by (rule resample_result [OF rs]) (auto simp: pick_Inr)
  with d1 have "draws_only w w2" by (auto intro: draws_only_trans)
  with n r show ?thesis
    by (simp add: next_id_eq draws_only_def) auto
qed

lemma group_by_foldl:
  "get_list (foldl (\<lambda>m x. setdefault_append m (key x) x) m xs) k
     = get_list m k @ filter (\<lambda>x. key x = k) xs"
  by (induction xs arbitrary: m) (auto simp: get_list_def setdefault_append_def)

lemma get_list_group_by: "get_list (group_by key xs) k = filter (\<lambda>x. key x = k) xs"
  by (simp add: group_by_def group_by_foldl) (simp add: get_list_def)

lemma org_row_spec:
  assumes "org_row names i w = Inr (r, w')"
  shows "clock w' = clock w"
  using assms unfolding org_row_def Let_def
  by (elim bindE_InrE) (auto simp: next_id_eq pick_Inr random_gt_eq)

lemma sample_row_spec:
  assumes "sample_row m base_date samples_per_metric i w = Inr (r, w')"
  shows "sample_metric_id r = metric_id m \<and> sample_date r = base_date - (samples_per_metric - 1 - i)"
  using assms unfolding sample_row_def
  by (elim bindE_InrE) (auto simp: uniform_int_eq dest!: date_sub_days_InrD)

lemma widget_row_spec:
  assumes "widget_row db prj_metrics w = Inr (r, w')"
  shows "widget_dashboard_id r = dashboard_id db
       \<and> (case widget_metric_id r of None \<Rightarrow> True
           | Some mid \<Rightarrow> \<exists>m \<in> set prj_metrics. metric_id m = mid)"
  using assms unfolding widget_row_def
  by (elim bindE_InrE)
    (auto simp: next_id_eq pick_Inr random_gt_eq random_lt_eq dest!: pick_opt_InrD)

lemma alert_row_spec:
  assumes "alert_row prj prj_metrics w = Inr (r, w')"
  shows "alert_project_id r = project_id prj
       \<and> (case alert_metric_id r of None \<Rightarrow> True
           | Some mid \<Rightarrow> \<exists>m \<in> set prj_metrics. metric_id m = mid)"
  using assms unfolding alert_row_def
  by (elim bindE_InrE)
    (auto simp: next_id_eq pick_Inr random_gt_eq uniform_int_eq now_utc_eq
      dest!: pick_opt_InrD randint_InrD dt_sub_InrD)

lemma incident_row_spec:
  assumes "incident_row al w = Inr (r, w')"
  shows "incident_alert_id r = alert_id al"
  using assms unfolding incident_row_def
  by (elim bindE_InrE) (auto simp: bindE_Inr split: prod.splits)

lemma eval_suite_row_spec:
  assumes "eval_suite_row prj w = Inr (r, w')"
  shows "suite_project_id r = project_id prj"
  using assms unfolding eval_suite_row_def
  by (elim bindE_InrE) auto

lemma eval_run_row_spec:
  assumes "eval_run_row s w = Inr (r, w')"
  shows "run_suite_id r = suite_id s"
  using assms unfolding eval_run_row_def
  by (elim bindE_InrE) auto

lemma permission_row_spec:
  assumes "permission_row u available chosen w = Inr ((r, chosen'), w')"
  shows "perm_user_id r = user_id u \<and> perm_project_id r \<in> project_id ` set available"
proof -
  from assms obtain prj0 w1 prj tries w2 where
    c: "choice available w = Inr (prj0, w1)"
    and rs: "resample (\<lambda>prj. project_id prj \<in> chosen) (choice available) prj0 0 w1
           = Inr ((prj, tries), w2)"
    and r: "perm_user_id r = user_id u" "perm_project_id r = project_id prj"
    unfolding permission_row_def by (elim bindE_InrE) (auto simp: bindE_Inr split: prod.splits)
  from c have "prj0 \<in> set available" by (auto dest: choice_InrD)
  then have "prj \<in> set available \<and> draws_only w1 w2"
    by (rule resample_result [OF rs]) (auto dest: choice_InrD)
  with r show ?thesis by simp
qed

lemma feature_flag_row_spec:
  assumes "feature_flag_row orgs i w = Inr (r, w')"
  shows "set (flag_enabled_for_orgs r) \<subseteq> org_id ` set orgs"
proof -
  from assms obtain ids w1 where
    l: "for_loop orgs
          (\<lambda>org ids. bindE (random_gt 5404319552844595 (2 ^ 53))
                        (\<lambda>b. returnE (if b then ids @ [org_id org] else ids)))
          [] w = Inr (ids, w1)"
    and r: "flag_enabled_for_orgs r = ids"
    unfolding feature_flag_row_def Let_def by (elim bindE_InrE) auto
  have "set ids \<subseteq> org_id ` set orgs"
    by (rule for_loop_inv [where I = "\<lambda>ids w. set ids \<subseteq> org_id ` set orgs", OF l])
      (auto simp: bindE_Inr split: if_splits)
  with r show ?thesis by simp
qed

lemma audit_log_row_spec:
  assumes "audit_log_row orgs users ids_pool w = Inr (r, w')"
  shows "(case log_actor_user_id r of
            None \<Rightarrow> (case log_org_id r of None \<Rightarrow> True | Some oid \<Rightarrow> oid \<in> org_id ` set orgs)
          | Some uid \<Rightarrow> \<exists>u \<in> set users. user_id u = uid \<and> log_org_id r = Some (user_org_id u))
       \<and> (case log_target_id r of None \<Rightarrow> True | Some tid \<Rightarrow> \<exists>ty. (ty, tid) \<in> set ids_pool)"
  using assms unfolding audit_log_row_def
  by (elim bindE_InrE)
    (auto simp: bindE_Inr split: if_splits prod.splits dest!: pick_opt_InrD pick_InrD)

section \<open>Generators: identifiers are fresh, the clock is left alone\<close>

definition fresh_ids :: "string \<Rightarrow> string list \<Rightarrow> world \<Rightarrow> bool" where
  "fresh_ids p ids w \<longleftrightarrow>
     distinct ids \<and> (\<forall>x \<in> set ids. \<exists>n. x = mk_id p n \<and> n \<le> counter_get (factory w) p)"

lemma fresh_ids_Nil [simp]: "fresh_ids p [] w"
  by (simp add: fresh_ids_def)

lemma fresh_ids_step:
  assumes "fresh_ids p ids w"
    and "counter_get (factory w') p = counter_get (factory w) p + 1"
    and "x = mk_id p (counter_get (factory w) p + 1)"
  shows "fresh_ids p (ids @ [x]) w'"
proof -
  have "x \<notin> set ids"
  proof
    assume "x \<in> set ids"
    with assms(1) obtain n where "x = mk_id p n" "n \<le> counter_get (factory w) p"
      by (auto simp: fresh_ids_def)
    with assms(3) mk_id_inj [of p n p "counter_get (factory w) p + 1"] show False by auto
  qed
  with assms show ?thesis
    by (fastforce simp: fresh_ids_def)
qed

text \<open>\<^verbatim>\<open>for x in xs: acc.append(row(x, s))\<close>, where the row also updates a second local \<open>s\<close>.\<close>

lemma rows_inv2:
  assumes "for_loop xs (\<lambda>x (acc, s). bindE (row x s) (\<lambda>(r, s'). returnE (acc @ [r], s')))
             (acc, s) w = Inr ((out, s'), w')"
    and "I acc w"
    and "\<And>x acc s w r s' w'. x \<in> set xs \<Longrightarrow> I acc w \<Longrightarrow> row x s w = Inr ((r, s'), w')
           \<Longrightarrow> I (acc @ [r]) w'"
  shows "I out w'"
proof -
  let ?I = "\<lambda>(l, s) w. I l w"
  have "?I (out, s') w'"
  proof (rule for_loop_inv [where I = ?I, OF assms(1)])
    show "?I (acc, s) w" using assms(2) by simp
  next
    fix x l w l' w'
    assume x: "x \<in> set xs" and i: "?I l w"
      and b: "(case l of (acc, s) \<Rightarrow> bindE (row x s) (\<lambda>(r, s'). returnE (acc @ [r], s'))) w
                = Inr (l', w')"
    obtain a t where l: "l = (a, t)" by (cases l)
    obtain a' t' where l': "l' = (a', t')" by (cases l')
    from b l l' obtain r w1 where "row x t w = Inr ((r, t'), w1)" "a' = a @ [r]" "w' = w1"
      by (auto simp: bindE_Inr)
    with x i l l' show "?I l' w'"
      using assms(3) [of x a w t r t' w1] by simp
  qed
  then show ?thesis by simp
qed

lemma gen_orgs_clock:
  assumes "gen_orgs n w = Inr (orgs, w')"
  shows "clock w' = clock w"
proof -
  from assms obtain names w1 where s: "shuffle ORG_NAMES w = Inr (names, w1)" and
    l: "for_loop (range_py n) (\<lambda>i orgs. bindE (org_row names i) (\<lambda>r. returnE (orgs @ [r]))) [] w1
       = Inr (orgs, w')"
    unfolding gen_orgs_def by (auto simp: bindE_Inr)
  from shuffle_draws_only [OF s] have "clock w1 = clock w" by (simp add: draws_only_def)
  moreover have "clock w' = clock w1"
    by (rule rows_inv [where I = "\<lambda>l v. clock v = clock w1", OF l])
      (auto dest: org_row_spec)
  ultimately show ?thesis by simp
qed

lemma gen_users_ids:
  assumes "gen_users env orgs k w = Inr (users, w')"
  shows "distinct (map user_id users) \<and> clock w' = clock w"
proof -
  from assms obtain name_pool w1 w2 name_idx where
    s: "shuffle FIRST_NAMES w = Inr (name_pool, w1)" and
    loop: "for_loop orgs
              (\<lambda>org. let domain = slugify env (org_name org) @ ''.com'' in
                 for_loop (range_py k)
                   (\<lambda>u (users, name_idx).
                      bindE (user_row env name_pool org domain u name_idx)
                        (\<lambda>(r, name_idx'). returnE (users @ [r], name_idx'))))
              ([], 0) w1 = Inr ((users, name_idx), w2)" and w: "w' = w2"
    unfolding gen_users_def by (auto simp: bindE_Inr)
  from shuffle_draws_only [OF s] have c1: "clock w1 = clock w" by (simp add: draws_only_def)
  let ?J = "\<lambda>(l::user list) v. fresh_ids ''usr'' (map user_id l) v \<and> clock v = clock w1"
  let ?I = "\<lambda>(l, n::nat) v. ?J l v"
  have "?I (users, name_idx) w2"
  proof (rule for_loop_inv [where I = ?I, OF loop])
    show "?I ([], 0) w1" by simp
  next
    fix org l v l' v'
    assume i: "?I l v"
      and b: "(let domain = slugify env (org_name org) @ ''.com'' in
                 for_loop (range_py k)
                   (\<lambda>u (users, name_idx).
                      bindE (user_row env name_pool org domain u name_idx)
                        (\<lambda>(r, name_idx'). returnE (users @ [r], name_idx')))) l v = Inr (l', v')"
    obtain a t where l: "l = (a, t)" by (cases l)
    obtain a' t' where l': "l' = (a', t')" by (cases l')
    have "?J a' v'"
    proof (rule rows_inv2 [where I = ?J, OF b [unfolded Let_def l l']])
      show "?J a v" using i l by simp
    next
      fix u acc s v r s' v'
      assume "?J acc v" "user_row env name_pool org (slugify env (org_name org) @ ''.com'') u s v
          = Inr ((r, s'), v')"
      then show "?J (acc @ [r]) v'"
        by (auto dest!: user_row_spec intro: fresh_ids_step)
    qed
    with l' show "?I l' v'" by simp
  qed
  with c1 w show ?thesis by (simp add: fresh_ids_def)
qed

lemma gen_projects_ids:
  assumes "gen_projects orgs k w = Inr (projects, w')"
  shows "distinct (map project_id projects) \<and> clock w' = clock w
       \<and> (\<forall>p \<in> set projects. project_org_id p \<in> org_id ` set orgs)"
proof -
  let ?I = "\<lambda>(l::project list) v. fresh_ids ''prj'' (map project_id l) v \<and> clock v = clock w
       \<and> (\<forall>p \<in> set l. project_org_id p \<in> org_id ` set orgs)"
  have "?I projects w'"
    by (rule nested_rows_inv [where I = ?I, OF assms [unfolded gen_projects_def]])
      (auto dest!: project_row_spec intro: fresh_ids_step)
  then show ?thesis by (simp add: fresh_ids_def)
qed

definition dashboard_link :: "project list \<Rightarrow> user list \<Rightarrow> dashboard \<Rightarrow> bool" where
  "dashboard_link projects users d \<longleftrightarrow>
     (\<exists>prj \<in> set projects. dashboard_project_id d = project_id prj \<and>
        (case dashboard_owner_user_id d of None \<Rightarrow> True
         | Some uid \<Rightarrow> \<exists>u \<in> set users. user_id u = uid \<and> user_org_id u = project_org_id prj))"

lemma gen_dashboards_ids:
  assumes "gen_dashboards projects users k w = Inr (dashboards, w')"
  shows "distinct (map dashboard_id dashboards) \<and> clock w' = clock w
       \<and> (\<forall>d \<in> set dashboards. dashboard_link projects users d)"
proof -
  let ?I = "\<lambda>(l::dashboard list) v. fresh_ids ''db'' (map dashboard_id l) v \<and> clock v = clock w
       \<and> (\<forall>d \<in> set l. dashboard_link projects users d)"
  have "?I dashboards w'"
  proof (rule nested_rows_inv [where I = ?I, OF assms [unfolded gen_dashboards_def Let_def]])
    show "?I [] w" by simp
  next
    fix prj x acc v r v'
    assume prj: "prj \<in> set projects" and i: "?I acc v"
      and r: "dashboard_row prj (get_list (group_by user_org_id users) (project_org_id prj)) v
                = Inr (r, v')"
    from dashboard_row_spec [OF r] prj have "dashboard_link projects users r"
      by (auto simp: dashboard_link_def get_list_group_by split: option.splits)
    with i dashboard_row_spec [OF r] show "?I (acc @ [r]) v'"
      by (auto intro: fresh_ids_step)
  qed
  then show ?thesis by (simp add: fresh_ids_def)
qed

lemma gen_metrics_ids:
  assumes "gen_metrics projects k w = Inr (metrics, w')"
  shows "distinct (map metric_id metrics) \<and> clock w' = clock w
       \<and> (\<forall>m \<in> set metrics. metric_project_id m \<in> project_id ` set projects)"
proof -
  let ?I = "\<lambda>(l::metric list) v. fresh_ids ''m'' (map metric_id l) v \<and> clock v = clock w
       \<and> (\<forall>m \<in> set l. metric_project_id m \<in> project_id ` set projects)"
  have "?I metrics w'"
  proof (rule for_loop_inv [where I = ?I, OF assms [unfolded gen_metrics_def]])
    show "?I [] w" by simp
  next
    fix prj l v l' v'
    assume prj: "prj \<in> set projects" and i: "?I l v"
      and b: "bindE (for_loop (range_py k)
                   (\<lambda>_ (metrics, used).
                      bindE (metric_row prj used)
                        (\<lambda>(r, used'). returnE (metrics @ [r], used')))
                   (l, {}))
            (\<lambda>(metrics, used). returnE metrics) v = Inr (l', v')"
    then obtain used where
      loop: "for_loop (range_py k)
                   (\<lambda>_ (metrics, used).
                      bindE (metric_row prj used)
                        (\<lambda>(r, used'). returnE (metrics @ [r], used')))
                   (l, {}) v = Inr ((l', used), v')"
      by (auto simp: bindE_Inr)
    show "?I l' v'"
    proof (rule rows_inv2 [where I = ?I, OF loop i])
      fix x acc s v r s' v'
      assume "?I acc v" "metric_row prj s v = Inr ((r, s'), v')"
      with prj show "?I (acc @ [r]) v'"
        by (auto dest!: metric_row_spec intro: fresh_ids_step)
    qed
  qed
  then show ?thesis by (simp add: fresh_ids_def)
qed

section \<open>Generators: every reference points into the parent collection\<close>

lemma gen_users_orgs:
  assumes "gen_users env orgs k w = Inr (users, w')"
  shows "\<forall>u \<in> set users. user_org_id u \<in> org_id ` set orgs"
proof -
  from gen_users_segments [OF assms] obtain segs where
    users: "users = concat segs" and segs: "list_all2 (org_segment k) orgs segs"
    by blast
  show ?thesis
  proof
    fix u assume "u \<in> set users"
    with users obtain seg where seg: "seg \<in> set segs" and u: "u \<in> set seg" by auto
    from seg obtain j where j: "j < length segs" "seg = segs ! j"
      by (auto simp: in_set_conv_nth)
    from segs have len: "length orgs = length segs" by (rule list_all2_lengthD)
    with j have jo: "j < length orgs" by simp
    from list_all2_nthD [OF segs jo] j have s: "org_segment k (orgs ! j) seg" by simp
    from u obtain i where "i < length seg" "u = seg ! i" by (auto simp: in_set_conv_nth)
    with s have "user_org_id u = org_id (orgs ! j)" by (simp add: org_segment_def)
    with jo show "user_org_id u \<in> org_id ` set orgs" by simp
  qed
qed

definition widget_link :: "dashboard list \<Rightarrow> metric list \<Rightarrow> widget \<Rightarrow> bool" where
  "widget_link dashboards metrics x \<longleftrightarrow>
     (\<exists>db \<in> set dashboards. widget_dashboard_id x = dashboard_id db \<and>
        (case widget_metric_id x of None \<Rightarrow> True
         | Some mid \<Rightarrow> \<exists>m \<in> set metrics. metric_id m = mid
                        \<and> metric_project_id m = dashboard_project_id db))"

lemma gen_widgets_links:
  assumes "gen_widgets dashboards metrics k w = Inr (widgets, w')"
  shows "\<forall>x \<in> set widgets. widget_link dashboards metrics x"
proof -
  let ?I = "\<lambda>(l::widget list) (v::world). \<forall>x \<in> set l. widget_link dashboards metrics x"
  have "?I widgets w'"
  proof (rule nested_rows_inv [where I = ?I, OF assms [unfolded gen_widgets_def Let_def]])
    show "?I [] w" by simp
  next
    fix db x acc v r v'
    assume db: "db \<in> set dashboards" and i: "?I acc v"
      and r: "widget_row db (get_list (group_by metric_project_id metrics) (dashboard_project_id db)) v
                = Inr (r, v')"
    from widget_row_spec [OF r] db have "widget_link dashboards metrics r"
      by (auto simp: widget_link_def get_list_group_by split: option.splits)
    with i show "?I (acc @ [r]) v'" by simp
  qed
  then show ?thesis .
qed

definition alert_link :: "project list \<Rightarrow> metric list \<Rightarrow> alert \<Rightarrow> bool" where
  "alert_link projects metrics a \<longleftrightarrow>
     (\<exists>prj \<in> set projects. alert_project_id a = project_id prj \<and>
        (case alert_metric_id a of None \<Rightarrow> True
         | Some mid \<Rightarrow> \<exists>m \<in> set metrics. metric_id m = mid
                        \<and> metric_project_id m = project_id prj))"

lemma gen_alerts_links:
  assumes "gen_alerts projects metrics k w = Inr (alerts, w')"
  shows "\<forall>a \<in> set alerts. alert_link projects metrics a"
proof -
  let ?I = "\<lambda>(l::alert list) (v::world). \<forall>a \<in> set l. alert_link projects metrics a"
  have "?I alerts w'"
  proof (rule nested_rows_inv [where I = ?I, OF assms [unfolded gen_alerts_def Let_def]])
    show "?I [] w" by simp
  next
    fix prj x acc v r v'
    assume prj: "prj \<in> set projects" and i: "?I acc v"
      and r: "alert_row prj (get_list (group_by metric_project_id metrics) (project_id prj)) v
                = Inr (r, v')"
    from alert_row_spec [OF r] prj have "alert_link projects metrics r"
      by (auto simp: alert_link_def get_list_group_by split: option.splits)
    with i show "?I (acc @ [r]) v'" by simp
  qed
  then show ?thesis .
qed

lemma gen_incidents_alerts:
  assumes "gen_incidents alerts k w = Inr (incidents, w')"
  shows "\<forall>x \<in> set incidents. incident_alert_id x \<in> alert_id ` set alerts"
proof -
  let ?I = "\<lambda>(l::incident list) (v::world). \<forall>x \<in> set l. incident_alert_id x \<in> alert_id ` set alerts"
  have "?I incidents w'"
    by (rule nested_rows_inv [where I = ?I, OF assms [unfolded gen_incidents_def]])
      (auto dest!: incident_row_spec)
  then show ?thesis .
qed

lemma gen_eval_suites_projects:
  assumes "gen_eval_suites projects k w = Inr (suites, w')"
  shows "\<forall>x \<in> set suites. suite_project_id x \<in> project_id ` set projects"
proof -
  let ?I = "\<lambda>(l::eval_suite list) (v::world). \<forall>x \<in> set l. suite_project_id x \<in> project_id ` set projects"
  have "?I suites w'"
    by (rule nested_rows_inv [where I = ?I, OF assms [unfolded gen_eval_suites_def]])
      (auto dest!: eval_suite_row_spec)
  then show ?thesis .
qed

lemma gen_eval_runs_suites:
  assumes "gen_eval_runs suites k w = Inr (runs, w')"
  shows "\<forall>x \<in> set runs. run_suite_id x \<in> suite_id ` set suites"
proof -
  let ?I = "\<lambda>(l::eval_run list) (v::world). \<forall>x \<in> set l. run_suite_id x \<in> suite_id ` set suites"
  have "?I runs w'"
    by (rule nested_rows_inv [where I = ?I, OF assms [unfolded gen_eval_runs_def]])
      (auto dest!: eval_run_row_spec)
  then show ?thesis .
qed

lemma gen_feature_flags_orgs:
  assumes "gen_feature_flags orgs k w = Inr (flags, w')"
  shows "\<forall>x \<in> set flags. set (flag_enabled_for_orgs x) \<subseteq> org_id ` set orgs"
proof -
  let ?I = "\<lambda>(l::feature_flag list) (v::world).
              \<forall>x \<in> set l. set (flag_enabled_for_orgs x) \<subseteq> org_id ` set orgs"
  have "?I flags w'"
    by (rule rows_inv [where I = ?I, OF assms [unfolded gen_feature_flags_def]])
      (auto dest!: feature_flag_row_spec)
  then show ?thesis .
qed

definition audit_log_link ::
  "org list \<Rightarrow> user list \<Rightarrow> project list \<Rightarrow> dashboard list \<Rightarrow> widget list \<Rightarrow> alert list
     \<Rightarrow> audit_log \<Rightarrow> bool" where
  "audit_log_link orgs users projects dashboards widgets alerts x \<longleftrightarrow>
     (case log_actor_user_id x of
        None \<Rightarrow> (case log_org_id x of None \<Rightarrow> True | Some oid \<Rightarrow> oid \<in> org_id ` set orgs)
      | Some uid \<Rightarrow> \<exists>u \<in> set users. user_id u = uid \<and> log_org_id x = Some (user_org_id u))
     \<and> (case log_target_id x of None \<Rightarrow> True
         | Some tid \<Rightarrow> tid \<in> project_id ` set projects \<union> dashboard_id ` set dashboards
                          \<union> widget_id ` set widgets \<union> alert_id ` set alerts)"

lemma gen_audit_logs_links:
  assumes "gen_audit_logs orgs users projects dashboards widgets alerts k w = Inr (logs, w')"
  shows "\<forall>x \<in> set logs. audit_log_link orgs users projects dashboards widgets alerts x"
proof -
  let ?I = "\<lambda>(l::audit_log list) (v::world).
              \<forall>x \<in> set l. audit_log_link orgs users projects dashboards widgets alerts x"
  have "?I logs w'"
  proof (rule rows_inv [where I = ?I, OF assms [unfolded gen_audit_logs_def Let_def]])
    show "?I [] w" by simp
  next
    fix x acc v r v'
    assume i: "?I acc v"
      and r: "audit_log_row orgs users
                (map (\<lambda>p. (''project'', project_id p)) projects
                   @ map (\<lambda>d. (''dashboard'', dashboard_id d)) dashboards
                   @ map (\<lambda>w. (''widget'', widget_id w)) widgets
                   @ map (\<lambda>a. (''alert'', alert_id a)) alerts) v = Inr (r, v')"
    from audit_log_row_spec [OF r]
    have "audit_log_link orgs users projects dashboards widgets alerts r"
      unfolding audit_log_link_def by (auto split: option.splits)
    with i show "?I (acc @ [r]) v'" by simp
  qed
  then show ?thesis .
qed

section \<open>Segments of one parent\<close>

lemma filter_concat_none:
  "list_all2 (\<lambda>x seg. \<forall>r \<in> set seg. key r = k x) xs segs \<Longrightarrow> \<forall>x \<in> set xs. k x \<noteq> a
     \<Longrightarrow> filter (\<lambda>r. key r = a) (concat segs) = []"
  by (induction xs segs rule: list_all2_induct) auto

lemma filter_concat_segment:
  "list_all2 (\<lambda>x seg. \<forall>r \<in> set seg. key r = k x) xs segs \<Longrightarrow> distinct (map k xs)
     \<Longrightarrow> j < length xs \<Longrightarrow> filter (\<lambda>r. key r = k (xs ! j)) (concat segs) = segs ! j"
proof (induction xs segs arbitrary: j rule: list_all2_induct)
  case Nil
  then show ?case by simp
next
  case (Cons x xs seg segs)
  show ?case
  proof (cases j)
    case 0
    from Cons.prems(1) have "k x \<notin> k ` set xs" by simp
    then have "\<forall>y \<in> set xs. k y \<noteq> k x" by (metis imageI)
    from filter_concat_none [OF Cons.hyps(2) this] Cons.hyps(1) 0 show ?thesis
      by simp
  next
    case (Suc j')
    with Cons.prems have j': "j' < length xs" and d: "distinct (map k xs)"
      and ne: "k x \<noteq> k (xs ! j')"
      by auto
    from ne Cons.hyps(1) have "filter (\<lambda>r. key r = k (xs ! j')) seg = []"
      by (auto simp: filter_empty_conv)
    with Cons.IH [OF d j'] Suc show ?thesis by simp
  qed
qed

section \<open>Metric samples\<close>

definition sample_segment :: "int \<Rightarrow> int \<Rightarrow> metric \<Rightarrow> metric_sample list \<Rightarrow> bool" where
  "sample_segment today n m seg \<longleftrightarrow>
     map sample_date seg = map (\<lambda>i. today - (n - 1 - i)) (range_py n)
     \<and> (\<forall>s \<in> set seg. sample_metric_id s = metric_id m)"

lemma list_all2_map_eq:
  "list_all2 (\<lambda>x r. f r = g x) xs rows \<Longrightarrow> map f rows = map g xs"
  by (induction xs rows rule: list_all2_induct) auto

lemma gen_metric_samples_segments:
  assumes "gen_metric_samples metrics n w = Inr (samples, w')"
  shows "\<exists>segs. samples = concat segs
           \<and> list_all2 (sample_segment (date_of (clock w 0)) n) metrics segs"
proof -
  let ?today = "date_of (clock w 0)"
  from assms have
    loop: "for_loop metrics
       (\<lambda>m. for_loop (range_py n)
          (\<lambda>i samples. bindE (sample_row m ?today n i)
             (\<lambda>r. returnE (samples @ [r])))) [] (next_tick w) = Inr (samples, w')"
    unfolding gen_metric_samples_def Let_def by (auto simp: bindE_Inr now_utc_eq)
  from nested_rows_loop [OF loop] obtain segs where s: "samples = concat segs"
    and l: "list_all2 (\<lambda>m rows. list_all2
              (\<lambda>i r. \<exists>w1 w2. sample_row m ?today n i w1 = Inr (r, w2)) (range_py n) rows)
            metrics segs"
    by auto
  have "list_all2 (sample_segment ?today n) metrics segs"
  proof (rule list_all2_mono [OF l])
    fix m rows
    assume "list_all2 (\<lambda>i r. \<exists>w1 w2. sample_row m ?today n i w1 = Inr (r, w2)) (range_py n) rows"
    then have a: "list_all2 (\<lambda>i r. sample_date r = ?today - (n - 1 - i)
                   \<and> sample_metric_id r = metric_id m) (range_py n) rows"
      by (rule list_all2_mono) (auto dest: sample_row_spec)
    then have "list_all2 (\<lambda>i r. sample_date r = ?today - (n - 1 - i)) (range_py n) rows"
      by (rule list_all2_mono) simp
    then have "map sample_date rows = map (\<lambda>i. ?today - (n - 1 - i)) (range_py n)"
      by (rule list_all2_map_eq)
    moreover from a have "\<forall>s \<in> set rows. sample_metric_id s = metric_id m"
      by (auto simp: list_all2_conv_all_nth in_set_conv_nth)
    ultimately show "sample_segment ?today n m rows"
      by (simp add: sample_segment_def)
  qed
  with s show ?thesis by blast
qed

lemma gen_metric_samples_of_metric:
  assumes "gen_metric_samples metrics n w = Inr (samples, w')"
    and "distinct (map metric_id metrics)" and "m \<in> set metrics"
  shows "map sample_date (filter (\<lambda>s. sample_metric_id s = metric_id m) samples)
           = map (\<lambda>i. date_of (clock w 0) - (n - 1 - i)) (range_py n)"
proof -
  from gen_metric_samples_segments [OF assms(1)] obtain segs where s: "samples = concat segs"
    and l: "list_all2 (sample_segment (date_of (clock w 0)) n) metrics segs"
    by blast
  from assms(3) obtain j where j: "j < length metrics" "m = metrics ! j"
    by (auto simp: in_set_conv_nth)
  from l have "list_all2 (\<lambda>m seg. \<forall>s \<in> set seg. sample_metric_id s = metric_id m) metrics segs"
    by (rule list_all2_mono) (simp add: sample_segment_def)
  from filter_concat_segment [OF this assms(2) j(1)] s j
  have "filter (\<lambda>s. sample_metric_id s = metric_id m) samples = segs ! j" by simp
  moreover from list_all2_nthD [OF l j(1)]
  have "sample_segment (date_of (clock w 0)) n m (segs ! j)" using j by simp
  ultimately show ?thesis by (simp add: sample_segment_def)
qed

section \<open>Permissions\<close>

definition permission_link :: "project list \<Rightarrow> user \<Rightarrow> permission \<Rightarrow> bool" where
  "permission_link projects u p \<longleftrightarrow>
     perm_user_id p = user_id u \<and>
     (\<exists>prj \<in> set projects. perm_project_id p = project_id prj
        \<and> project_org_id prj = user_org_id u)"

definition permission_segment :: "project list \<Rightarrow> int \<Rightarrow> user \<Rightarrow> permission list \<Rightarrow> bool" where
  "permission_segment projects k u seg \<longleftrightarrow>
     length seg = nat (min k (int (length (filter (\<lambda>p. project_org_id p = user_org_id u) projects))))
     \<and> (\<forall>p \<in> set seg. permission_link projects u p)"

lemma permissions_inner_loop:
  assumes "for_loop (range_py n)
             (\<lambda>_ (perms, chosen).
                bindE (permission_row u available chosen)
                  (\<lambda>(r, chosen'). returnE (perms @ [r], chosen')))
             (perms, chosen) w = Inr ((out, chosen'), w')"
  shows "\<exists>seg. out = perms @ seg \<and> length seg = nat n
           \<and> (\<forall>p \<in> set seg. perm_user_id p = user_id u
                  \<and> perm_project_id p \<in> project_id ` set available)"
proof -
  let ?P = "\<lambda>(i::int) r. perm_user_id r = user_id u
                  \<and> perm_project_id r \<in> project_id ` set available"
  have "\<exists>rowss. out = perms @ concat rowss
          \<and> list_all2 (\<lambda>i rows. \<exists>r. rows = [r] \<and> ?P i r) (range_py n) rowss"
  proof (rule for_loop_concat2 [OF assms])
    fix i acc s w out s' w'
    assume "(case (acc, s) of (perms, chosen) \<Rightarrow>
               bindE (permission_row u available chosen)
                 (\<lambda>(r, chosen'). returnE (perms @ [r], chosen'))) w = Inr ((out, s'), w')"
    then obtain r w1 where "permission_row u available s w = Inr ((r, s'), w1)"
      "out = acc @ [r]"
      by (auto simp: bindE_Inr)
    with permission_row_spec [of u available s w r s' w1]
    have "out = acc @ [r] \<and> (\<exists>r'. [r] = [r'] \<and> ?P i r')" by simp
    then show "\<exists>rows. out = acc @ rows \<and> (\<exists>r. rows = [r] \<and> ?P i r)" by blast
  qed
  then obtain rowss where out: "out = perms @ concat rowss"
    and l: "list_all2 (\<lambda>i rows. \<exists>r. rows = [r] \<and> ?P i r) (range_py n) rowss" by blast
  define seg where "seg = concat rowss"
  from concat_singletons [OF l] have a: "list_all2 ?P (range_py n) seg"
    by (simp add: seg_def)
  then have "length seg = nat n"
    by (auto dest: list_all2_lengthD simp: range_py_def)
  moreover from a have "\<forall>p \<in> set seg. ?P 0 p"
    by (auto simp: list_all2_conv_all_nth in_set_conv_nth)
  ultimately show ?thesis using out seg_def by auto
qed

lemma gen_permissions_segments:
  assumes "gen_permissions projects users k w = Inr (perms, w')"
  shows "\<exists>segs. perms = concat segs \<and> list_all2 (permission_segment projects k) users segs"
proof -
  have "\<exists>segs. perms = [] @ concat segs \<and> list_all2 (permission_segment projects k) users segs"
  proof (rule for_loop_concat [OF assms [unfolded gen_permissions_def Let_def]])
    fix u :: user and acc v out v'
    let ?available = "get_list (group_by project_org_id projects) (user_org_id u)"
    assume "bindE (for_loop (range_py (min k (int (length ?available))))
                    (\<lambda>_ (perms, chosen).
                       bindE (permission_row u ?available chosen)
                         (\<lambda>(r, chosen'). returnE (perms @ [r], chosen')))
                    (acc, {}))
             (\<lambda>(perms, chosen). returnE perms) v = Inr (out, v')"
    then obtain chosen where
      "for_loop (range_py (min k (int (length ?available))))
                    (\<lambda>_ (perms, chosen).
                       bindE (permission_row u ?available chosen)
                         (\<lambda>(r, chosen'). returnE (perms @ [r], chosen')))
                    (acc, {}) v = Inr ((out, chosen), v')"
      by (auto simp: bindE_Inr)
    from permissions_inner_loop [OF this] obtain seg where
      "out = acc @ seg" "length seg = nat (min k (int (length ?available)))"
      "\<forall>p \<in> set seg. perm_user_id p = user_id u \<and> perm_project_id p \<in> project_id ` set ?available"
      by blast
    then have "out = acc @ seg \<and> permission_segment projects k u seg"
      by (auto simp: permission_segment_def permission_link_def get_list_group_by)
    then show "\<exists>rows. out = acc @ rows \<and> permission_segment projects k u rows" by blast
  qed
  then show ?thesis by simp
qed


lemma gen_permissions_links:
  assumes "gen_permissions projects users k w = Inr (perms, w')"
  shows "\<forall>p \<in> set perms. \<exists>u \<in> set users. permission_link projects u p"
proof -
  from gen_permissions_segments [OF assms(1)] obtain segs where s: "perms = concat segs"
    and l: "list_all2 (permission_segment projects k) users segs"
    by blast
  show ?thesis
  proof
    fix p assume "p \<in> set perms"
    with s obtain seg where seg: "seg \<in> set segs" and p: "p \<in> set seg" by auto
    from seg obtain j where j: "j < length segs" "seg = segs ! j"
      by (auto simp: in_set_conv_nth)
    from l have "length users = length segs" by (rule list_all2_lengthD)
    with j have ju: "j < length users" by simp
    from list_all2_nthD [OF l ju] j p have "permission_link projects (users ! j) p"
      by (simp add: permission_segment_def)
    with ju show "\<exists>u \<in> set users. permission_link projects u p" by auto
  qed
qed

section \<open>Referential integrity of the dataset\<close>

text \<open>A reference that may be \<^verbatim>\<open>None\<close>: absent, or the identifier of a record of the collection.\<close>

definition ref_ok :: "string set \<Rightarrow> string option \<Rightarrow> bool" where
  "ref_ok ids r \<longleftrightarrow> (case r of None \<Rightarrow> True | Some i \<Rightarrow> i \<in> ids)"

lemma concat_segments_member:
  "list_all2 R xs segs \<Longrightarrow> r \<in> set (concat segs) \<Longrightarrow> \<exists>x \<in> set xs. \<exists>seg. R x seg \<and> r \<in> set seg"
  by (induction xs segs rule: list_all2_induct) auto

lemma gen_metric_samples_metrics:
  assumes "gen_metric_samples metrics n w = Inr (samples, w')"
  shows "\<forall>s \<in> set samples. sample_metric_id s \<in> metric_id ` set metrics"
proof
  fix s assume s: "s \<in> set samples"
  from gen_metric_samples_segments [OF assms] obtain segs where "samples = concat segs"
    and "list_all2 (sample_segment (date_of (clock w 0)) n) metrics segs"
    by blast
  with s concat_segments_member [of "sample_segment (date_of (clock w 0)) n" metrics segs s]
  show "sample_metric_id s \<in> metric_id ` set metrics"
    by (auto simp: sample_segment_def)
qed

text \<open>
  Claim C3. In every generated dataset every foreign-key field holds the identifier of a
  record of the collection it refers to, or, where the field may be absent, \<^verbatim>\<open>None\<close>; no
  field holds a dangling reference. For audit logs: \<^verbatim>\<open>org_id\<close> and \<^verbatim>\<open>actor_user_id\<close> are
  \<^verbatim>\<open>None\<close> or name an organisation and a user, \<^verbatim>\<open>target_id\<close> is \<^verbatim>\<open>None\<close> or names a project,
  dashboard, widget or alert; for widgets \<^verbatim>\<open>metric_id\<close> is \<^verbatim>\<open>None\<close> or names a metric.
\<close>

theorem referential_integrity:
  assumes "build_mock_data env seed c = Inr d"
  shows "(\<forall>x \<in> set (data_users d). user_org_id x \<in> org_id ` set (data_orgs d))
       \<and> (\<forall>x \<in> set (data_projects d). project_org_id x \<in> org_id ` set (data_orgs d))
       \<and> (\<forall>x \<in> set (data_dashboards d).
             dashboard_project_id x \<in> project_id ` set (data_projects d)
             \<and> ref_ok (user_id ` set (data_users d)) (dashboard_owner_user_id x))
       \<and> (\<forall>x \<in> set (data_metrics d). metric_project_id x \<in> project_id ` set (data_projects d))
       \<and> (\<forall>x \<in> set (data_metric_samples d).
             sample_metric_id x \<in> metric_id ` set (data_metrics d))
       \<and> (\<forall>x \<in> set (data_widgets d).
             widget_dashboard_id x \<in> dashboard_id ` set (data_dashboards d)
             \<and> ref_ok (metric_id ` set (data_metrics d)) (widget_metric_id x))
       \<and> (\<forall>x \<in> set (data_alerts d).
             alert_project_id x \<in> project_id ` set (data_projects d)
             \<and> ref_ok (metric_id ` set (data_metrics d)) (alert_metric_id x))
       \<and> (\<forall>x \<in> set (data_incidents d). incident_alert_id x \<in> alert_id ` set (data_alerts d))
       \<and> (\<forall>x \<in> set (data_eval_suites d).
             suite_project_id x \<in> project_id ` set (data_projects d))
       \<and> (\<forall>x \<in> set (data_eval_runs d). run_suite_id x \<in> suite_id ` set (data_eval_suites d))
       \<and> (\<forall>x \<in> set (data_permissions d).
             perm_user_id x \<in> user_id ` set (data_users d)
             \<and> perm_project_id x \<in> project_id ` set (data_projects d))
       \<and> (\<forall>x \<in> set (data_feature_flags d).
             set (flag_enabled_for_orgs x) \<subseteq> org_id ` set (data_orgs d))
       \<and> (\<forall>x \<in> set (data_audit_logs d).
             ref_ok (org_id ` set (data_orgs d)) (log_org_id x)
             \<and> ref_ok (user_id ` set (data_users d)) (log_actor_user_id x)
             \<and> ref_ok (project_id ` set (data_projects d) \<union> dashboard_id ` set (data_dashboards d)
                       \<union> widget_id ` set (data_widgets d) \<union> alert_id ` set (data_alerts d))
                   (log_target_id x))"
proof -
  from assms obtain w' where "generate env c (init_world env seed) = Inr (d, w')"
    by (auto simp: build_mock_data_Inr)
  then obtain w1 w2 w3 w4 w5 w6 w7 w8 w9 w10 w11 w12 w13 where
    users: "gen_users env (data_orgs d) (c_users_per_org c) w1 = Inr (data_users d, w2)"
    and projects: "gen_projects (data_orgs d) (c_projects_per_org c) w2 = Inr (data_projects d, w3)"
    and dashboards: "gen_dashboards (data_projects d) (data_users d) (c_dashboards_per_project c) w3
       = Inr (data_dashboards d, w4)"
    and metrics: "gen_metrics (data_projects d) (c_metrics_per_project c) w4 = Inr (data_metrics d, w5)"
    and samples: "gen_metric_samples (data_metrics d) (c_samples_per_metric c) w5
       = Inr (data_metric_samples d, w6)"
    and widgets: "gen_widgets (data_dashboards d) (data_metrics d) (c_widgets_per_dashboard c) w6
       = Inr (data_widgets d, w7)"
    and alerts: "gen_alerts (data_projects d) (data_metrics d) (c_alerts_per_project c) w7
       = Inr (data_alerts d, w8)"
    and incidents: "gen_incidents (data_alerts d) (c_incidents_per_alert c) w8
       = Inr (data_incidents d, w9)"
    and suites: "gen_eval_suites (data_projects d) (c_suites_per_project c) w9
       = Inr (data_eval_suites d, w10)"
    and runs: "gen_eval_runs (data_eval_suites d) (c_runs_per_suite c) w10
       = Inr (data_eval_runs d, w11)"
    and perms: "gen_permissions (data_projects d) (data_users d) (c_permissions_per_user c) w11
       = Inr (data_permissions d, w12)"
    and flags: "gen_feature_flags (data_orgs d) (c_feature_flags_count c) w12
       = Inr (data_feature_flags d, w13)"
    and logs: "gen_audit_logs (data_orgs d) (data_users d) (data_projects d) (data_dashboards d)
       (data_widgets d) (data_alerts d) (c_audit_logs_count c) w13
       = Inr (data_audit_logs d, w')"
    by (rule generate_InrE)
  note u = gen_users_orgs [OF users]
  have p: "\<forall>x \<in> set (data_projects d). project_org_id x \<in> org_id ` set (data_orgs d)"
    using gen_projects_ids [OF projects] by simp
  have db: "\<forall>x \<in> set (data_dashboards d).
             dashboard_project_id x \<in> project_id ` set (data_projects d)
             \<and> ref_ok (user_id ` set (data_users d)) (dashboard_owner_user_id x)"
    using gen_dashboards_ids [OF dashboards]
    by (auto simp: dashboard_link_def ref_ok_def split: option.splits)
  have m: "\<forall>x \<in> set (data_metrics d). metric_project_id x \<in> project_id ` set (data_projects d)"
    using gen_metrics_ids [OF metrics] by simp
  note s = gen_metric_samples_metrics [OF samples]
  have w: "\<forall>x \<in> set (data_widgets d).
             widget_dashboard_id x \<in> dashboard_id ` set (data_dashboards d)
             \<and> ref_ok (metric_id ` set (data_metrics d)) (widget_metric_id x)"
    using gen_widgets_links [OF widgets]
    by (auto simp: widget_link_def ref_ok_def split: option.splits)
  have a: "\<forall>x \<in> set (data_alerts d).
             alert_project_id x \<in> project_id ` set (data_projects d)
             \<and> ref_ok (metric_id ` set (data_metrics d)) (alert_metric_id x)"
    using gen_alerts_links [OF alerts]
    by (auto simp: alert_link_def ref_ok_def split: option.splits)
  note i = gen_incidents_alerts [OF incidents]
  note es = gen_eval_suites_projects [OF suites]
  note er = gen_eval_runs_suites [OF runs]
  have pm: "\<forall>x \<in> set (data_permissions d).
             perm_user_id x \<in> user_id ` set (data_users d)
             \<and> perm_project_id x \<in> project_id ` set (data_projects d)"
    using gen_permissions_links [OF perms]
    by (auto simp: permission_link_def)
  note ff = gen_feature_flags_orgs [OF flags]
  have al: "\<forall>x \<in> set (data_audit_logs d).
             ref_ok (org_id ` set (data_orgs d)) (log_org_id x)
             \<and> ref_ok (user_id ` set (data_users d)) (log_actor_user_id x)
             \<and> ref_ok (project_id ` set (data_projects d) \<union> dashboard_id ` set (data_dashboards d)
                       \<union> widget_id ` set (data_widgets d) \<union> alert_id ` set (data_alerts d))
                   (log_target_id x)"
  proof
    fix x assume "x \<in> set (data_audit_logs d)"
    with gen_audit_logs_links [OF logs]
    have l: "audit_log_link (data_orgs d) (data_users d) (data_projects d) (data_dashboards d)
               (data_widgets d) (data_alerts d) x" by blast
    have "ref_ok (org_id ` set (data_orgs d)) (log_org_id x)"
      using l u by (auto simp: audit_log_link_def ref_ok_def split: option.splits)
    moreover have "ref_ok (user_id ` set (data_users d)) (log_actor_user_id x)"
      using l by (auto simp: audit_log_link_def ref_ok_def split: option.splits)
    moreover have "ref_ok (project_id ` set (data_projects d) \<union> dashboard_id ` set (data_dashboards d)
                       \<union> widget_id ` set (data_widgets d) \<union> alert_id ` set (data_alerts d))
                   (log_target_id x)"
      using l by (simp add: audit_log_link_def ref_ok_def split: option.splits)
    ultimately show "ref_ok (org_id ` set (data_orgs d)) (log_org_id x)
             \<and> ref_ok (user_id ` set (data_users d)) (log_actor_user_id x)
             \<and> ref_ok (project_id ` set (data_projects d) \<union> dashboard_id ` set (data_dashboards d)
                       \<union> widget_id ` set (data_widgets d) \<union> alert_id ` set (data_alerts d))
                   (log_target_id x)"
      by blast
  qed
  from u p db m s w a i es er pm ff al show ?thesis
    by (intro conjI)
qed

theorem referential_integrity_witness:
  "build_mock_data example_env 42 example_config = Inr example_data
   \<and> map log_target_id (data_audit_logs example_data) = [Some ''al_2'', Some ''db_2'']
   \<and> list_all (\<lambda>x.
         ref_ok (org_id ` set (data_orgs example_data)) (log_org_id x)
         \<and> ref_ok (user_id ` set (data_users example_data)) (log_actor_user_id x)
         \<and> ref_ok (project_id ` set (data_projects example_data)
                    \<union> dashboard_id ` set (data_dashboards example_data)
                    \<union> widget_id ` set (data_widgets example_data)
                    \<union> alert_id ` set (data_alerts example_data))
               (log_target_id x))
       (data_audit_logs example_data)
   \<and> map widget_metric_id (data_widgets example_data) = [Some ''m_1'', Some ''m_2'']
   \<and> list_all (\<lambda>x.
         widget_dashboard_id x \<in> dashboard_id ` set (data_dashboards example_data)
         \<and> ref_ok (metric_id ` set (data_metrics example_data)) (widget_metric_id x))
       (data_widgets example_data)"
proof -
  note r = referential_integrity [OF example_run]
  from r have "\<forall>x \<in> set (data_audit_logs example_data).
         ref_ok (org_id ` set (data_orgs example_data)) (log_org_id x)
         \<and> ref_ok (user_id ` set (data_users example_data)) (log_actor_user_id x)
         \<and> ref_ok (project_id ` set (data_projects example_data)
                    \<union> dashboard_id ` set (data_dashboards example_data)
                    \<union> widget_id ` set (data_widgets example_data)
                    \<union> alert_id ` set (data_alerts example_data))
               (log_target_id x)"
    by (elim conjE)
  then have a: "list_all (\<lambda>x.
         ref_ok (org_id ` set (data_orgs example_data)) (log_org_id x)
         \<and> ref_ok (user_id ` set (data_users example_data)) (log_actor_user_id x)
         \<and> ref_ok (project_id ` set (data_projects example_data)
                    \<union> dashboard_id ` set (data_dashboards example_data)
                    \<union> widget_id ` set (data_widgets example_data)
                    \<union> alert_id ` set (data_alerts example_data))
               (log_target_id x))
       (data_audit_logs example_data)"
    by (simp only: list_all_iff)
  from r have "\<forall>x \<in> set (data_widgets example_data).
         widget_dashboard_id x \<in> dashboard_id ` set (data_dashboards example_data)
         \<and> ref_ok (metric_id ` set (data_metrics example_data)) (widget_metric_id x)"
    by (elim conjE)
  then have b: "list_all (\<lambda>x.
         widget_dashboard_id x \<in> dashboard_id ` set (data_dashboards example_data)
         \<and> ref_ok (metric_id ` set (data_metrics example_data)) (widget_metric_id x))
       (data_widgets example_data)"
    by (simp only: list_all_iff)
  have c: "map log_target_id (data_audit_logs example_data) = [Some ''al_2'', Some ''db_2'']"
    "map widget_metric_id (data_widgets example_data) = [Some ''m_1'', Some ''m_2'']"
    by (simp_all add: example_data_def)
  from example_run a b c show ?thesis by (intro conjI)
qed

section \<open>Scoped consistency\<close>

lemma distinct_map_eq:
  "distinct (map f xs) \<Longrightarrow> x \<in> set xs \<Longrightarrow> y \<in> set xs \<Longrightarrow> f x = f y \<Longrightarrow> x = y"
  by (auto simp: distinct_map dest: inj_onD)

text \<open>
  Claim C4. In every generated dataset: a widget's \<^verbatim>\<open>metric_id\<close>, when present, names a
  metric whose project is the project of the widget's dashboard; a dashboard's
  \<^verbatim>\<open>owner_user_id\<close>, when present, names a user whose organisation is the organisation of
  the dashboard's project; an alert's \<^verbatim>\<open>metric_id\<close>, when present, names a metric of the
  alert's own project. The referenced record exists, and every record carrying the
  referenced identifier satisfies the equation.
\<close>

theorem scoped_consistency:
  assumes "build_mock_data env seed c = Inr d"
  shows "(\<forall>x \<in> set (data_widgets d). \<forall>mid. widget_metric_id x = Some mid \<longrightarrow>
            (\<exists>m \<in> set (data_metrics d). metric_id m = mid)
            \<and> (\<exists>db \<in> set (data_dashboards d). dashboard_id db = widget_dashboard_id x)
            \<and> (\<forall>m \<in> set (data_metrics d). \<forall>db \<in> set (data_dashboards d).
                  metric_id m = mid \<longrightarrow> dashboard_id db = widget_dashboard_id x
                  \<longrightarrow> metric_project_id m = dashboard_project_id db))
       \<and> (\<forall>x \<in> set (data_dashboards d). \<forall>uid. dashboard_owner_user_id x = Some uid \<longrightarrow>
            (\<exists>u \<in> set (data_users d). user_id u = uid)
            \<and> (\<exists>prj \<in> set (data_projects d). project_id prj = dashboard_project_id x)
            \<and> (\<forall>u \<in> set (data_users d). \<forall>prj \<in> set (data_projects d).
                  user_id u = uid \<longrightarrow> project_id prj = dashboard_project_id x
                  \<longrightarrow> user_org_id u = project_org_id prj))
       \<and> (\<forall>x \<in> set (data_alerts d). \<forall>mid. alert_metric_id x = Some mid \<longrightarrow>
            (\<exists>m \<in> set (data_metrics d). metric_id m = mid)
            \<and> (\<forall>m \<in> set (data_metrics d). metric_id m = mid
                  \<longrightarrow> metric_project_id m = alert_project_id x))"
proof -
  from assms obtain w' where "generate env c (init_world env seed) = Inr (d, w')"
    by (auto simp: build_mock_data_Inr)
  then obtain w1 w2 w3 w4 w5 w6 w7 w8 where
    users: "gen_users env (data_orgs d) (c_users_per_org c) w1 = Inr (data_users d, w2)"
    and projects: "gen_projects (data_orgs d) (c_projects_per_org c) w2 = Inr (data_projects d, w3)"
    and dashboards: "gen_dashboards (data_projects d) (data_users d) (c_dashboards_per_project c) w3
       = Inr (data_dashboards d, w4)"
    and metrics: "gen_metrics (data_projects d) (c_metrics_per_project c) w4 = Inr (data_metrics d, w5)"
    and widgets: "gen_widgets (data_dashboards d) (data_metrics d) (c_widgets_per_dashboard c) w6
       = Inr (data_widgets d, w7)"
    and alerts: "gen_alerts (data_projects d) (data_metrics d) (c_alerts_per_project c) w7
       = Inr (data_alerts d, w8)"
    by (rule generate_InrE)
  from gen_users_ids [OF users] have du: "distinct (map user_id (data_users d))" by simp
  from gen_projects_ids [OF projects] have dp: "distinct (map project_id (data_projects d))" by simp
  from gen_dashboards_ids [OF dashboards] have dd: "distinct (map dashboard_id (data_dashboards d))"
    and ld: "\<forall>x \<in> set (data_dashboards d). dashboard_link (data_projects d) (data_users d) x"
    by simp_all
  from gen_metrics_ids [OF metrics] have dm: "distinct (map metric_id (data_metrics d))" by simp
  note lw = gen_widgets_links [OF widgets]
  note la = gen_alerts_links [OF alerts]
  have a: "\<forall>x \<in> set (data_widgets d). \<forall>mid. widget_metric_id x = Some mid \<longrightarrow>
            (\<exists>m \<in> set (data_metrics d). metric_id m = mid)
            \<and> (\<exists>db \<in> set (data_dashboards d). dashboard_id db = widget_dashboard_id x)
            \<and> (\<forall>m \<in> set (data_metrics d). \<forall>db \<in> set (data_dashboards d).
                  metric_id m = mid \<longrightarrow> dashboard_id db = widget_dashboard_id x
                  \<longrightarrow> metric_project_id m = dashboard_project_id db)"
  proof (intro ballI allI impI)
    fix x mid
    assume x: "x \<in> set (data_widgets d)" and mid: "widget_metric_id x = Some mid"
    with lw obtain db0 m0 where db0: "db0 \<in> set (data_dashboards d)"
      "widget_dashboard_id x = dashboard_id db0"
      and m0: "m0 \<in> set (data_metrics d)" "metric_id m0 = mid"
      "metric_project_id m0 = dashboard_project_id db0"
      by (fastforce simp: widget_link_def)
    have "\<forall>m \<in> set (data_metrics d). \<forall>db \<in> set (data_dashboards d).
                  metric_id m = mid \<longrightarrow> dashboard_id db = widget_dashboard_id x
                  \<longrightarrow> metric_project_id m = dashboard_project_id db"
    proof (intro ballI impI)
      fix m db
      assume "m \<in> set (data_metrics d)" "db \<in> set (data_dashboards d)"
        "metric_id m = mid" "dashboard_id db = widget_dashboard_id x"
      with db0 m0 have "m = m0" "db = db0"
        by (auto intro: distinct_map_eq [OF dm] distinct_map_eq [OF dd])
      with m0 show "metric_project_id m = dashboard_project_id db" by simp
    qed
    with db0 m0 show "(\<exists>m \<in> set (data_metrics d). metric_id m = mid)
            \<and> (\<exists>db \<in> set (data_dashboards d). dashboard_id db = widget_dashboard_id x)
            \<and> (\<forall>m \<in> set (data_metrics d). \<forall>db \<in> set (data_dashboards d).
                  metric_id m = mid \<longrightarrow> dashboard_id db = widget_dashboard_id x
                  \<longrightarrow> metric_project_id m = dashboard_project_id db)"
      by auto
  qed
  have b: "\<forall>x \<in> set (data_dashboards d). \<forall>uid. dashboard_owner_user_id x = Some uid \<longrightarrow>
            (\<exists>u \<in> set (data_users d). user_id u = uid)
            \<and> (\<exists>prj \<in> set (data_projects d). project_id prj = dashboard_project_id x)
            \<and> (\<forall>u \<in> set (data_users d). \<forall>prj \<in> set (data_projects d).
                  user_id u = uid \<longrightarrow> project_id prj = dashboard_project_id x
                  \<longrightarrow> user_org_id u = project_org_id prj)"
  proof (intro ballI allI impI)
    fix x uid
    assume x: "x \<in> set (data_dashboards d)" and uid: "dashboard_owner_user_id x = Some uid"
    with ld obtain prj0 u0 where prj0: "prj0 \<in> set (data_projects d)"
      "dashboard_project_id x = project_id prj0"
      and u0: "u0 \<in> set (data_users d)" "user_id u0 = uid"
      "user_org_id u0 = project_org_id prj0"
      by (fastforce simp: dashboard_link_def)
    have "\<forall>u \<in> set (data_users d). \<forall>prj \<in> set (data_projects d).
                  user_id u = uid \<longrightarrow> project_id prj = dashboard_project_id x
                  \<longrightarrow> user_org_id u = project_org_id prj"
    proof (intro ballI impI)
      fix u prj
      assume "u \<in> set (data_users d)" "prj \<in> set (data_projects d)"
        "user_id u = uid" "project_id prj = dashboard_project_id x"
      with prj0 u0 have "u = u0" "prj = prj0"
        by (auto intro: distinct_map_eq [OF du] distinct_map_eq [OF dp])
      with u0 show "user_org_id u = project_org_id prj" by simp
    qed
    with prj0 u0 show "(\<exists>u \<in> set (data_users d). user_id u = uid)
            \<and> (\<exists>prj \<in> set (data_projects d). project_id prj = dashboard_project_id x)
            \<and> (\<forall>u \<in> set (data_users d). \<forall>prj \<in> set (data_projects d).
                  user_id u = uid \<longrightarrow> project_id prj = dashboard_project_id x
                  \<longrightarrow> user_org_id u = project_org_id prj)"
      by auto
  qed
  have c: "\<forall>x \<in> set (data_alerts d). \<forall>mid. alert_metric_id x = Some mid \<longrightarrow>
            (\<exists>m \<in> set (data_metrics d). metric_id m = mid)
            \<and> (\<forall>m \<in> set (data_metrics d). metric_id m = mid
                  \<longrightarrow> metric_project_id m = alert_project_id x)"
  proof (intro ballI allI impI)
    fix x mid
    assume x: "x \<in> set (data_alerts d)" and mid: "alert_metric_id x = Some mid"
    with la obtain m0 where m0: "m0 \<in> set (data_metrics d)" "metric_id m0 = mid"
      "metric_project_id m0 = alert_project_id x"
      by (fastforce simp: alert_link_def)
    have "\<forall>m \<in> set (data_metrics d). metric_id m = mid
                  \<longrightarrow> metric_project_id m = alert_project_id x"
    proof (intro ballI impI)
      fix m
      assume "m \<in> set (data_metrics d)" "metric_id m = mid"
      with m0 have "m = m0" by (auto intro: distinct_map_eq [OF dm])
      with m0 show "metric_project_id m = alert_project_id x" by simp
    qed
    with m0 show "(\<exists>m \<in> set (data_metrics d). metric_id m = mid)
            \<and> (\<forall>m \<in> set (data_metrics d). metric_id m = mid
                  \<longrightarrow> metric_project_id m = alert_project_id x)"
      by auto
  qed
  from a b c show ?thesis by (intro conjI)
qed

theorem scoped_consistency_witness:
  "build_mock_data example_env 42 example_config = Inr example_data
   \<and> widget_metric_id (data_widgets example_data ! 0) = Some ''m_1''
   \<and> metric_id (data_metrics example_data ! 0) = ''m_1''
   \<and> dashboard_id (data_dashboards example_data ! 0)
       = widget_dashboard_id (data_widgets example_data ! 0)
   \<and> metric_project_id (data_metrics example_data ! 0)
       = dashboard_project_id (data_dashboards example_data ! 0)
   \<and> dashboard_project_id (data_dashboards example_data ! 0) = ''prj_1''"
proof -
  let ?x = "data_widgets example_data ! 0"
  let ?m = "data_metrics example_data ! 0"
  let ?db = "data_dashboards example_data ! 0"
  have x: "?x \<in> set (data_widgets example_data)" and m: "?m \<in> set (data_metrics example_data)"
    and db: "?db \<in> set (data_dashboards example_data)"
    by (simp_all add: example_data_def)
  have e: "widget_metric_id ?x = Some ''m_1''" "metric_id ?m = ''m_1''"
    "dashboard_id ?db = widget_dashboard_id ?x" "dashboard_project_id ?db = ''prj_1''"
    by (simp_all add: example_data_def)
  from scoped_consistency [OF example_run]
  have "\<forall>x \<in> set (data_widgets example_data). \<forall>mid. widget_metric_id x = Some mid \<longrightarrow>
            (\<exists>m \<in> set (data_metrics example_data). metric_id m = mid)
            \<and> (\<exists>db \<in> set (data_dashboards example_data). dashboard_id db = widget_dashboard_id x)
            \<and> (\<forall>m \<in> set (data_metrics example_data). \<forall>db \<in> set (data_dashboards example_data).
                  metric_id m = mid \<longrightarrow> dashboard_id db = widget_dashboard_id x
                  \<longrightarrow> metric_project_id m = dashboard_project_id db)"
    by (elim conjE)
  with x e(1) have "\<forall>m \<in> set (data_metrics example_data). \<forall>db \<in> set (data_dashboards example_data).
                  metric_id m = ''m_1'' \<longrightarrow> dashboard_id db = widget_dashboard_id ?x
                  \<longrightarrow> metric_project_id m = dashboard_project_id db"
    by blast
  with m db e(2,3) have "metric_project_id ?m = dashboard_project_id ?db" by blast
  with example_run e show ?thesis by (intro conjI)
qed

section \<open>Metric samples form a daily sequence that ends today\<close>

text \<open>
  Claim C9. With \<^verbatim>\<open>samples_per_metric \<ge> 1\<close>, the samples of every generated metric, in
  generation order, form a daily sequence without gaps: each date is the day after the
  one before it, and the last date is the date of the clock reading taken by the run
  (its first reading; nothing before \<^verbatim>\<open>gen_metric_samples\<close> reads the clock).
\<close>

theorem metric_samples_contiguous:
  assumes "build_mock_data env seed c = Inr d" and "1 \<le> c_samples_per_metric c"
  shows "\<forall>m \<in> set (data_metrics d).
           (let ds = map sample_date
                       (filter (\<lambda>s. sample_metric_id s = metric_id m) (data_metric_samples d))
            in length ds = nat (c_samples_per_metric c)
               \<and> (\<forall>i. Suc i < length ds \<longrightarrow> ds ! Suc i = ds ! i + 1)
               \<and> last ds = date_of (wall_clock env 0))"
proof
  fix m
  assume m: "m \<in> set (data_metrics d)"
  let ?n = "c_samples_per_metric c"
  let ?today = "date_of (wall_clock env 0)"
  let ?ds = "map sample_date (filter (\<lambda>s. sample_metric_id s = metric_id m) (data_metric_samples d))"
  from assms(1) obtain w' where "generate env c (init_world env seed) = Inr (d, w')"
    by (auto simp: build_mock_data_Inr)
  then obtain w1 w2 w3 w4 w5 w6 where
    orgs: "gen_orgs (c_orgs_count c) (init_world env seed) = Inr (data_orgs d, w1)"
    and users: "gen_users env (data_orgs d) (c_users_per_org c) w1 = Inr (data_users d, w2)"
    and projects: "gen_projects (data_orgs d) (c_projects_per_org c) w2 = Inr (data_projects d, w3)"
    and dashboards: "gen_dashboards (data_projects d) (data_users d) (c_dashboards_per_project c) w3
       = Inr (data_dashboards d, w4)"
    and metrics: "gen_metrics (data_projects d) (c_metrics_per_project c) w4 = Inr (data_metrics d, w5)"
    and samples: "gen_metric_samples (data_metrics d) ?n w5 = Inr (data_metric_samples d, w6)"
    by (rule generate_InrE)
  have "clock w5 = wall_clock env"
    using gen_orgs_clock [OF orgs] gen_users_ids [OF users] gen_projects_ids [OF projects]
      gen_dashboards_ids [OF dashboards] gen_metrics_ids [OF metrics]
    by (simp add: init_world_def)
  moreover from gen_metrics_ids [OF metrics] have "distinct (map metric_id (data_metrics d))"
    by simp
  ultimately have ds: "?ds = map (\<lambda>i. ?today - (?n - 1 - i)) (range_py ?n)"
    using gen_metric_samples_of_metric [OF samples _ m] by simp
  then have len: "length ?ds = nat ?n" by (simp add: range_py_def)
  have nth: "\<And>i. i < nat ?n \<Longrightarrow> ?ds ! i = ?today - (?n - 1 - int i)"
    unfolding ds by (simp add: range_py_def)
  have step: "\<forall>i. Suc i < length ?ds \<longrightarrow> ?ds ! Suc i = ?ds ! i + 1"
  proof (intro allI impI)
    fix i assume "Suc i < length ?ds"
    with len have "Suc i < nat ?n" "i < nat ?n" by simp_all
    then show "?ds ! Suc i = ?ds ! i + 1" by (simp add: nth)
  qed
  from assms(2) len have ne: "?ds \<noteq> []" by auto
  then have "last ?ds = ?ds ! (nat ?n - 1)" using len by (simp add: last_conv_nth)
  also have "\<dots> = ?today - (?n - 1 - int (nat ?n - 1))"
    using assms(2) by (intro nth) simp
  also have "\<dots> = ?today" using assms(2) by simp
  finally have "last ?ds = ?today" .
  with len step show "let ds = ?ds in length ds = nat ?n
               \<and> (\<forall>i. Suc i < length ds \<longrightarrow> ds ! Suc i = ds ! i + 1)
               \<and> last ds = ?today"
    by (simp only: Let_def)
qed

theorem metric_samples_contiguous_witness:
  "build_mock_data example_env 42 example_config = Inr example_data
   \<and> map sample_date (filter (\<lambda>s. sample_metric_id s = ''m_2'') (data_metric_samples example_data))
       = [739582, 739583]
   \<and> date_of (wall_clock example_env 0) = 739583"
proof -
  let ?m = "data_metrics example_data ! 1"
  let ?ds = "map sample_date
               (filter (\<lambda>s. sample_metric_id s = metric_id ?m) (data_metric_samples example_data))"
  have m: "?m \<in> set (data_metrics example_data)" by (simp add: example_data_def)
  have "1 \<le> c_samples_per_metric example_config" by (simp add: example_config_def)
  from metric_samples_contiguous [OF example_run this] m
  have "let ds = ?ds in length ds = nat (c_samples_per_metric example_config)
               \<and> (\<forall>i. Suc i < length ds \<longrightarrow> ds ! Suc i = ds ! i + 1)
               \<and> last ds = date_of (wall_clock example_env 0)"
    by blast
  then have l: "last ?ds = date_of (wall_clock example_env 0)" by (simp only: Let_def)
  have id: "metric_id ?m = ''m_2''" by (simp add: example_data_def)
  have ds: "map sample_date (filter (\<lambda>s. sample_metric_id s = ''m_2'')
              (data_metric_samples example_data)) = [739582, 739583]"
    by (simp add: example_data_def)
  with l id have "date_of (wall_clock example_env 0) = 739583" by simp
  with example_run ds show ?thesis by (intro conjI)
qed

section \<open>Permissions per user\<close>



section \<open>Negative counts\<close>

text \<open>Every count replaced by \<open>max(0, count)\<close>.\<close>

definition clamp_config :: "config \<Rightarrow> config" where
  "clamp_config c =
     \<lparr>c_orgs_count = max 0 (c_orgs_count c),
      c_users_per_org = max 0 (c_users_per_org c),
      c_projects_per_org = max 0 (c_projects_per_org c),
      c_dashboards_per_project = max 0 (c_dashboards_per_project c),
      c_widgets_per_dashboard = max 0 (c_widgets_per_dashboard c),
      c_metrics_per_project = max 0 (c_metrics_per_project c),
      c_samples_per_metric = max 0 (c_samples_per_metric c),
      c_alerts_per_project = max 0 (c_alerts_per_project c),
      c_incidents_per_alert = max 0 (c_incidents_per_alert c),
      c_suites_per_project = max 0 (c_suites_per_project c),
      c_runs_per_suite = max 0 (c_runs_per_suite c),
      c_permissions_per_user = max 0 (c_permissions_per_user c),
      c_feature_flags_count = max 0 (c_feature_flags_count c),
      c_audit_logs_count = max 0 (c_audit_logs_count c)\<rparr>"

definition negative_config :: config where
  "negative_config =
     \<lparr>c_orgs_count = 1, c_users_per_org = - 1, c_projects_per_org = 1,
      c_dashboards_per_project = 0, c_widgets_per_dashboard = 0, c_metrics_per_project = 0,
      c_samples_per_metric = - 5, c_alerts_per_project = 0, c_incidents_per_alert = 0,
      c_suites_per_project = 0, c_runs_per_suite = 0, c_permissions_per_user = 0,
      c_feature_flags_count = 0, c_audit_logs_count = 0\<rparr>"

definition negative_data :: dataset where
  "negative_data =
     \<lparr>data_orgs =
         [\<lparr>org_id = ''org_1'', org_name = ''Acme Inc'', org_plan = ''pro'',
             org_active = True\<rparr>],
         data_users = [],
         data_projects =
           [\<lparr>project_id = ''prj_1'', project_org_id = ''org_1'',
               project_name = ''Docs'', project_visibility = ''private'',
               project_active = True\<rparr>],
         data_permissions = [], data_feature_flags = [], data_dashboards = [],
         data_widgets = [], data_metrics = [], data_metric_samples = [],
         data_alerts = [], data_incidents = [], data_eval_suites = [],
         data_eval_runs = [], data_audit_logs = []\<rparr>"

lemma example_run_negative:
  "build_mock_data example_env 42 negative_config = Inr negative_data"
  by code_simp

lemma range_py_max: "range_py (max 0 n) = range_py n"
  by (simp add: range_py_def max_def)

lemma range_py_min_max: "range_py (min (max 0 k) (int n)) = range_py (min k (int n))"
  by (simp add: range_py_def max_def min_def)

lemma gen_orgs_max: "gen_orgs (max 0 n) = gen_orgs n"
  by (simp add: gen_orgs_def range_py_max)

lemma gen_users_max: "gen_users env orgs (max 0 n) = gen_users env orgs n"
  by (simp add: gen_users_def range_py_max)

lemma gen_projects_max: "gen_projects orgs (max 0 n) = gen_projects orgs n"
  by (simp add: gen_projects_def range_py_max)

lemma gen_dashboards_max: "gen_dashboards projects users (max 0 n) = gen_dashboards projects users n"
  by (simp add: gen_dashboards_def range_py_max)

lemma gen_metrics_max: "gen_metrics projects (max 0 n) = gen_metrics projects n"
  by (simp add: gen_metrics_def range_py_max)

lemma range_py_nonpos: "n \<le> 0 \<Longrightarrow> range_py n = []"
  by (simp add: range_py_def)

lemma for_loop_Nil: "for_loop [] body = returnE"
  by (rule ext) simp

lemma gen_metric_samples_max: "gen_metric_samples metrics (max 0 n) = gen_metric_samples metrics n"
proof (cases "0 \<le> n")
  case True
  then show ?thesis by (simp add: max_def)
next
  case False
  then have "range_py n = []" "range_py (max 0 n) = []" by (simp_all add: range_py_nonpos)
  then show ?thesis by (simp add: gen_metric_samples_def for_loop_Nil)
qed

lemma gen_widgets_max: "gen_widgets dashboards metrics (max 0 n) = gen_widgets dashboards metrics n"
  by (simp add: gen_widgets_def range_py_max)

lemma gen_alerts_max: "gen_alerts projects metrics (max 0 n) = gen_alerts projects metrics n"
  by (simp add: gen_alerts_def range_py_max)

lemma gen_incidents_max: "gen_incidents alerts (max 0 n) = gen_incidents alerts n"
  by (simp add: gen_incidents_def range_py_max)

lemma gen_eval_suites_max: "gen_eval_suites projects (max 0 n) = gen_eval_suites projects n"
  by (simp add: gen_eval_suites_def range_py_max)

lemma gen_eval_runs_max: "gen_eval_runs suites (max 0 n) = gen_eval_runs suites n"
  by (simp add: gen_eval_runs_def range_py_max)

lemma gen_permissions_max: "gen_permissions projects users (max 0 n) = gen_permissions projects users n"
  by (simp add: gen_permissions_def range_py_min_max)

lemma gen_feature_flags_max: "gen_feature_flags orgs (max 0 n) = gen_feature_flags orgs n"
  by (simp add: gen_feature_flags_def range_py_max)

lemma gen_audit_logs_max:
  "gen_audit_logs orgs users projects dashboards widgets alerts (max 0 n)
     = gen_audit_logs orgs users projects dashboards widgets alerts n"
  by (simp add: gen_audit_logs_def range_py_max)

lemmas gen_max = gen_orgs_max gen_users_max gen_projects_max gen_dashboards_max gen_metrics_max
  gen_metric_samples_max gen_widgets_max gen_alerts_max gen_incidents_max gen_eval_suites_max
  gen_eval_runs_max gen_permissions_max gen_feature_flags_max gen_audit_logs_max

lemma generate_clamp: "generate env (clamp_config c) = generate env c"
  by (simp add: generate_def clamp_config_def gen_max)

text \<open>
  Claim C2, as the code has it. A negative count raises nothing and aborts nothing: every
  generator loops over \<^verbatim>\<open>range(count)\<close>, which is empty for a count below one, so the run
  returns (or fails) exactly as it does with every negative count replaced by 0.
\<close>

theorem negative_counts_are_zero:
  "build_mock_data env seed (clamp_config c) = build_mock_data env seed c"
  by (simp add: build_mock_data_def generate_clamp)


theorem negative_counts_are_zero_witness:
  "build_mock_data example_env 42 (clamp_config negative_config) = Inr negative_data
   \<and> c_users_per_org (clamp_config negative_config) = 0
   \<and> c_samples_per_metric (clamp_config negative_config) = 0"
  using negative_counts_are_zero [of example_env 42 negative_config] example_run_negative
  by (simp add: clamp_config_def negative_config_def)

text \<open>
  The claim as stated fails: with \<^verbatim>\<open>users_per_org = -1\<close> and \<^verbatim>\<open>samples_per_metric = -5\<close>
  the run returns a dataset, with one organisation, one project and no user.
\<close>

theorem negative_count_raises_no_error:
  "c_users_per_org negative_config < 0
   \<and> c_samples_per_metric negative_config < 0
   \<and> build_mock_data example_env 42 negative_config = Inr negative_data
   \<and> length (data_orgs negative_data) = 1
   \<and> data_users negative_data = []"
  using example_run_negative
  by (simp add: negative_config_def negative_data_def)

section \<open>Permissions: a duplicate needs eleven colliding choices\<close>

text \<open>
  Eleven consecutive draws, from position \<open>t\<close> of the stream on, each of which makes
  \<^verbatim>\<open>random.choice(available_projects)\<close> return a project whose id is already chosen.
\<close>

definition colliding_window :: "(nat \<Rightarrow> int) \<Rightarrow> project list \<Rightarrow> string set \<Rightarrow> nat \<Rightarrow> bool" where
  "colliding_window draws available chosen t \<longleftrightarrow>
     list_all (\<lambda>i. project_id (available ! nat (draws (t + i) mod int (length available))) \<in> chosen)
       [0..<11]"

lemma colliding_window_iff:
  "colliding_window draws available chosen t \<longleftrightarrow>
     (\<forall>i < 11. project_id (available ! nat (draws (t + i) mod int (length available))) \<in> chosen)"
  by (auto simp: colliding_window_def list_all_iff)

lemma resample_choice_collision_aux:
  "resample C again x tries w = Inr ((y, tries'), w') \<Longrightarrow> again = choice available \<Longrightarrow> C y
     \<Longrightarrow> tries \<le> 10
     \<Longrightarrow> C x \<and> (\<forall>i < 10 - tries. C (available ! nat (rng w i mod int (length available))))"
proof (induction C again x tries w rule: resample.induct)
  case (1 C again x tries w)
  show ?case
  proof (cases "C x \<and> tries < 10")
    case False
    with "1.prems"(1) have "y = x"
      by (simp add: resample.simps [of C again x tries w])
    with False "1.prems"(3,4) show ?thesis by auto
  next
    case True
    with "1.prems"(1) obtain x1 w1 where a: "again w = Inr (x1, w1)"
      and r: "resample C again x1 (tries + 1) w1 = Inr ((y, tries'), w')"
      by (auto simp: resample.simps [of C again x tries w] split: sum.splits)
    from a "1.prems"(2) have x1: "x1 = available ! nat (rng w 0 mod int (length available))"
      and w1: "w1 = next_draw w"
      by (simp_all add: choice_Inr)
    from True have "tries + 1 \<le> 10" by simp
    from "1.IH" [OF True a refl r "1.prems"(2,3) this]
    have c1: "C x1"
      and rest: "\<forall>i < 10 - (tries + 1). C (available ! nat (rng w1 i mod int (length available)))"
      by simp_all
    have "\<forall>i < 10 - tries. C (available ! nat (rng w i mod int (length available)))"
    proof (intro allI impI)
      fix i assume i: "i < 10 - tries"
      show "C (available ! nat (rng w i mod int (length available)))"
      proof (cases i)
        case 0
        with c1 x1 show ?thesis by simp
      next
        case (Suc j)
        with i have "j < 10 - (tries + 1)" by simp
        with rest w1 Suc show ?thesis by simp
      qed
    qed
    with True show ?thesis by simp
  qed
qed

lemma resample_choice_collision:
  "resample C (choice available) x tries w = Inr ((y, tries'), w') \<Longrightarrow> C y \<Longrightarrow> tries \<le> 10
     \<Longrightarrow> C x \<and> (\<forall>i < 10 - tries. C (available ! nat (rng w i mod int (length available))))"
  by (rule resample_choice_collision_aux [OF _ refl])

lemma permission_row_collision:
  assumes "permission_row u available chosen w = Inr ((r, chosen'), w')"
  shows "chosen' = insert (perm_project_id r) chosen
       \<and> (perm_project_id r \<in> chosen \<longrightarrow> colliding_window (rng w) available chosen 0)"
proof -
  from assms obtain prj0 w1 prj tries w2 where
    c: "choice available w = Inr (prj0, w1)"
    and rs: "resample (\<lambda>prj. project_id prj \<in> chosen) (choice available) prj0 0 w1
           = Inr ((prj, tries), w2)"
    and r: "perm_project_id r = project_id prj" "chosen' = insert (project_id prj) chosen"
    unfolding permission_row_def by (elim bindE_InrE) (auto simp: bindE_Inr split: prod.splits)
  from c have prj0: "prj0 = available ! nat (rng w 0 mod int (length available))"
    and w1: "w1 = next_draw w"
    by (simp_all add: choice_Inr)
  have "colliding_window (rng w) available chosen 0" if "project_id prj \<in> chosen"
  proof -
    from resample_choice_collision [OF rs that]
    have p0: "project_id prj0 \<in> chosen"
      and rest: "\<forall>i < 10. project_id (available ! nat (rng w1 i mod int (length available))) \<in> chosen"
      by simp_all
    have "\<forall>i < 11. project_id (available ! nat (rng w (0 + i) mod int (length available))) \<in> chosen"
    proof (intro allI impI)
      fix i :: nat assume i: "i < 11"
      show "project_id (available ! nat (rng w (0 + i) mod int (length available))) \<in> chosen"
      proof (cases i)
        case 0
        with p0 prj0 show ?thesis by simp
      next
        case (Suc j)
        with i have "j < 10" by simp
        with rest w1 Suc show ?thesis by simp
      qed
    qed
    then show ?thesis by (simp only: colliding_window_iff)
  qed
  with r show ?thesis by simp
qed

subsection \<open>The state in which a permission record is built\<close>

text \<open>
  The statements of \<^verbatim>\<open>build_mock_data\<close> before the call of \<^verbatim>\<open>gen_permissions\<close>: the seeding,
  the fresh factory and the eleven generator calls from \<^verbatim>\<open>gen_orgs\<close> to \<^verbatim>\<open>gen_eval_runs\<close>.
  The result is the state they leave behind, in which \<^verbatim>\<open>gen_permissions\<close> starts.
\<close>

definition before_gen_permissions :: "env \<Rightarrow> int \<Rightarrow> config \<Rightarrow> error + world" where
  "before_gen_permissions env seed c =
     (case (bindE (gen_orgs (c_orgs_count c)) (\<lambda>orgs.
            bindE (gen_users env orgs (c_users_per_org c)) (\<lambda>users.
            bindE (gen_projects orgs (c_projects_per_org c)) (\<lambda>projects.
            bindE (gen_dashboards projects users (c_dashboards_per_project c)) (\<lambda>dashboards.
            bindE (gen_metrics projects (c_metrics_per_project c)) (\<lambda>metrics.
            bindE (gen_metric_samples metrics (c_samples_per_metric c)) (\<lambda>metric_samples.
            bindE (gen_widgets dashboards metrics (c_widgets_per_dashboard c)) (\<lambda>widgets.
            bindE (gen_alerts projects metrics (c_alerts_per_project c)) (\<lambda>alerts.
            bindE (gen_incidents alerts (c_incidents_per_alert c)) (\<lambda>incidents.
            bindE (gen_eval_suites projects (c_suites_per_project c)) (\<lambda>eval_suites.
            bindE (gen_eval_runs eval_suites (c_runs_per_suite c)) (\<lambda>eval_runs.
            returnE ())))))))))))) (init_world env seed) of
        Inl e \<Rightarrow> Inl e
      | Inr (u, w) \<Rightarrow> Inr w)"

text \<open>
  The state in which record \<open>i\<close> of user \<open>a\<close> is built, in the run with this seed and
  configuration, which returned \<open>d\<close>: the state the run has reached after the generators
  before \<^verbatim>\<open>gen_permissions\<close>, after \<^verbatim>\<open>gen_permissions\<close> has handled the users before this
  one, and after the first \<open>i\<close> records of this user.
\<close>

definition record_state :: "env \<Rightarrow> int \<Rightarrow> config \<Rightarrow> dataset \<Rightarrow> nat \<Rightarrow> nat \<Rightarrow> error + world" where
  "record_state env seed c d a i =
     (case before_gen_permissions env seed c of
        Inl e \<Rightarrow> Inl e
      | Inr w0 \<Rightarrow>
     (case gen_permissions (data_projects d) (take a (data_users d))
             (c_permissions_per_user c) w0 of
        Inl e \<Rightarrow> Inl e
      | Inr (rows, wa) \<Rightarrow>
     (case gen_permissions (data_projects d) [data_users d ! a] (int i) wa of
        Inl e \<Rightarrow> Inl e
      | Inr (rows', wb) \<Rightarrow> Inr wb)))"

text \<open>
  The permission records of user \<open>a\<close> in the dataset, the projects of the user's
  organisation, and the projects chosen for the user before record \<open>i\<close>.
\<close>

definition user_records :: "dataset \<Rightarrow> nat \<Rightarrow> permission list" where
  "user_records d a = filter (\<lambda>p. perm_user_id p = user_id (data_users d ! a)) (data_permissions d)"

definition user_projects :: "dataset \<Rightarrow> nat \<Rightarrow> project list" where
  "user_projects d a =
     filter (\<lambda>p. project_org_id p = user_org_id (data_users d ! a)) (data_projects d)"

definition chosen_before :: "dataset \<Rightarrow> nat \<Rightarrow> nat \<Rightarrow> string set" where
  "chosen_before d a i = perm_project_id ` set (take i (user_records d a))"

text \<open>
  \<open>record_built env seed c d a i\<close>: record \<open>i\<close> of user \<open>a\<close> is the record that the body of
  the inner loop builds in that state, with the projects chosen so far.
\<close>

definition record_built :: "env \<Rightarrow> int \<Rightarrow> config \<Rightarrow> dataset \<Rightarrow> nat \<Rightarrow> nat \<Rightarrow> bool" where
  "record_built env seed c d a i =
     (case record_state env seed c d a i of
        Inl e \<Rightarrow> False
      | Inr wb \<Rightarrow>
     (case permission_row (data_users d ! a) (user_projects d a) (chosen_before d a i) wb of
        Inl e \<Rightarrow> False
      | Inr ((r, chosen'), wc) \<Rightarrow> r = user_records d a ! i))"

text \<open>
  \<open>budget_exhausted env seed c d a i\<close>: record \<open>i\<close> of user \<open>a\<close> was built with its retry
  budget exhausted. The next eleven draws of the state in which the record is built are the
  draws of the record's first \<^verbatim>\<open>random.choice\<close> and of its ten re-samples: each of them
  selects a project that is already chosen for this user.
\<close>

definition budget_exhausted :: "env \<Rightarrow> int \<Rightarrow> config \<Rightarrow> dataset \<Rightarrow> nat \<Rightarrow> nat \<Rightarrow> bool" where
  "budget_exhausted env seed c d a i =
     (case record_state env seed c d a i of
        Inl e \<Rightarrow> False
      | Inr wb \<Rightarrow> colliding_window (rng wb) (user_projects d a) (chosen_before d a i) 0)"

text \<open>The body of the inner loop and the body of the outer loop of \<^verbatim>\<open>gen_permissions\<close>.\<close>

definition permission_step ::
  "user \<Rightarrow> project list \<Rightarrow> permission list \<times> string set \<Rightarrow> (permission list \<times> string set) run" where
  "permission_step u available =
     (\<lambda>(perms, chosen).
        bindE (permission_row u available chosen)
          (\<lambda>(r, chosen'). returnE (perms @ [r], chosen')))"

definition user_step :: "project list \<Rightarrow> int \<Rightarrow> user \<Rightarrow> permission list \<Rightarrow> permission list run" where
  "user_step projects k u perms =
     (let available = filter (\<lambda>p. project_org_id p = user_org_id u) projects in
      bindE (for_loop (range_py (min k (int (length available))))
               (\<lambda>_. permission_step u available) (perms, {}))
        (\<lambda>(perms, chosen). returnE perms))"

lemma gen_permissions_user_step:
  "gen_permissions projects users k = for_loop users (user_step projects k) []"
  by (simp add: gen_permissions_def Let_def get_list_group_by user_step_def [abs_def]
      permission_step_def [abs_def])

lemma for_loop_append:
  "for_loop (xs @ ys) body acc w = Inr (out, w') \<longleftrightarrow>
     (\<exists>mid w1. for_loop xs body acc w = Inr (mid, w1) \<and> for_loop ys body mid w1 = Inr (out, w'))"
  by (induction xs arbitrary: acc w) (auto simp: bindE_Inr)

lemma permission_step_Inr:
  "permission_step u available (acc, ch) w = Inr ((out, ch'), w') \<longleftrightarrow>
     (\<exists>r. permission_row u available ch w = Inr ((r, ch'), w') \<and> out = acc @ [r])"
  by (auto simp: permission_step_def bindE_Inr)

lemma permission_steps_Nil:
  assumes "for_loop [] (\<lambda>_. permission_step u available) (acc, ch) w = Inr ((out, ch'), w')"
  shows "out = acc \<and> ch' = ch \<and> w' = w"
  using assms by simp

lemma permission_steps_Cons:
  assumes "for_loop (x # xs) (\<lambda>_. permission_step u available) (acc, ch) w = Inr ((out, ch'), w')"
  shows "\<exists>r ch1 w1. permission_row u available ch w = Inr ((r, ch1), w1)
           \<and> for_loop xs (\<lambda>_. permission_step u available) (acc @ [r], ch1) w1
               = Inr ((out, ch'), w')"
proof -
  from assms obtain mid w1 where
    s: "permission_step u available (acc, ch) w = Inr (mid, w1)"
    and l: "for_loop xs (\<lambda>_. permission_step u available) mid w1 = Inr ((out, ch'), w')"
    by (simp add: bindE_Inr) blast
  obtain acc1 ch1 where mid: "mid = (acc1, ch1)" by (cases mid)
  from s [unfolded mid permission_step_Inr] obtain r where
    "permission_row u available ch w = Inr ((r, ch1), w1)" "acc1 = acc @ [r]"
    by blast
  with l mid show ?thesis by blast
qed

lemma for_loop_const_length:
  "length ys = length xs \<Longrightarrow> for_loop ys (\<lambda>_. f) = for_loop xs (\<lambda>_. f)"
proof (induction xs arbitrary: ys)
  case Nil
  then show ?case by simp
next
  case (Cons x xs)
  then obtain y ys' where ys: "ys = y # ys'" "length ys' = length xs"
    by (cases ys) simp_all
  from Cons.IH [OF ys(2)] have "for_loop ys' (\<lambda>_. f) = for_loop xs (\<lambda>_. f)" .
  then show ?case unfolding ys(1) by (rule_tac ext) simp
qed

lemma permission_steps:
  assumes "for_loop xs (\<lambda>_. permission_step u available) (acc, ch) w = Inr ((out, ch'), w')"
  shows "\<exists>rows. out = acc @ rows \<and> length rows = length xs
           \<and> ch' = ch \<union> perm_project_id ` set rows
           \<and> (\<forall>acc2. for_loop xs (\<lambda>_. permission_step u available) (acc2, ch) w
                   = Inr ((acc2 @ rows, ch'), w'))"
  using assms
proof (induction xs arbitrary: acc ch w)
  case Nil
  from permission_steps_Nil [OF Nil] have "out = acc" "ch' = ch" "w' = w" by simp_all
  then have "out = acc @ [] \<and> length ([]::permission list) = length ([]::'a list)
      \<and> ch' = ch \<union> perm_project_id ` set []
      \<and> (\<forall>acc2. for_loop [] (\<lambda>_. permission_step u available) (acc2, ch) w
                   = Inr ((acc2 @ [], ch'), w'))"
    by (simp add: returnE_def)
  then show ?case by (rule exI)
next
  case (Cons x xs)
  from permission_steps_Cons [OF Cons.prems] obtain r ch1 w1 where
    row: "permission_row u available ch w = Inr ((r, ch1), w1)"
    and l: "for_loop xs (\<lambda>_. permission_step u available) (acc @ [r], ch1) w1
               = Inr ((out, ch'), w')"
    by blast
  from permission_row_collision [OF row] have ch1: "ch1 = insert (perm_project_id r) ch"
    by simp
  from Cons.IH [OF l] obtain rows where
    rows: "out = (acc @ [r]) @ rows" "length rows = length xs"
    "ch' = ch1 \<union> perm_project_id ` set rows"
    and again: "\<forall>acc2. for_loop xs (\<lambda>_. permission_step u available) (acc2, ch1) w1
                   = Inr ((acc2 @ rows, ch'), w')"
    by (elim exE conjE)
  have again': "\<forall>acc2. for_loop (x # xs) (\<lambda>_. permission_step u available) (acc2, ch) w
            = Inr ((acc2 @ r # rows, ch'), w')"
  proof
    fix acc2
    from row have "permission_step u available (acc2, ch) w = Inr ((acc2 @ [r], ch1), w1)"
      by (simp add: permission_step_Inr)
    moreover from again have "for_loop xs (\<lambda>_. permission_step u available) (acc2 @ [r], ch1) w1
                   = Inr (((acc2 @ [r]) @ rows, ch'), w')" by (rule spec)
    ultimately show "for_loop (x # xs) (\<lambda>_. permission_step u available) (acc2, ch) w
            = Inr ((acc2 @ r # rows, ch'), w')"
      by (simp add: bindE_def)
  qed
  have "out = acc @ r # rows" using rows(1) by simp
  moreover have "length (r # rows) = length (x # xs)" using rows(2) by simp
  moreover have "ch' = ch \<union> perm_project_id ` set (r # rows)" using rows(3) ch1 by auto
  ultimately have "out = acc @ r # rows \<and> length (r # rows) = length (x # xs)
      \<and> ch' = ch \<union> perm_project_id ` set (r # rows)
      \<and> (\<forall>acc2. for_loop (x # xs) (\<lambda>_. permission_step u available) (acc2, ch) w
            = Inr ((acc2 @ r # rows, ch'), w'))"
    using again' by (intro conjI)
  then show ?case by (rule exI)
qed

lemma for_loop_shift:
  assumes "for_loop xs body acc w = Inr (out, w')"
    and step: "\<And>x acc w out w'. body x acc w = Inr (out, w')
           \<Longrightarrow> \<exists>rows. out = acc @ rows \<and> (\<forall>acc2. body x acc2 w = Inr (acc2 @ rows, w'))"
  shows "\<exists>rows. out = acc @ rows \<and> (\<forall>acc2. for_loop xs body acc2 w = Inr (acc2 @ rows, w'))"
  using assms(1)
proof (induction xs arbitrary: acc w)
  case Nil
  then have "out = acc @ [] \<and> (\<forall>acc2. for_loop [] body acc2 w = Inr (acc2 @ [], w'))"
    by (simp add: returnE_def)
  then show ?case by (rule exI)
next
  case (Cons x xs)
  from Cons.prems obtain mid w1 where b: "body x acc w = Inr (mid, w1)"
    and l: "for_loop xs body mid w1 = Inr (out, w')"
    by (simp add: bindE_Inr) blast
  from step [OF b] obtain rows1 where r1: "mid = acc @ rows1"
    and a1: "\<forall>acc2. body x acc2 w = Inr (acc2 @ rows1, w1)"
    by (elim exE conjE)
  from Cons.IH [OF l] obtain rows2 where r2: "out = mid @ rows2"
    and a2: "\<forall>acc2. for_loop xs body acc2 w1 = Inr (acc2 @ rows2, w')"
    by (elim exE conjE)
  have "\<forall>acc2. for_loop (x # xs) body acc2 w = Inr (acc2 @ rows1 @ rows2, w')"
  proof
    fix acc2
    from a1 have "body x acc2 w = Inr (acc2 @ rows1, w1)" by (rule spec)
    moreover from a2 have "for_loop xs body (acc2 @ rows1) w1 = Inr ((acc2 @ rows1) @ rows2, w')"
      by (rule spec)
    ultimately show "for_loop (x # xs) body acc2 w = Inr (acc2 @ rows1 @ rows2, w')"
      by (simp add: bindE_def)
  qed
  moreover have "out = acc @ rows1 @ rows2" using r1 r2 by simp
  ultimately have "out = acc @ rows1 @ rows2
      \<and> (\<forall>acc2. for_loop (x # xs) body acc2 w = Inr (acc2 @ rows1 @ rows2, w'))"
    by (intro conjI)
  then show ?case by (rule exI)
qed

lemma user_step_Inr:
  "user_step projects k u acc w = Inr (out, w') \<longleftrightarrow>
     (\<exists>ch. for_loop (range_py (min k (int (length
                (filter (\<lambda>p. project_org_id p = user_org_id u) projects)))))
             (\<lambda>_. permission_step u (filter (\<lambda>p. project_org_id p = user_org_id u) projects))
             (acc, {}) w = Inr ((out, ch), w'))"
  by (simp add: user_step_def Let_def bindE_Inr)

lemma user_step_shift:
  assumes "user_step projects k u acc w = Inr (out, w')"
  shows "\<exists>rows. out = acc @ rows \<and> (\<forall>acc2. user_step projects k u acc2 w = Inr (acc2 @ rows, w'))"
proof -
  from assms obtain ch where
    "for_loop (range_py (min k (int (length
                (filter (\<lambda>p. project_org_id p = user_org_id u) projects)))))
             (\<lambda>_. permission_step u (filter (\<lambda>p. project_org_id p = user_org_id u) projects))
             (acc, {}) w = Inr ((out, ch), w')"
    unfolding user_step_Inr by (rule exE)
  from permission_steps [OF this] obtain rows where r: "out = acc @ rows"
    and a: "\<forall>acc2. for_loop (range_py (min k (int (length
                (filter (\<lambda>p. project_org_id p = user_org_id u) projects)))))
             (\<lambda>_. permission_step u (filter (\<lambda>p. project_org_id p = user_org_id u) projects))
             (acc2, {}) w = Inr ((acc2 @ rows, ch), w')"
    by (elim exE conjE)
  have "\<forall>acc2. user_step projects k u acc2 w = Inr (acc2 @ rows, w')"
  proof
    fix acc2
    from a have "for_loop (range_py (min k (int (length
                (filter (\<lambda>p. project_org_id p = user_org_id u) projects)))))
             (\<lambda>_. permission_step u (filter (\<lambda>p. project_org_id p = user_org_id u) projects))
             (acc2, {}) w = Inr ((acc2 @ rows, ch), w')" by (rule spec)
    then show "user_step projects k u acc2 w = Inr (acc2 @ rows, w')"
      unfolding user_step_Inr by (rule exI)
  qed
  with r have "out = acc @ rows \<and> (\<forall>acc2. user_step projects k u acc2 w = Inr (acc2 @ rows, w'))"
    by (intro conjI)
  then show ?thesis by (rule exI)
qed

lemma gen_permissions_append:
  assumes "gen_permissions projects (us1 @ us2) k w = Inr (perms, w')"
  shows "\<exists>rows1 w1 rows2. gen_permissions projects us1 k w = Inr (rows1, w1)
           \<and> gen_permissions projects us2 k w1 = Inr (rows2, w')
           \<and> perms = rows1 @ rows2"
proof -
  from assms obtain mid w1 where
    a: "for_loop us1 (user_step projects k) [] w = Inr (mid, w1)"
    and b: "for_loop us2 (user_step projects k) mid w1 = Inr (perms, w')"
    unfolding gen_permissions_user_step for_loop_append by (elim exE conjE)
  have "\<exists>rows. perms = mid @ rows
          \<and> (\<forall>acc2. for_loop us2 (user_step projects k) acc2 w1 = Inr (acc2 @ rows, w'))"
    by (rule for_loop_shift [OF b]) (rule user_step_shift)
  then obtain rows where r: "perms = mid @ rows"
    and c: "\<forall>acc2. for_loop us2 (user_step projects k) acc2 w1 = Inr (acc2 @ rows, w')"
    by (elim exE conjE)
  from c have "for_loop us2 (user_step projects k) [] w1 = Inr ([] @ rows, w')" by (rule spec)
  then have "gen_permissions projects us2 k w1 = Inr (rows, w')"
    by (simp add: gen_permissions_user_step)
  with a r have "gen_permissions projects us1 k w = Inr (mid, w1)
           \<and> gen_permissions projects us2 k w1 = Inr (rows, w')
           \<and> perms = mid @ rows"
    by (simp add: gen_permissions_user_step)
  then show ?thesis by blast
qed

lemma gen_permissions_single:
  "gen_permissions projects [u] k w = Inr (seg, w') \<longleftrightarrow> user_step projects k u [] w = Inr (seg, w')"
  by (simp add: gen_permissions_user_step bindE_Inr)

lemma gen_permissions_record:
  assumes "gen_permissions projects [u] k w = Inr (seg, w')" and i: "i < length seg"
  shows "\<exists>wb ch wc.
           gen_permissions projects [u] (int i) w = Inr (take i seg, wb)
           \<and> permission_row u (filter (\<lambda>p. project_org_id p = user_org_id u) projects)
                (perm_project_id ` set (take i seg)) wb = Inr ((seg ! i, ch), wc)"
proof -
  let ?av = "filter (\<lambda>p. project_org_id p = user_org_id u) projects"
  let ?xs = "range_py (min k (int (length ?av)))"
  let ?f = "\<lambda>_::int. permission_step u ?av"
  from assms(1) obtain ch_end where
    loop: "for_loop ?xs ?f ([], {}) w = Inr ((seg, ch_end), w')"
    unfolding gen_permissions_single user_step_Inr by (rule exE)
  from permission_steps [OF loop] have len: "length seg = length ?xs" by auto
  with i have ix: "i < length ?xs" by simp
  then have split: "?xs = take i ?xs @ (?xs ! i # drop (Suc i) ?xs)"
    by (simp add: id_take_nth_drop)
  from loop have "for_loop (take i ?xs @ (?xs ! i # drop (Suc i) ?xs)) ?f ([], {}) w
      = Inr ((seg, ch_end), w')"
    using split by simp
  then obtain mid wb where
    a: "for_loop (take i ?xs) ?f ([], {}) w = Inr (mid, wb)"
    and b: "for_loop (?xs ! i # drop (Suc i) ?xs) ?f mid wb = Inr ((seg, ch_end), w')"
    unfolding for_loop_append by (elim exE conjE)
  obtain rows1 ch1 where mid: "mid = (rows1, ch1)" by (cases mid)
  from permission_steps [OF a [unfolded mid]] ix
  have r1: "length rows1 = i" and ch1: "ch1 = perm_project_id ` set rows1"
    by auto
  from permission_steps_Cons [OF b [unfolded mid]] obtain r ch2 wc where
    row: "permission_row u ?av ch1 wb = Inr ((r, ch2), wc)"
    and rest: "for_loop (drop (Suc i) ?xs) ?f (rows1 @ [r], ch2) wc = Inr ((seg, ch_end), w')"
    by blast
  from permission_steps [OF rest] obtain rows3 where seg: "seg = (rows1 @ [r]) @ rows3"
    by blast
  from seg r1 have t: "take i seg = rows1" and n: "seg ! i = r"
    by (simp_all add: nth_append)
  have "int i < min k (int (length ?av))"
    using ix by (simp add: range_py_def) linarith
  then have m: "min (int i) (int (length ?av)) = int i" by simp
  have "length (range_py (int i)) = length (take i ?xs)"
    using ix by (simp add: range_py_def)
  from for_loop_const_length [OF this, of "permission_step u ?av"] a mid
  have "for_loop (range_py (int i)) ?f ([], {}) w = Inr ((rows1, ch1), wb)" by simp
  then have "user_step projects (int i) u [] w = Inr (rows1, wb)"
    unfolding user_step_Inr m by (rule exI)
  then have "gen_permissions projects [u] (int i) w = Inr (take i seg, wb)"
    by (simp only: gen_permissions_single t)
  moreover from row ch1 t n
  have "permission_row u ?av (perm_project_id ` set (take i seg)) wb = Inr ((seg ! i, ch2), wc)"
    by simp
  ultimately show ?thesis by blast
qed

lemma gen_permissions_user_ids:
  assumes "gen_permissions projects users k w = Inr (perms, w')"
  shows "perm_user_id ` set perms \<subseteq> user_id ` set users"
proof
  fix x assume "x \<in> perm_user_id ` set perms"
  then obtain p where p: "p \<in> set perms" "x = perm_user_id p" by blast
  with gen_permissions_links [OF assms] obtain u where "u \<in> set users" "permission_link projects u p"
    by blast
  with p show "x \<in> user_id ` set users" by (auto simp: permission_link_def)
qed

lemma filter_none: "a \<notin> f ` set xs \<Longrightarrow> filter (\<lambda>x. f x = a) xs = []"
  by (induction xs) auto

lemma filter_all: "f ` set xs \<subseteq> {a} \<Longrightarrow> filter (\<lambda>x. f x = a) xs = xs"
  by (induction xs) auto

lemma gen_permissions_at:
  assumes g: "gen_permissions projects users k w = Inr (perms, w')"
    and d: "distinct (map user_id users)" and a: "a < length users"
  shows "\<exists>rows wa wa'.
           gen_permissions projects (take a users) k w = Inr (rows, wa)
           \<and> gen_permissions projects [users ! a] k wa
               = Inr (filter (\<lambda>p. perm_user_id p = user_id (users ! a)) perms, wa')"
proof -
  let ?u = "users ! a"
  from a have split: "users = take a users @ ([?u] @ drop (Suc a) users)"
    by (simp add: id_take_nth_drop)
  from g have "gen_permissions projects (take a users @ ([?u] @ drop (Suc a) users)) k w
      = Inr (perms, w')"
    using split by simp
  from gen_permissions_append [OF this] obtain rows wa rest0 where
    g1: "gen_permissions projects (take a users) k w = Inr (rows, wa)"
    and g2: "gen_permissions projects ([?u] @ drop (Suc a) users) k wa = Inr (rest0, w')"
    and p1: "perms = rows @ rest0"
    by blast
  from gen_permissions_append [OF g2] obtain seg wa' rest where
    g3: "gen_permissions projects [?u] k wa = Inr (seg, wa')"
    and g4: "gen_permissions projects (drop (Suc a) users) k wa' = Inr (rest, w')"
    and p2: "rest0 = seg @ rest"
    by blast
  from d have "distinct (map user_id (take a users @ ([?u] @ drop (Suc a) users)))"
    using split by simp
  then have n1: "user_id ?u \<notin> user_id ` set (take a users)"
    and n2: "user_id ?u \<notin> user_id ` set (drop (Suc a) users)"
    by auto
  from gen_permissions_user_ids [OF g1] n1 have "user_id ?u \<notin> perm_user_id ` set rows" by blast
  then have f1: "filter (\<lambda>p. perm_user_id p = user_id ?u) rows = []" by (rule filter_none)
  from gen_permissions_user_ids [OF g4] n2 have "user_id ?u \<notin> perm_user_id ` set rest" by blast
  then have f3: "filter (\<lambda>p. perm_user_id p = user_id ?u) rest = []" by (rule filter_none)
  from gen_permissions_user_ids [OF g3] have "perm_user_id ` set seg \<subseteq> {user_id ?u}" by simp
  then have f2: "filter (\<lambda>p. perm_user_id p = user_id ?u) seg = seg" by (rule filter_all)
  from p1 p2 f1 f2 f3 have "filter (\<lambda>p. perm_user_id p = user_id ?u) perms = seg" by simp
  with g1 g3 show ?thesis by blast
qed

lemma before_gen_permissions_Inr:
  assumes "build_mock_data env seed c = Inr d"
  shows "\<exists>w0 w1. before_gen_permissions env seed c = Inr w0
           \<and> gen_permissions (data_projects d) (data_users d) (c_permissions_per_user c) w0
               = Inr (data_permissions d, w1)
           \<and> distinct (map user_id (data_users d))"
proof -
  from assms obtain w' where "generate env c (init_world env seed) = Inr (d, w')"
    by (auto simp: build_mock_data_Inr)
  then obtain w1 w2 w3 w4 w5 w6 w7 w8 w9 w10 w11 w12 where
    g: "gen_orgs (c_orgs_count c) (init_world env seed) = Inr (data_orgs d, w1)"
    "gen_users env (data_orgs d) (c_users_per_org c) w1 = Inr (data_users d, w2)"
    "gen_projects (data_orgs d) (c_projects_per_org c) w2 = Inr (data_projects d, w3)"
    "gen_dashboards (data_projects d) (data_users d) (c_dashboards_per_project c) w3
       = Inr (data_dashboards d, w4)"
    "gen_metrics (data_projects d) (c_metrics_per_project c) w4 = Inr (data_metrics d, w5)"
    "gen_metric_samples (data_metrics d) (c_samples_per_metric c) w5
       = Inr (data_metric_samples d, w6)"
    "gen_widgets (data_dashboards d) (data_metrics d) (c_widgets_per_dashboard c) w6
       = Inr (data_widgets d, w7)"
    "gen_alerts (data_projects d) (data_metrics d) (c_alerts_per_project c) w7
       = Inr (data_alerts d, w8)"
    "gen_incidents (data_alerts d) (c_incidents_per_alert c) w8 = Inr (data_incidents d, w9)"
    "gen_eval_suites (data_projects d) (c_suites_per_project c) w9
       = Inr (data_eval_suites d, w10)"
    "gen_eval_runs (data_eval_suites d) (c_runs_per_suite c) w10 = Inr (data_eval_runs d, w11)"
    and perms: "gen_permissions (data_projects d) (data_users d) (c_permissions_per_user c) w11
       = Inr (data_permissions d, w12)"
    by (rule generate_InrE)
  have "before_gen_permissions env seed c = Inr w11"
    by (simp add: before_gen_permissions_def bindE_def g returnE_def)
  moreover from gen_users_ids [OF g(2)] have "distinct (map user_id (data_users d))" by simp
  ultimately show ?thesis using perms by blast
qed

lemma not_distinct_repeat:
  "\<not> distinct xs \<Longrightarrow> \<exists>i < length xs. xs ! i \<in> set (take i xs)"
proof (induction xs rule: rev_induct)
  case Nil
  then show ?case by simp
next
  case (snoc x xs)
  show ?case
  proof (cases "distinct xs")
    case False
    from snoc.IH [OF this] obtain i where "i < length xs" "xs ! i \<in> set (take i xs)" by blast
    then have "i < length (xs @ [x]) \<and> (xs @ [x]) ! i \<in> set (take i (xs @ [x]))"
      by (simp add: nth_append)
    then show ?thesis by blast
  next
    case True
    with snoc.prems have "x \<in> set xs" by simp
    then have "length xs < length (xs @ [x])
        \<and> (xs @ [x]) ! length xs \<in> set (take (length xs) (xs @ [x]))"
      by simp
    then show ?thesis by blast
  qed
qed

text \<open>
  A run that exhausts the retry budget: one user, two projects, two permissions requested,
  and a stream of even draws, so that every \<^verbatim>\<open>random.choice\<close> between the two projects
  returns the first.
\<close>

definition even_env :: env where
  "even_env =
     \<lparr>seed_stream = (\<lambda>seed n. 2 * (seed + int n)),
      wall_clock = (\<lambda>n. 63900000000123456 + 1000 * int n),
      slugify = (\<lambda>s. s), lower = (\<lambda>s. s)\<rparr>"

definition duplicate_config :: config where
  "duplicate_config =
     \<lparr>c_orgs_count = 1, c_users_per_org = 1, c_projects_per_org = 2,
      c_dashboards_per_project = 0, c_widgets_per_dashboard = 0, c_metrics_per_project = 0,
      c_samples_per_metric = 0, c_alerts_per_project = 0, c_incidents_per_alert = 0,
      c_suites_per_project = 0, c_runs_per_suite = 0, c_permissions_per_user = 2,
      c_feature_flags_count = 0, c_audit_logs_count = 0\<rparr>"

definition duplicate_data :: dataset where
  "duplicate_data =
     \<lparr>data_orgs =
         [\<lparr>org_id = ''org_1'', org_name = ''Stark Industries'',
             org_plan = ''enterprise'', org_active = False\<rparr>],
         data_users =
           [\<lparr>user_id = ''usr_1'', user_org_id = ''org_1'',
               user_email = ''Jordan1@Stark Industries.com'',
               user_name = ''Jordan'', user_role = ''admin'',
               user_active = False\<rparr>],
         data_projects =
           [\<lparr>project_id = ''prj_1'', project_org_id = ''org_1'',
               project_name = ''API Gateway'', project_visibility = ''public'',
               project_active = False\<rparr>,
            \<lparr>project_id = ''prj_2'', project_org_id = ''org_1'',
               project_name = ''Observability'', project_visibility = ''public'',
               project_active = False\<rparr>],
         data_permissions =
           [\<lparr>perm_user_id = ''usr_1'', perm_project_id = ''prj_1'',
               perm_scopes =
                 [''dashboard:write'', ''alert:write'', ''metric:write'']\<rparr>,
            \<lparr>perm_user_id = ''usr_1'', perm_project_id = ''prj_1'',
               perm_scopes =
                 [''dashboard:write'', ''viewer'', ''alert:write'']\<rparr>],
         data_feature_flags = [], data_dashboards = [], data_widgets = [],
         data_metrics = [], data_metric_samples = [], data_alerts = [],
         data_incidents = [], data_eval_suites = [], data_eval_runs = [],
         data_audit_logs = []\<rparr>"

lemma example_run_duplicate:
  "build_mock_data even_env 42 duplicate_config = Inr duplicate_data"
  by code_simp

text \<open>
  Claim C7, as the code has it. For every user of a generated dataset, every permission
  record of the user is the record built in the state the run has reached at that point,
  and it repeats the (\<^verbatim>\<open>user_id\<close>, \<^verbatim>\<open>project_id\<close>) pair of an earlier record of the same user
  only when its retry budget was exhausted: only when the record's own first
  \<^verbatim>\<open>random.choice\<close> and all ten re-samples each returned a project already chosen for this
  user. So the records of a user have pairwise different pairs unless one of them exhausted
  its budget.
\<close>

theorem permissions_distinct_unless_exhausted:
  assumes "build_mock_data env seed c = Inr d"
  shows "\<forall>a < length (data_users d).
           (let pairs = map (\<lambda>p. (perm_user_id p, perm_project_id p)) (user_records d a)
            in (\<forall>i < length (user_records d a).
                  record_built env seed c d a i
                  \<and> (pairs ! i \<in> set (take i pairs) \<longrightarrow> budget_exhausted env seed c d a i))
               \<and> (distinct pairs
                    \<or> (\<exists>i < length (user_records d a). budget_exhausted env seed c d a i)))"
proof (intro allI impI)
  fix a assume a: "a < length (data_users d)"
  let ?u = "data_users d ! a"
  let ?seg = "user_records d a"
  let ?pairs = "map (\<lambda>p. (perm_user_id p, perm_project_id p)) ?seg"
  let ?av = "user_projects d a"
  from before_gen_permissions_Inr [OF assms] obtain w0 w1 where
    w0: "before_gen_permissions env seed c = Inr w0"
    and g: "gen_permissions (data_projects d) (data_users d) (c_permissions_per_user c) w0
               = Inr (data_permissions d, w1)"
    and du: "distinct (map user_id (data_users d))"
    by blast
  from gen_permissions_at [OF g du a] obtain rows wa wa' where
    g1: "gen_permissions (data_projects d) (take a (data_users d)) (c_permissions_per_user c) w0
           = Inr (rows, wa)"
    and g2: "gen_permissions (data_projects d) [?u] (c_permissions_per_user c) wa = Inr (?seg, wa')"
    unfolding user_records_def by blast
  have rec: "record_built env seed c d a i
      \<and> (?pairs ! i \<in> set (take i ?pairs) \<longrightarrow> budget_exhausted env seed c d a i)"
    if i: "i < length ?seg" for i
  proof -
    from gen_permissions_record [OF g2 i] obtain wb ch wc where
      g3: "gen_permissions (data_projects d) [?u] (int i) wa = Inr (take i ?seg, wb)"
      and row: "permission_row ?u ?av (chosen_before d a i) wb = Inr ((?seg ! i, ch), wc)"
      unfolding user_projects_def chosen_before_def by blast
    have st: "record_state env seed c d a i = Inr wb"
      by (simp add: record_state_def w0 g1 g3)
    have b: "record_built env seed c d a i"
      by (simp add: record_built_def st row)
    have "budget_exhausted env seed c d a i" if rep: "?pairs ! i \<in> set (take i ?pairs)"
    proof -
      from rep i have "(perm_user_id (?seg ! i), perm_project_id (?seg ! i))
          \<in> (\<lambda>p. (perm_user_id p, perm_project_id p)) ` set (take i ?seg)"
        by (simp add: take_map)
      then have "perm_project_id (?seg ! i) \<in> chosen_before d a i"
        by (auto simp: chosen_before_def)
      with permission_row_collision [OF row]
      have "colliding_window (rng wb) ?av (chosen_before d a i) 0" by simp
      then show ?thesis by (simp add: budget_exhausted_def st)
    qed
    with b show ?thesis by blast
  qed
  have "distinct ?pairs \<or> (\<exists>i < length ?seg. budget_exhausted env seed c d a i)"
  proof (cases "distinct ?pairs")
    case True
    then show ?thesis by (rule disjI1)
  next
    case False
    from not_distinct_repeat [OF this] obtain i where "i < length ?pairs"
      "?pairs ! i \<in> set (take i ?pairs)" by blast
    then have "i < length ?seg \<and> budget_exhausted env seed c d a i"
      using rec [of i] by simp
    then show ?thesis by blast
  qed
  moreover have "\<forall>i < length ?seg. record_built env seed c d a i
      \<and> (?pairs ! i \<in> set (take i ?pairs) \<longrightarrow> budget_exhausted env seed c d a i)"
    using rec by blast
  ultimately show "let pairs = map (\<lambda>p. (perm_user_id p, perm_project_id p)) (user_records d a)
            in (\<forall>i < length (user_records d a).
                  record_built env seed c d a i
                  \<and> (pairs ! i \<in> set (take i pairs) \<longrightarrow> budget_exhausted env seed c d a i))
               \<and> (distinct pairs
                    \<or> (\<exists>i < length (user_records d a). budget_exhausted env seed c d a i))"
    by (simp only: Let_def)
qed

text \<open>
  In the run with even draws the second record of the only user exhausted its budget: its
  eleven draws all select the first project.
\<close>

theorem permissions_distinct_unless_exhausted_witness:
  "build_mock_data even_env 42 duplicate_config = Inr duplicate_data
   \<and> record_built even_env 42 duplicate_config duplicate_data 0 1
   \<and> budget_exhausted even_env 42 duplicate_config duplicate_data 0 1"
proof -
  let ?seg = "user_records duplicate_data 0"
  let ?pairs = "map (\<lambda>p. (perm_user_id p, perm_project_id p)) ?seg"
  have a: "(0::nat) < length (data_users duplicate_data)" by (simp add: duplicate_data_def)
  from permissions_distinct_unless_exhausted [OF example_run_duplicate] a
  have "let pairs = ?pairs
        in (\<forall>i < length ?seg.
              record_built even_env 42 duplicate_config duplicate_data 0 i
              \<and> (pairs ! i \<in> set (take i pairs)
                   \<longrightarrow> budget_exhausted even_env 42 duplicate_config duplicate_data 0 i))
           \<and> (distinct pairs
                \<or> (\<exists>i < length ?seg. budget_exhausted even_env 42 duplicate_config duplicate_data 0 i))"
    by blast
  then have r: "\<forall>i < length ?seg.
              record_built even_env 42 duplicate_config duplicate_data 0 i
              \<and> (?pairs ! i \<in> set (take i ?pairs)
                   \<longrightarrow> budget_exhausted even_env 42 duplicate_config duplicate_data 0 i)"
    unfolding Let_def by (rule conjunct1)
  have "(1::nat) < length ?seg" by (simp add: user_records_def duplicate_data_def)
  moreover have "?pairs ! 1 \<in> set (take 1 ?pairs)"
    by (simp add: user_records_def duplicate_data_def)
  ultimately have "record_built even_env 42 duplicate_config duplicate_data 0 1
      \<and> budget_exhausted even_env 42 duplicate_config duplicate_data 0 1"
    using r by blast
  with example_run_duplicate show ?thesis by simp
qed

text \<open>
  The claim as stated fails: in this run the only user gets two permission records for the
  same project.
\<close>

theorem duplicate_permission_pair:
  "build_mock_data even_env 42 duplicate_config = Inr duplicate_data
   \<and> map (\<lambda>p. (perm_user_id p, perm_project_id p)) (data_permissions duplicate_data)
       = [(''usr_1'', ''prj_1''), (''usr_1'', ''prj_1'')]
   \<and> \<not> distinct (map (\<lambda>p. (perm_user_id p, perm_project_id p))
                   (filter (\<lambda>p. perm_user_id p = ''usr_1'') (data_permissions duplicate_data)))"
  using example_run_duplicate by (simp add: duplicate_data_def)

section \<open>Two runs from the same draws\<close>

text \<open>
  Two worlds that agree on the identifier factory and on the stream of draws; their clocks
  may differ. \<open>sim m1 m2 E\<close>: started in such worlds, the runs \<open>m1\<close> and \<open>m2\<close>, when both
  return, return results related by \<open>E\<close> and leave such worlds behind.
\<close>

definition same_draws :: "world \<Rightarrow> world \<Rightarrow> bool" where
  "same_draws w1 w2 \<longleftrightarrow> factory w1 = factory w2 \<and> rng w1 = rng w2"

definition sim :: "'a run \<Rightarrow> 'b run \<Rightarrow> ('a \<Rightarrow> 'b \<Rightarrow> bool) \<Rightarrow> bool" where
  "sim m1 m2 E \<longleftrightarrow>
     (\<forall>w1 w2 x1 x2 w1' w2'. same_draws w1 w2 \<longrightarrow> m1 w1 = Inr (x1, w1') \<longrightarrow> m2 w2 = Inr (x2, w2')
        \<longrightarrow> E x1 x2 \<and> same_draws w1' w2')"

lemma simD:
  "sim m1 m2 E \<Longrightarrow> same_draws w1 w2 \<Longrightarrow> m1 w1 = Inr (x1, w1') \<Longrightarrow> m2 w2 = Inr (x2, w2')
     \<Longrightarrow> E x1 x2 \<and> same_draws w1' w2'"
  unfolding sim_def by blast

lemma same_draws_next_draw: "same_draws w1 w2 \<Longrightarrow> same_draws (next_draw w1) (next_draw w2)"
  by (simp add: same_draws_def)

lemma same_draws_next_tick: "same_draws w1 w2 \<Longrightarrow> same_draws (next_tick w1) (next_tick w2)"
  by (simp add: same_draws_def)

lemma same_draws_issued: "same_draws w1 w2 \<Longrightarrow> same_draws (issued p w1) (issued p w2)"
  by (simp add: same_draws_def issued_def)

lemma sim_returnE: "E x1 x2 \<Longrightarrow> sim (returnE x1) (returnE x2) E"
  by (simp add: sim_def)

lemma sim_bindE:
  assumes "sim m1 m2 D" and "\<And>x1 x2. D x1 x2 \<Longrightarrow> sim (f1 x1) (f2 x2) E"
  shows "sim (bindE m1 f1) (bindE m2 f2) E"
  unfolding sim_def
proof (intro allI impI)
  fix w1 w2 y1 y2 w1' w2'
  assume s: "same_draws w1 w2" and a: "bindE m1 f1 w1 = Inr (y1, w1')"
    and b: "bindE m2 f2 w2 = Inr (y2, w2')"
  from a obtain x1 v1 where a1: "m1 w1 = Inr (x1, v1)" and a2: "f1 x1 v1 = Inr (y1, w1')"
    by (auto simp: bindE_Inr)
  from b obtain x2 v2 where b1: "m2 w2 = Inr (x2, v2)" and b2: "f2 x2 v2 = Inr (y2, w2')"
    by (auto simp: bindE_Inr)
  from simD [OF assms(1) s a1 b1] have d: "D x1 x2" and s': "same_draws v1 v2" by simp_all
  from simD [OF assms(2) [OF d] s' a2 b2] show "E y1 y2 \<and> same_draws w1' w2'" .
qed

lemma sim_bind_same:
  assumes "sim m m (=)" and "\<And>x. sim (f1 x) (f2 x) E"
  shows "sim (bindE m f1) (bindE m f2) E"
  by (rule sim_bindE [OF assms(1)]) (simp add: assms(2))

lemma sim_bind_any:
  assumes "sim m1 m2 (\<lambda>_ _. True)" and "\<And>x1 x2. sim (f1 x1) (f2 x2) E"
  shows "sim (bindE m1 f1) (bindE m2 f2) E"
  by (rule sim_bindE [OF assms(1)]) (rule assms(2))

lemma sim_if: "(c \<Longrightarrow> sim a1 a2 E) \<Longrightarrow> (\<not> c \<Longrightarrow> sim b1 b2 E)
    \<Longrightarrow> sim (if c then a1 else b1) (if c then a2 else b2) E"
  by simp

lemma sim_case_prod: "(\<And>a b. sim (f1 a b) (f2 a b) E) \<Longrightarrow> sim (case_prod f1 p) (case_prod f2 p) E"
  by (cases p) simp

lemma sim_for_loop:
  assumes "E l1 l2" and "\<And>x l1 l2. E l1 l2 \<Longrightarrow> sim (b1 x l1) (b2 x l2) E"
  shows "sim (for_loop xs b1 l1) (for_loop xs b2 l2) E"
  using assms(1)
proof (induction xs arbitrary: l1 l2)
  case Nil
  then show ?case by (simp add: sim_returnE)
next
  case (Cons x xs)
  show ?case
    unfolding for_loop.simps
    by (rule sim_bindE [OF assms(2) [OF Cons.prems]]) (rule Cons.IH)
qed

subsection \<open>The primitives\<close>

lemma sim_randbelow: "sim (randbelow n) (randbelow n) (=)"
  by (simp add: sim_def randbelow_eq same_draws_def)

lemma sim_choice: "sim (choice xs) (choice xs) (=)"
  by (auto simp: sim_def choice_Inr same_draws_def)

lemma sim_pick: "sim (pick xs) (pick xs) (=)"
  by (simp add: pick_def sim_choice)

lemma sim_pick_opt: "sim (pick_opt xs) (pick_opt xs) (=)"
  unfolding pick_opt_def
  by (intro sim_if sim_bind_same sim_pick sim_returnE) simp_all

lemma sim_random_gt: "sim (random_gt a b) (random_gt a b) (=)"
  by (simp add: sim_def random_gt_eq same_draws_def)

lemma sim_random_lt: "sim (random_lt a b) (random_lt a b) (=)"
  by (simp add: sim_def random_lt_eq same_draws_def)

lemma sim_uniform_int: "sim (uniform_int a b) (uniform_int a b) (=)"
  by (simp add: sim_def uniform_int_eq same_draws_def)

lemma sim_randint: "sim (randint a b) (randint a b) (=)"
  by (auto simp: sim_def randint_Inr same_draws_def)

lemma sim_next_id: "sim (next_id p) (next_id p) (=)"
  by (simp add: sim_def next_id_eq same_draws_def issued_def)

lemma sim_now_utc: "sim now_utc now_utc (\<lambda>_ _. True)"
  by (simp add: sim_def now_utc_eq same_draws_def)

lemma sim_dt_add: "sim (dt_add t1 d1) (dt_add t2 d2) (\<lambda>_ _. True)"
  by (auto simp: sim_def dest!: dt_add_InrD)

lemma sim_dt_sub: "sim (dt_sub t1 d1) (dt_sub t2 d2) (\<lambda>_ _. True)"
  by (auto simp: sim_def dest!: dt_sub_InrD)

lemma sim_date_sub_days: "sim (date_sub_days t1 d1) (date_sub_days t2 d2) (\<lambda>_ _. True)"
  by (auto simp: sim_def dest!: date_sub_days_InrD)

lemma sim_shuffle: "sim (shuffle xs) (shuffle xs) (=)"
  unfolding shuffle_def
  by (intro sim_for_loop sim_bind_same sim_randbelow sim_returnE) simp_all

subsection \<open>Runs that never read the clock\<close>

lemma same_returnE: "sim (returnE x) (returnE x) (=)"
  by (simp add: sim_returnE)

lemma same_raise: "sim (raise e) (raise e) (=)"
  by (simp add: sim_def)

lemma same_bindE: "sim m m (=) \<Longrightarrow> (\<And>x. sim (f x) (f x) (=)) \<Longrightarrow> sim (bindE m f) (bindE m f) (=)"
  by (rule sim_bind_same)

lemma same_if: "sim a a (=) \<Longrightarrow> sim b b (=) \<Longrightarrow> sim (if c then a else b) (if c then a else b) (=)"
  by simp

lemma same_case_prod: "(\<And>a b. sim (f a b) (f a b) (=)) \<Longrightarrow> sim (case_prod f p) (case_prod f p) (=)"
  by (cases p) simp

lemma same_case_prod_app:
  "(\<And>a b. sim (f a b y) (f a b y) (=)) \<Longrightarrow> sim (case_prod f p y) (case_prod f p y) (=)"
  by (cases p) simp

lemma same_for_loop:
  assumes "\<And>x l. sim (body x l) (body x l) (=)"
  shows "sim (for_loop xs body l) (for_loop xs body l) (=)"
  by (rule sim_for_loop) (simp_all add: assms)

lemma resample_same:
  "resample C again x tries w1 = Inr (y1, w1') \<Longrightarrow> resample C again x tries w2 = Inr (y2, w2')
     \<Longrightarrow> same_draws w1 w2 \<Longrightarrow> sim again again (=) \<Longrightarrow> y1 = y2 \<and> same_draws w1' w2'"
proof (induction C again x tries w1 arbitrary: w2 rule: resample.induct)
  case (1 C again x tries w1)
  show ?case
  proof (cases "C x \<and> tries < 10")
    case False
    with "1.prems"(1,2,3) show ?thesis
      by (simp add: resample.simps [of C again x tries])
  next
    case True
    with "1.prems"(1) obtain x1 v1 where a: "again w1 = Inr (x1, v1)"
      and r1: "resample C again x1 (tries + 1) v1 = Inr (y1, w1')"
      by (auto simp: resample.simps [of C again x tries w1] split: sum.splits)
    from True "1.prems"(2) obtain x2 v2 where b: "again w2 = Inr (x2, v2)"
      and r2: "resample C again x2 (tries + 1) v2 = Inr (y2, w2')"
      by (auto simp: resample.simps [of C again x tries w2] split: sum.splits)
    from simD [OF "1.prems"(4,3) a b] have e: "x1 = x2" and s: "same_draws v1 v2" by simp_all
    from "1.IH" [OF True a refl r1 r2 [folded e] s "1.prems"(4)] show ?thesis .
  qed
qed

lemma same_resample: "sim again again (=) \<Longrightarrow> sim (resample C again x tries) (resample C again x tries) (=)"
  unfolding sim_def [of "resample C again x tries"]
  by (blast dest: resample_same)

lemmas same_intros =
  same_returnE same_raise same_bindE same_if same_case_prod same_case_prod_app same_for_loop
  same_resample sim_randbelow sim_choice sim_pick sim_pick_opt sim_random_gt sim_random_lt
  sim_uniform_int sim_randint sim_next_id sim_shuffle

lemma sim_sample: "sim (sample xs k) (sample xs k) (=)"
  unfolding sample_def Let_def by (intro same_intros)

lemma same_gen_orgs: "sim (gen_orgs n) (gen_orgs n) (=)"
  unfolding gen_orgs_def org_row_def Let_def by (intro same_intros)

lemma same_gen_users:
  assumes "slugify env1 = slugify env2" and "lower env1 = lower env2"
  shows "sim (gen_users env1 orgs n) (gen_users env2 orgs n) (=)"
  unfolding gen_users_def user_row_def Let_def assms by (intro same_intros)

lemma same_gen_projects: "sim (gen_projects orgs n) (gen_projects orgs n) (=)"
  unfolding gen_projects_def project_row_def Let_def by (intro same_intros)

lemma same_gen_dashboards: "sim (gen_dashboards projects users n) (gen_dashboards projects users n) (=)"
  unfolding gen_dashboards_def dashboard_row_def Let_def by (intro same_intros)

lemma same_gen_metrics: "sim (gen_metrics projects n) (gen_metrics projects n) (=)"
  unfolding gen_metrics_def metric_row_def Let_def by (intro same_intros)

lemma same_gen_widgets:
  "sim (gen_widgets dashboards metrics n) (gen_widgets dashboards metrics n) (=)"
  unfolding gen_widgets_def widget_row_def Let_def by (intro same_intros)

lemma same_gen_eval_suites: "sim (gen_eval_suites projects n) (gen_eval_suites projects n) (=)"
  unfolding gen_eval_suites_def eval_suite_row_def Let_def by (intro same_intros)

lemma same_gen_permissions:
  "sim (gen_permissions projects users n) (gen_permissions projects users n) (=)"
  unfolding gen_permissions_def permission_row_def Let_def by (intro same_intros sim_sample)

lemma same_gen_feature_flags: "sim (gen_feature_flags orgs n) (gen_feature_flags orgs n) (=)"
  unfolding gen_feature_flags_def feature_flag_row_def Let_def by (intro same_intros)

subsection \<open>Runs that read the clock: equal up to the values computed from it\<close>

text \<open>The records with their clock-derived fields blanked.\<close>

definition erase_sample :: "metric_sample \<Rightarrow> metric_sample" where
  "erase_sample s = s\<lparr>sample_date := 0\<rparr>"

definition erase_alert :: "alert \<Rightarrow> alert" where
  "erase_alert a = a\<lparr>alert_last_fired_at := map_option (\<lambda>_. 0) (alert_last_fired_at a)\<rparr>"

definition erase_incident :: "incident \<Rightarrow> incident" where
  "erase_incident i =
     i\<lparr>incident_opened_at := 0,
       incident_resolved_at := map_option (\<lambda>_. 0) (incident_resolved_at i)\<rparr>"

definition erase_run :: "eval_run \<Rightarrow> eval_run" where
  "erase_run r = r\<lparr>run_created_at := 0\<rparr>"

definition erase_log :: "audit_log \<Rightarrow> audit_log" where
  "erase_log l = l\<lparr>log_at := 0\<rparr>"

definition erase_times :: "dataset \<Rightarrow> dataset" where
  "erase_times d =
     d\<lparr>data_metric_samples := map erase_sample (data_metric_samples d),
       data_alerts := map erase_alert (data_alerts d),
       data_incidents := map erase_incident (data_incidents d),
       data_eval_runs := map erase_run (data_eval_runs d),
       data_audit_logs := map erase_log (data_audit_logs d)\<rparr>"

lemmas clock_intros =
  sim_bind_any [OF sim_now_utc] sim_bind_any [OF sim_dt_sub] sim_bind_any [OF sim_dt_add]
  sim_bind_any [OF sim_date_sub_days]
  sim_bind_same [OF sim_pick_opt] sim_bind_same [OF sim_pick] sim_bind_same [OF sim_randint]
  sim_bind_same [OF sim_uniform_int] sim_bind_same [OF sim_random_gt]
  sim_bind_same [OF sim_random_lt] sim_bind_same [OF sim_next_id]
  sim_returnE

lemma sim_nested_rows:
  assumes "\<And>p x. sim (row1 p x) (row2 p x) (\<lambda>a b. er a = er b)"
  shows "sim (for_loop ps (\<lambda>p. for_loop (xs p) (\<lambda>x acc. bindE (row1 p x) (\<lambda>r. returnE (acc @ [r])))) [])
             (for_loop ps (\<lambda>p. for_loop (xs p) (\<lambda>x acc. bindE (row2 p x) (\<lambda>r. returnE (acc @ [r])))) [])
             (\<lambda>l1 l2. map er l1 = map er l2)"
proof (rule sim_for_loop)
  show "map er [] = map er []" by simp
next
  fix p l1 l2
  assume e: "map er l1 = map er l2"
  show "sim (for_loop (xs p) (\<lambda>x acc. bindE (row1 p x) (\<lambda>r. returnE (acc @ [r]))) l1)
            (for_loop (xs p) (\<lambda>x acc. bindE (row2 p x) (\<lambda>r. returnE (acc @ [r]))) l2)
            (\<lambda>l1 l2. map er l1 = map er l2)"
  proof (rule sim_for_loop)
    show "map er l1 = map er l2" by (rule e)
  next
    fix x l1 l2
    assume "map er l1 = map er l2"
    then show "sim (bindE (row1 p x) (\<lambda>r. returnE (l1 @ [r])))
                   (bindE (row2 p x) (\<lambda>r. returnE (l2 @ [r])))
                   (\<lambda>l1 l2. map er l1 = map er l2)"
      by (intro sim_bindE [OF assms] sim_returnE) simp
  qed
qed

lemma sim_rows:
  assumes "\<And>x. sim (row1 x) (row2 x) (\<lambda>a b. er a = er b)"
  shows "sim (for_loop xs (\<lambda>x acc. bindE (row1 x) (\<lambda>r. returnE (acc @ [r]))) [])
             (for_loop xs (\<lambda>x acc. bindE (row2 x) (\<lambda>r. returnE (acc @ [r]))) [])
             (\<lambda>l1 l2. map er l1 = map er l2)"
proof (rule sim_for_loop)
  show "map er [] = map er []" by simp
next
  fix x l1 l2
  assume "map er l1 = map er l2"
  then show "sim (bindE (row1 x) (\<lambda>r. returnE (l1 @ [r])))
                 (bindE (row2 x) (\<lambda>r. returnE (l2 @ [r])))
                 (\<lambda>l1 l2. map er l1 = map er l2)"
    by (intro sim_bindE [OF assms] sim_returnE) simp
qed

lemma sim_sample_row:
  "sim (sample_row m b1 n i) (sample_row m b2 n i) (\<lambda>a b. erase_sample a = erase_sample b)"
  unfolding sample_row_def by (intro clock_intros) (simp add: erase_sample_def)

lemma sim_gen_metric_samples:
  "sim (gen_metric_samples metrics n) (gen_metric_samples metrics n)
     (\<lambda>l1 l2. map erase_sample l1 = map erase_sample l2)"
  unfolding gen_metric_samples_def Let_def
  by (intro sim_bind_any [OF sim_now_utc] sim_nested_rows sim_sample_row)

lemma sim_alert_row:
  "sim (alert_row prj ms) (alert_row prj ms) (\<lambda>a b. erase_alert a = erase_alert b)"
  unfolding alert_row_def by (intro clock_intros) (simp add: erase_alert_def)

lemma sim_gen_alerts:
  "sim (gen_alerts projects metrics n) (gen_alerts projects metrics n)
     (\<lambda>l1 l2. map erase_alert l1 = map erase_alert l2)"
  unfolding gen_alerts_def Let_def by (intro sim_nested_rows sim_alert_row)

lemma sim_incident_row:
  "sim (incident_row al) (incident_row al) (\<lambda>a b. erase_incident a = erase_incident b)"
  unfolding incident_row_def
proof (intro clock_intros)
  fix now1 now2 :: int and days minutes opened1 opened2 :: int and r :: bool
  let ?m = "\<lambda>opened. if r then bindE (randint 5 180) (\<lambda>minutes'.
                      bindE (dt_add opened (timedelta 0 minutes')) (\<lambda>resolved.
                      returnE (Some resolved, ''resolved'')))
            else returnE (None :: int option, ''open'')"
  let ?k = "\<lambda>opened (resolved, status).
     bindE (next_id ''inc'') (\<lambda>iid.
     returnE \<lparr>incident_id = iid, incident_alert_id = alert_id al, incident_status = status,
              incident_opened_at = iso opened,
              incident_resolved_at = map_option iso resolved\<rparr>)"
  let ?D = "\<lambda>(a :: int option \<times> string) (b :: int option \<times> string).
              snd a = snd b \<and> (fst a = None \<longleftrightarrow> fst b = None)"
  have m: "sim (?m opened1) (?m opened2) ?D"
    by (intro sim_if clock_intros) simp_all
  show "sim (bindE (?m opened1) (?k opened1)) (bindE (?m opened2) (?k opened2))
          (\<lambda>a b. erase_incident a = erase_incident b)"
  proof (rule sim_bindE [OF m])
    fix x1 x2 :: "int option \<times> string"
    assume "?D x1 x2"
    then show "sim (?k opened1 x1) (?k opened2 x2) (\<lambda>a b. erase_incident a = erase_incident b)"
      by (cases x1; cases x2) (auto intro!: clock_intros simp: erase_incident_def)
  qed
qed

lemma sim_gen_incidents:
  "sim (gen_incidents alerts n) (gen_incidents alerts n)
     (\<lambda>l1 l2. map erase_incident l1 = map erase_incident l2)"
  unfolding gen_incidents_def by (intro sim_nested_rows sim_incident_row)

lemma sim_eval_run_row:
  "sim (eval_run_row s) (eval_run_row s) (\<lambda>a b. erase_run a = erase_run b)"
  unfolding eval_run_row_def by (intro clock_intros) (simp add: erase_run_def)

lemma sim_gen_eval_runs:
  "sim (gen_eval_runs suites n) (gen_eval_runs suites n)
     (\<lambda>l1 l2. map erase_run l1 = map erase_run l2)"
  unfolding gen_eval_runs_def by (intro sim_nested_rows sim_eval_run_row)

lemma sim_audit_log_row:
  "sim (audit_log_row orgs users pool) (audit_log_row orgs users pool)
     (\<lambda>a b. erase_log a = erase_log b)"
  unfolding audit_log_row_def
  by (intro clock_intros sim_bind_same sim_case_prod same_intros) (simp add: erase_log_def)

lemma sim_gen_audit_logs:
  "sim (gen_audit_logs orgs users projects dashboards widgets alerts n)
       (gen_audit_logs orgs users projects dashboards widgets alerts n)
     (\<lambda>l1 l2. map erase_log l1 = map erase_log l2)"
  unfolding gen_audit_logs_def Let_def by (intro sim_rows sim_audit_log_row)

subsection \<open>The alerts are read for their identifiers only\<close>

lemma for_loop_cong_key:
  assumes "map key xs = map key ys" and "\<And>x y. key x = key y \<Longrightarrow> body x = body y"
  shows "for_loop xs body = for_loop ys body"
  using assms(1)
proof (induction xs arbitrary: ys)
  case Nil
  then show ?case by simp
next
  case (Cons x xs)
  then obtain y ys' where ys: "ys = y # ys'" "key x = key y" "map key xs = map key ys'"
    by (cases ys) auto
  have e1: "for_loop xs body = for_loop ys' body" by (rule Cons.IH [OF ys(3)])
  have e2: "body x = body y" by (rule assms(2) [OF ys(2)])
  show ?case unfolding ys(1) by (rule ext, rule ext) (simp add: e1 e2)
qed

lemma gen_incidents_cong:
  assumes "map alert_id alerts1 = map alert_id alerts2"
  shows "gen_incidents alerts1 n = gen_incidents alerts2 n"
  unfolding gen_incidents_def
  by (rule ext, rule arg_cong [where f = "\<lambda>f. f [] _"], rule for_loop_cong_key [OF assms])
    (simp add: incident_row_def)

lemma gen_audit_logs_cong:
  assumes "map alert_id alerts1 = map alert_id alerts2"
  shows "gen_audit_logs orgs users projects dashboards widgets alerts1 n
       = gen_audit_logs orgs users projects dashboards widgets alerts2 n"
proof -
  have h: "\<And>xs. map (\<lambda>a. (''alert'', alert_id a)) xs = map (Pair ''alert'') (map alert_id xs)"
    by (simp add: o_def)
  have "map (\<lambda>a. (''alert'', alert_id a)) alerts1 = map (\<lambda>a. (''alert'', alert_id a)) alerts2"
    by (simp only: h assms)
  then show ?thesis by (simp add: gen_audit_logs_def)
qed

lemma erase_alert_ids: "map erase_alert l1 = map erase_alert l2 \<Longrightarrow> map alert_id l1 = map alert_id l2"
proof -
  assume e: "map erase_alert l1 = map erase_alert l2"
  have "\<And>l. map alert_id l = map alert_id (map erase_alert l)"
    by (simp add: erase_alert_def)
  with e show ?thesis by metis
qed

text \<open>
  Claim C1, as the code has it. The pseudo-random source is seeded once and the identifier
  factory starts empty, but every time field is computed from \<^verbatim>\<open>datetime.now\<close> at the moment
  the row is built. Two invocations with the same seed and the same configuration, started
  under different clocks, that both return, return datasets that agree on every collection,
  every record and every field except the values computed from the clock: the \<^verbatim>\<open>date\<close> of a
  metric sample, \<^verbatim>\<open>last_fired_at\<close> of an alert where it is set, \<^verbatim>\<open>opened_at\<close> of an incident and
  its \<^verbatim>\<open>resolved_at\<close> where it is set, \<^verbatim>\<open>created_at\<close> of an evaluation run and \<^verbatim>\<open>at\<close> of an
  audit log entry. Which of the optional time fields are set is the same in both.
\<close>

theorem deterministic_up_to_clock:
  assumes "build_mock_data env seed c = Inr d1"
    and "build_mock_data (env\<lparr>wall_clock := k\<rparr>) seed c = Inr d2"
  shows "erase_times d1 = erase_times d2"
proof -
  let ?env2 = "env\<lparr>wall_clock := k\<rparr>"
  from assms(1) obtain w' where "generate env c (init_world env seed) = Inr (d1, w')"
    by (auto simp: build_mock_data_Inr)
  then obtain w1 w2 w3 w4 w5 w6 w7 w8 w9 w10 w11 w12 w13 where
    a1: "gen_orgs (c_orgs_count c) (init_world env seed) = Inr (data_orgs d1, w1)"
    and a2: "gen_users env (data_orgs d1) (c_users_per_org c) w1 = Inr (data_users d1, w2)"
    and a3: "gen_projects (data_orgs d1) (c_projects_per_org c) w2 = Inr (data_projects d1, w3)"
    and a4: "gen_dashboards (data_projects d1) (data_users d1) (c_dashboards_per_project c) w3
       = Inr (data_dashboards d1, w4)"
    and a5: "gen_metrics (data_projects d1) (c_metrics_per_project c) w4 = Inr (data_metrics d1, w5)"
    and a6: "gen_metric_samples (data_metrics d1) (c_samples_per_metric c) w5
       = Inr (data_metric_samples d1, w6)"
    and a7: "gen_widgets (data_dashboards d1) (data_metrics d1) (c_widgets_per_dashboard c) w6
       = Inr (data_widgets d1, w7)"
    and a8: "gen_alerts (data_projects d1) (data_metrics d1) (c_alerts_per_project c) w7
       = Inr (data_alerts d1, w8)"
    and a9: "gen_incidents (data_alerts d1) (c_incidents_per_alert c) w8 = Inr (data_incidents d1, w9)"
    and a10: "gen_eval_suites (data_projects d1) (c_suites_per_project c) w9
       = Inr (data_eval_suites d1, w10)"
    and a11: "gen_eval_runs (data_eval_suites d1) (c_runs_per_suite c) w10 = Inr (data_eval_runs d1, w11)"
    and a12: "gen_permissions (data_projects d1) (data_users d1) (c_permissions_per_user c) w11
       = Inr (data_permissions d1, w12)"
    and a13: "gen_feature_flags (data_orgs d1) (c_feature_flags_count c) w12
       = Inr (data_feature_flags d1, w13)"
    and a14: "gen_audit_logs (data_orgs d1) (data_users d1) (data_projects d1) (data_dashboards d1)
       (data_widgets d1) (data_alerts d1) (c_audit_logs_count c) w13
       = Inr (data_audit_logs d1, w')"
    by (rule generate_InrE)
  from assms(2) obtain v' where "generate ?env2 c (init_world ?env2 seed) = Inr (d2, v')"
    by (auto simp: build_mock_data_Inr)
  then obtain v1 v2 v3 v4 v5 v6 v7 v8 v9 v10 v11 v12 v13 where
    b1: "gen_orgs (c_orgs_count c) (init_world ?env2 seed) = Inr (data_orgs d2, v1)"
    and b2: "gen_users ?env2 (data_orgs d2) (c_users_per_org c) v1 = Inr (data_users d2, v2)"
    and b3: "gen_projects (data_orgs d2) (c_projects_per_org c) v2 = Inr (data_projects d2, v3)"
    and b4: "gen_dashboards (data_projects d2) (data_users d2) (c_dashboards_per_project c) v3
       = Inr (data_dashboards d2, v4)"
    and b5: "gen_metrics (data_projects d2) (c_metrics_per_project c) v4 = Inr (data_metrics d2, v5)"
    and b6: "gen_metric_samples (data_metrics d2) (c_samples_per_metric c) v5
       = Inr (data_metric_samples d2, v6)"
    and b7: "gen_widgets (data_dashboards d2) (data_metrics d2) (c_widgets_per_dashboard c) v6
       = Inr (data_widgets d2, v7)"
    and b8: "gen_alerts (data_projects d2) (data_metrics d2) (c_alerts_per_project c) v7
       = Inr (data_alerts d2, v8)"
    and b9: "gen_incidents (data_alerts d2) (c_incidents_per_alert c) v8 = Inr (data_incidents d2, v9)"
    and b10: "gen_eval_suites (data_projects d2) (c_suites_per_project c) v9
       = Inr (data_eval_suites d2, v10)"
    and b11: "gen_eval_runs (data_eval_suites d2) (c_runs_per_suite c) v10 = Inr (data_eval_runs d2, v11)"
    and b12: "gen_permissions (data_projects d2) (data_users d2) (c_permissions_per_user c) v11
       = Inr (data_permissions d2, v12)"
    and b13: "gen_feature_flags (data_orgs d2) (c_feature_flags_count c) v12
       = Inr (data_feature_flags d2, v13)"
    and b14: "gen_audit_logs (data_orgs d2) (data_users d2) (data_projects d2) (data_dashboards d2)
       (data_widgets d2) (data_alerts d2) (c_audit_logs_count c) v13
       = Inr (data_audit_logs d2, v')"
    by (rule generate_InrE)
  have s0: "same_draws (init_world env seed) (init_world ?env2 seed)"
    by (simp add: same_draws_def init_world_def)
  from simD [OF same_gen_orgs s0 a1 b1]
  have orgs: "data_orgs d1 = data_orgs d2" and s1: "same_draws w1 v1" by simp_all
  have "sim (gen_users env (data_orgs d1) (c_users_per_org c))
            (gen_users ?env2 (data_orgs d1) (c_users_per_org c)) (=)"
    by (rule same_gen_users) simp_all
  from simD [OF this s1 a2 b2 [folded orgs]]
  have users: "data_users d1 = data_users d2" and s2: "same_draws w2 v2" by simp_all
  from simD [OF same_gen_projects s2 a3 b3 [folded orgs]]
  have projects: "data_projects d1 = data_projects d2" and s3: "same_draws w3 v3" by simp_all
  from simD [OF same_gen_dashboards s3 a4 b4 [folded projects users]]
  have dashboards: "data_dashboards d1 = data_dashboards d2" and s4: "same_draws w4 v4"
    by simp_all
  from simD [OF same_gen_metrics s4 a5 b5 [folded projects]]
  have metrics: "data_metrics d1 = data_metrics d2" and s5: "same_draws w5 v5" by simp_all
  from simD [OF sim_gen_metric_samples s5 a6 b6 [folded metrics]]
  have samples: "map erase_sample (data_metric_samples d1) = map erase_sample (data_metric_samples d2)"
    and s6: "same_draws w6 v6" by simp_all
  from simD [OF same_gen_widgets s6 a7 b7 [folded dashboards metrics]]
  have widgets: "data_widgets d1 = data_widgets d2" and s7: "same_draws w7 v7" by simp_all
  from simD [OF sim_gen_alerts s7 a8 b8 [folded projects metrics]]
  have alerts: "map erase_alert (data_alerts d1) = map erase_alert (data_alerts d2)"
    and s8: "same_draws w8 v8" by simp_all
  note ids = erase_alert_ids [OF alerts]
  from simD [OF sim_gen_incidents s8 a9 b9 [folded gen_incidents_cong [OF ids]]]
  have incidents: "map erase_incident (data_incidents d1) = map erase_incident (data_incidents d2)"
    and s9: "same_draws w9 v9" by simp_all
  from simD [OF same_gen_eval_suites s9 a10 b10 [folded projects]]
  have suites: "data_eval_suites d1 = data_eval_suites d2" and s10: "same_draws w10 v10"
    by simp_all
  from simD [OF sim_gen_eval_runs s10 a11 b11 [folded suites]]
  have runs: "map erase_run (data_eval_runs d1) = map erase_run (data_eval_runs d2)"
    and s11: "same_draws w11 v11" by simp_all
  from simD [OF same_gen_permissions s11 a12 b12 [folded projects users]]
  have permissions: "data_permissions d1 = data_permissions d2" and s12: "same_draws w12 v12"
    by simp_all
  from simD [OF same_gen_feature_flags s12 a13 b13 [folded orgs]]
  have flags: "data_feature_flags d1 = data_feature_flags d2" and s13: "same_draws w13 v13"
    by simp_all
  have b14': "gen_audit_logs (data_orgs d1) (data_users d1) (data_projects d1) (data_dashboards d1)
       (data_widgets d1) (data_alerts d1) (c_audit_logs_count c) v13
       = Inr (data_audit_logs d2, v')"
    using b14 by (simp add: orgs users projects dashboards widgets gen_audit_logs_cong [OF ids])
  from simD [OF sim_gen_audit_logs s13 a14 b14']
  have logs: "map erase_log (data_audit_logs d1) = map erase_log (data_audit_logs d2)"
    by simp
  show ?thesis
    by (rule dataset.equality)
      (simp_all add: erase_times_def orgs users projects dashboards metrics samples widgets
        alerts incidents suites runs permissions flags logs)
qed

subsection \<open>The example run under a later clock\<close>

text \<open>The same run started three days later: the pseudo-random stream, \<open>slugify\<close> and
  \<open>lower\<close> are those of \<open>example_env\<close>, only the clock differs.\<close>

definition later_env :: env where
  "later_env = example_env\<lparr>wall_clock := (\<lambda>n. 63900259200123456 + 1000 * int n)\<rparr>"

definition later_data :: dataset where
  "later_data =
     \<lparr>data_orgs =
         [\<lparr>org_id = ''org_1'', org_name = ''Acme Inc'', org_plan = ''pro'',
             org_active = True\<rparr>],
         data_users =
           [\<lparr>user_id = ''usr_1'', user_org_id = ''org_1'',
               user_email = ''Jordan1@Acme Inc.com'', user_name = ''Jordan'',
               user_role = ''admin'', user_active = True\<rparr>,
            \<lparr>user_id = ''usr_2'', user_org_id = ''org_1'',
               user_email = ''Finley2@Acme Inc.com'', user_name = ''Finley'',
               user_role = ''member'', user_active = True\<rparr>],
         data_projects =
           [\<lparr>project_id = ''prj_1'', project_org_id = ''org_1'',
               project_name = ''API Gateway'',
               project_visibility = ''private'', project_active = False\<rparr>,
            \<lparr>project_id = ''prj_2'', project_org_id = ''org_1'',
               project_name = ''Auth'', project_visibility = ''private'',
               project_active = True\<rparr>],
         data_permissions =
           [\<lparr>perm_user_id = ''usr_1'', perm_project_id = ''prj_1'',
               perm_scopes = [''metric:write'']\<rparr>,
            \<lparr>perm_user_id = ''usr_1'', perm_project_id = ''prj_2'',
               perm_scopes = [''alert:write'']\<rparr>,
            \<lparr>perm_user_id = ''usr_2'', perm_project_id = ''prj_1'',
               perm_scopes = [''dashboard:write'']\<rparr>,
            \<lparr>perm_user_id = ''usr_2'', perm_project_id = ''prj_2'',
               perm_scopes = [''viewer'']\<rparr>],
         data_feature_flags =
           [\<lparr>flag_key = ''widgets.grid_v2'', flag_enabled_for_orgs = [],
               flag_enabled = True\<rparr>],
         data_dashboards =
           [\<lparr>dashboard_id = ''db_1'', dashboard_project_id = ''prj_1'',
               dashboard_name = ''Oncall'',
               dashboard_owner_user_id = Some ''usr_1'',
               dashboard_active = True\<rparr>,
            \<lparr>dashboard_id = ''db_2'', dashboard_project_id = ''prj_2'',
               dashboard_name = ''Product KPIs'',
               dashboard_owner_user_id = Some ''usr_2'',
               dashboard_active = True\<rparr>],
         data_widgets =
           [\<lparr>widget_id = ''w_1'', widget_dashboard_id = ''db_1'',
               widget_type = ''bar'', widget_metric_id = Some ''m_1'',
               widget_title = ''Memory usage'',
               widget_filters =
                 \<lparr>filters_env = ''dev'', filters_region = [''eu-west'']\<rparr>,
               widget_visible = True, widget_archived = False\<rparr>,
            \<lparr>widget_id = ''w_2'', widget_dashboard_id = ''db_2'',
               widget_type = ''table'', widget_metric_id = Some ''m_2'',
               widget_title = ''DB pool busy'',
               widget_filters =
                 \<lparr>filters_env = ''prod'', filters_region = [''us-west'']\<rparr>,
               widget_visible = True, widget_archived = True\<rparr>],
         data_metrics =
           [\<lparr>metric_id = ''m_1'', metric_project_id = ''prj_1'',
               metric_name = ''requests_per_minute'',
               metric_retention_days = 14, metric_status = ''active''\<rparr>,
            \<lparr>metric_id = ''m_2'', metric_project_id = ''prj_2'',
               metric_name = ''cpu_usage_pct'', metric_retention_days = 7,
               metric_status = ''active''\<rparr>],
         data_metric_samples =
           [\<lparr>sample_metric_id = ''m_1'', sample_date = 739585,
               sample_count = 151161\<rparr>,
            \<lparr>sample_metric_id = ''m_1'', sample_date = 739586,
               sample_count = 13019\<rparr>,
            \<lparr>sample_metric_id = ''m_2'', sample_date = 739585,
               sample_count = 74798\<rparr>,
            \<lparr>sample_metric_id = ''m_2'', sample_date = 739586,
               sample_count = 136576\<rparr>],
         data_alerts =
           [\<lparr>alert_id = ''al_1'', alert_project_id = ''prj_1'',
               alert_name = ''Error rate spike'',
               alert_metric_id = Some ''m_1'', alert_threshold = 576,
               alert_window = ''5m'', alert_enabled = True,
               alert_last_fired_at = Some 63900118740000000\<rparr>,
            \<lparr>alert_id = ''al_2'', alert_project_id = ''prj_2'',
               alert_name = ''High latency'', alert_metric_id = Some ''m_2'',
               alert_threshold = 74, alert_window = ''5m'',
               alert_enabled = True,
               alert_last_fired_at = Some 63900145500000000\<rparr>],
         data_incidents =
           [\<lparr>incident_id = ''inc_1'', incident_alert_id = ''al_1'',
               incident_status = ''resolved'',
               incident_opened_at = 63899359080000000,
               incident_resolved_at = Some 63899365320000000\<rparr>,
            \<lparr>incident_id = ''inc_2'', incident_alert_id = ''al_1'',
               incident_status = ''open'',
               incident_opened_at = 63899813340000000,
               incident_resolved_at = None\<rparr>,
            \<lparr>incident_id = ''inc_3'', incident_alert_id = ''al_2'',
               incident_status = ''open'',
               incident_opened_at = 63898991640000000,
               incident_resolved_at = None\<rparr>,
            \<lparr>incident_id = ''inc_4'', incident_alert_id = ''al_2'',
               incident_status = ''resolved'',
               incident_opened_at = 63899719800000000,
               incident_resolved_at = Some 63899723280000000\<rparr>],
         data_eval_suites =
           [\<lparr>suite_id = ''es_1'', suite_project_id = ''prj_1'',
               suite_name = ''Latency Suite'', suite_status = ''active''\<rparr>,
            \<lparr>suite_id = ''es_2'', suite_project_id = ''prj_2'',
               suite_name = ''Bot Regression'', suite_status = ''active''\<rparr>],
         data_eval_runs =
           [\<lparr>run_id = ''er_1'', run_suite_id = ''es_1'',
               run_status = ''queued'', run_created_at = 63900060960000000\<rparr>,
            \<lparr>run_id = ''er_2'', run_suite_id = ''es_2'',
               run_status = ''failed'', run_created_at = 63899801280000000\<rparr>],
         data_audit_logs =
           [\<lparr>log_id = ''aud_1'', log_org_id = Some ''org_1'',
               log_actor_user_id = Some ''usr_1'',
               log_action = ''project.created'',
               log_target_id = Some ''al_2'', log_at = 63900193800000000\<rparr>,
            \<lparr>log_id = ''aud_2'', log_org_id = Some ''org_1'',
               log_actor_user_id = Some ''usr_1'',
               log_action = ''dashboard.created'',
               log_target_id = Some ''db_2'', log_at = 63900063060000000\<rparr>]\<rparr>"

lemma example_run_later: "build_mock_data later_env 42 example_config = Inr later_data"
  by code_simp

text \<open>
  The two runs return different datasets: started three days later, the same seed and
  configuration give other sample dates and other audit times.
\<close>

theorem output_depends_on_clock:
  "build_mock_data example_env 42 example_config = Inr example_data
   \<and> build_mock_data later_env 42 example_config = Inr later_data
   \<and> seed_stream later_env = seed_stream example_env
   \<and> map sample_date (data_metric_samples example_data) = [739582, 739583, 739582, 739583]
   \<and> map sample_date (data_metric_samples later_data) = [739585, 739586, 739585, 739586]
   \<and> map log_at (data_audit_logs example_data) = [63899934600000000, 63899803860000000]
   \<and> map log_at (data_audit_logs later_data) = [63900193800000000, 63900063060000000]
   \<and> example_data \<noteq> later_data"
proof -
  have a: "map sample_date (data_metric_samples example_data) = [739582, 739583, 739582, 739583]"
    "map log_at (data_audit_logs example_data) = [63899934600000000, 63899803860000000]"
    by (simp_all add: example_data_def)
  have b: "map sample_date (data_metric_samples later_data) = [739585, 739586, 739585, 739586]"
    "map log_at (data_audit_logs later_data) = [63900193800000000, 63900063060000000]"
    by (simp_all add: later_data_def)
  have "example_data \<noteq> later_data"
  proof
    assume "example_data = later_data"
    with a(1) b(1) show False by simp
  qed
  moreover have "seed_stream later_env = seed_stream example_env"
    by (simp add: later_env_def)
  ultimately show ?thesis using example_run example_run_later a b by simp
qed

text \<open>The two runs agree once the clock-derived fields are blanked.\<close>

theorem deterministic_up_to_clock_witness:
  "build_mock_data example_env 42 example_config = Inr example_data
   \<and> build_mock_data later_env 42 example_config = Inr later_data
   \<and> erase_times example_data = erase_times later_data"
  using deterministic_up_to_clock [OF example_run example_run_later [unfolded later_env_def]]
    example_run example_run_later
  by simp

section \<open>The identifiers of the generated entities\<close>

text \<open>
  \<open>keeps_counter q m\<close>: the run \<open>m\<close> issues no identifier of prefix \<open>q\<close>, it leaves the
  counter of \<open>q\<close> as it is.
\<close>

definition keeps_counter :: "string \<Rightarrow> 'a run \<Rightarrow> bool" where
  "keeps_counter q m \<longleftrightarrow>
     (\<forall>w x w'. m w = Inr (x, w') \<longrightarrow> counter_get (factory w') q = counter_get (factory w) q)"

lemma keeps_counterD:
  "keeps_counter q m \<Longrightarrow> m w = Inr (x, w') \<Longrightarrow> counter_get (factory w') q = counter_get (factory w) q"
  by (auto simp: keeps_counter_def)

lemma keeps_returnE: "keeps_counter q (returnE x)"
  by (simp add: keeps_counter_def)

lemma keeps_raise: "keeps_counter q (raise e)"
  by (simp add: keeps_counter_def)

lemma keeps_bindE:
  assumes "keeps_counter q m" and "\<And>x. keeps_counter q (f x)"
  shows "keeps_counter q (bindE m f)"
  unfolding keeps_counter_def
proof (intro allI impI)
  fix w y w'
  assume "bindE m f w = Inr (y, w')"
  then obtain x w1 where "m w = Inr (x, w1)" "f x w1 = Inr (y, w')"
    by (auto simp: bindE_Inr)
  with keeps_counterD [OF assms(1)] keeps_counterD [OF assms(2)]
  show "counter_get (factory w') q = counter_get (factory w) q"
    by metis
qed

lemma keeps_if: "keeps_counter q a \<Longrightarrow> keeps_counter q b \<Longrightarrow> keeps_counter q (if c then a else b)"
  by simp

lemma keeps_case_prod: "(\<And>a b. keeps_counter q (f a b)) \<Longrightarrow> keeps_counter q (case_prod f p)"
  by (cases p) simp

lemma keeps_case_prod_app:
  "(\<And>a b. keeps_counter q (f a b y)) \<Longrightarrow> keeps_counter q (case_prod f p y)"
  by (cases p) simp

lemma keeps_for_loop:
  assumes "\<And>x l. keeps_counter q (body x l)"
  shows "keeps_counter q (for_loop xs body l)"
  unfolding keeps_counter_def
proof (intro allI impI)
  fix w l' w'
  assume a: "for_loop xs body l w = Inr (l', w')"
  show "counter_get (factory w') q = counter_get (factory w) q"
    by (rule for_loop_inv [where I = "\<lambda>l v. counter_get (factory v) q = counter_get (factory w) q",
          OF a])
      (auto dest: keeps_counterD [OF assms])
qed

lemma keeps_draw: "keeps_counter q draw"
  by (simp add: keeps_counter_def draw_eq next_draw_def)

lemma keeps_now_utc: "keeps_counter q now_utc"
  by (simp add: keeps_counter_def now_utc_eq next_tick_def)

lemma keeps_next_id: "q \<noteq> p \<Longrightarrow> keeps_counter q (next_id p)"
  by (simp add: keeps_counter_def next_id_eq)

lemma keeps_dt_add: "keeps_counter q (dt_add t d)"
  by (auto simp: keeps_counter_def dest: dt_add_InrD)

lemma keeps_dt_sub: "keeps_counter q (dt_sub t d)"
  by (auto simp: keeps_counter_def dest: dt_sub_InrD)

lemma keeps_date_sub_days: "keeps_counter q (date_sub_days d k)"
  by (auto simp: keeps_counter_def dest: date_sub_days_InrD)

lemma resample_keeps:
  "resample collides again x tries w = Inr (y, w') \<Longrightarrow> keeps_counter q again
     \<Longrightarrow> counter_get (factory w') q = counter_get (factory w) q"
proof (induction collides again x tries w rule: resample.induct)
  case (1 collides again x tries w)
  show ?case
  proof (cases "collides x \<and> tries < 10")
    case False
    with "1.prems" show ?thesis by (simp add: resample.simps [of collides again x tries w])
  next
    case True
    with "1.prems" obtain x1 w1 where a: "again w = Inr (x1, w1)"
      and r: "resample collides again x1 (tries + 1) w1 = Inr (y, w')"
      by (auto simp: resample.simps [of collides again x tries w] split: sum.splits)
    from "1.IH" [OF True a refl r "1.prems"(2)]
    have "counter_get (factory w') q = counter_get (factory w1) q" .
    moreover from keeps_counterD [OF "1.prems"(2) a]
    have "counter_get (factory w1) q = counter_get (factory w) q" .
    ultimately show ?thesis by simp
  qed
qed

lemma keeps_resample: "keeps_counter q again \<Longrightarrow> keeps_counter q (resample collides again x tries)"
  unfolding keeps_counter_def by (blast intro: resample_keeps [unfolded keeps_counter_def])

lemmas run_defs =
  randbelow_def choice_def pick_def pick_opt_def random_unit_def random_gt_def random_lt_def
  uniform_int_def randint_def shuffle_def sample_def Let_def

lemmas keeps_intros =
  keeps_returnE keeps_raise keeps_bindE keeps_if keeps_case_prod
  keeps_for_loop keeps_draw keeps_now_utc keeps_next_id keeps_dt_add
  keeps_dt_sub keeps_date_sub_days keeps_resample keeps_case_prod_app

lemma keeps_gen_orgs: "q \<noteq> ''org'' \<Longrightarrow> keeps_counter q (gen_orgs n)"
  unfolding gen_orgs_def org_row_def run_defs by (intro keeps_intros)

lemma keeps_gen_users: "q \<noteq> ''usr'' \<Longrightarrow> keeps_counter q (gen_users env orgs n)"
  unfolding gen_users_def user_row_def run_defs by (intro keeps_intros)

lemma keeps_gen_projects: "q \<noteq> ''prj'' \<Longrightarrow> keeps_counter q (gen_projects orgs n)"
  unfolding gen_projects_def project_row_def run_defs by (intro keeps_intros)

lemma keeps_gen_dashboards: "q \<noteq> ''db'' \<Longrightarrow> keeps_counter q (gen_dashboards projects users n)"
  unfolding gen_dashboards_def dashboard_row_def run_defs by (intro keeps_intros)

lemma keeps_gen_metrics: "q \<noteq> ''m'' \<Longrightarrow> keeps_counter q (gen_metrics projects n)"
  unfolding gen_metrics_def metric_row_def run_defs by (intro keeps_intros)

lemma keeps_gen_metric_samples: "keeps_counter q (gen_metric_samples metrics n)"
  unfolding gen_metric_samples_def sample_row_def run_defs by (intro keeps_intros)

lemma keeps_gen_widgets: "q \<noteq> ''w'' \<Longrightarrow> keeps_counter q (gen_widgets dashboards metrics n)"
  unfolding gen_widgets_def widget_row_def run_defs by (intro keeps_intros)

lemma keeps_gen_alerts: "q \<noteq> ''al'' \<Longrightarrow> keeps_counter q (gen_alerts projects metrics n)"
  unfolding gen_alerts_def alert_row_def run_defs by (intro keeps_intros)

lemma keeps_gen_incidents: "q \<noteq> ''inc'' \<Longrightarrow> keeps_counter q (gen_incidents alerts n)"
  unfolding gen_incidents_def incident_row_def run_defs by (intro keeps_intros)

lemma keeps_gen_eval_suites: "q \<noteq> ''es'' \<Longrightarrow> keeps_counter q (gen_eval_suites projects n)"
  unfolding gen_eval_suites_def eval_suite_row_def run_defs by (intro keeps_intros)

lemma keeps_gen_eval_runs: "q \<noteq> ''er'' \<Longrightarrow> keeps_counter q (gen_eval_runs suites n)"
  unfolding gen_eval_runs_def eval_run_row_def run_defs by (intro keeps_intros)

lemma keeps_gen_permissions: "keeps_counter q (gen_permissions projects users n)"
  unfolding gen_permissions_def permission_row_def run_defs by (intro keeps_intros)

lemma keeps_gen_feature_flags: "keeps_counter q (gen_feature_flags orgs n)"
  unfolding gen_feature_flags_def feature_flag_row_def run_defs by (intro keeps_intros)

text \<open>
  The identifiers \<open>ids\<close> are \<open>p_(c+1), p_(c+2), \<dots>\<close> in order, and the counter of \<open>p\<close> stands
  at the last of them.
\<close>

definition seq_ids :: "string \<Rightarrow> nat \<Rightarrow> string list \<Rightarrow> world \<Rightarrow> bool" where
  "seq_ids p c ids w \<longleftrightarrow>
     ids = map (mk_id p) [c + 1..<c + 1 + length ids]
     \<and> counter_get (factory w) p = c + length ids"

lemma seq_ids_Nil: "counter_get (factory w) p = c \<Longrightarrow> seq_ids p c [] w"
  by (simp add: seq_ids_def)

lemma seq_ids_step:
  assumes "seq_ids p c ids w"
    and "counter_get (factory w') p = counter_get (factory w) p + 1"
    and "x = mk_id p (counter_get (factory w) p + 1)"
  shows "seq_ids p c (ids @ [x]) w'"
proof -
  from assms(1) have i: "ids = map (mk_id p) [c + 1..<c + 1 + length ids]"
    and n: "counter_get (factory w) p = c + length ids"
    by (simp_all add: seq_ids_def)
  have "[c + 1..<c + 1 + length (ids @ [x])] = [c + 1..<c + 1 + length ids] @ [c + 1 + length ids]"
    by simp
  then have "map (mk_id p) [c + 1..<c + 1 + length (ids @ [x])]
      = map (mk_id p) [c + 1..<c + 1 + length ids] @ [mk_id p (c + 1 + length ids)]"
    by (simp only: map_append list.map)
  with i n assms(3) have "ids @ [x] = map (mk_id p) [c + 1..<c + 1 + length (ids @ [x])]"
    by (simp add: add.commute add.left_commute)
  moreover from n assms(2) have "counter_get (factory w') p = c + length (ids @ [x])" by simp
  ultimately show ?thesis by (simp only: seq_ids_def) 
qed

lemma org_row_id:
  assumes "org_row names i w = Inr (r, w')"
  shows "org_id r = mk_id ''org'' (counter_get (factory w) ''org'' + 1)
       \<and> counter_get (factory w') ''org'' = counter_get (factory w) ''org'' + 1"
  using assms unfolding org_row_def Let_def
  by (elim bindE_InrE) (auto simp: next_id_eq pick_Inr random_gt_eq)

lemma widget_row_id:
  assumes "widget_row db prj_metrics w = Inr (r, w')"
  shows "widget_id r = mk_id ''w'' (counter_get (factory w) ''w'' + 1)
       \<and> counter_get (factory w') ''w'' = counter_get (factory w) ''w'' + 1"
  using assms unfolding widget_row_def
  by (elim bindE_InrE)
    (auto simp: next_id_eq pick_Inr random_gt_eq random_lt_eq dest!: pick_opt_InrD)

lemma alert_row_id:
  assumes "alert_row prj prj_metrics w = Inr (r, w')"
  shows "alert_id r = mk_id ''al'' (counter_get (factory w) ''al'' + 1)
       \<and> counter_get (factory w') ''al'' = counter_get (factory w) ''al'' + 1"
  using assms unfolding alert_row_def
  by (elim bindE_InrE)
    (auto simp: next_id_eq pick_Inr random_gt_eq uniform_int_eq now_utc_eq
      dest!: pick_opt_InrD randint_InrD dt_sub_InrD)

lemma eval_suite_row_id:
  assumes "eval_suite_row prj w = Inr (r, w')"
  shows "suite_id r = mk_id ''es'' (counter_get (factory w) ''es'' + 1)
       \<and> counter_get (factory w') ''es'' = counter_get (factory w) ''es'' + 1"
  using assms unfolding eval_suite_row_def
  by (elim bindE_InrE) (auto simp: next_id_eq pick_Inr random_gt_eq)

lemma eval_run_row_id:
  assumes "eval_run_row s w = Inr (r, w')"
  shows "run_id r = mk_id ''er'' (counter_get (factory w) ''er'' + 1)
       \<and> counter_get (factory w') ''er'' = counter_get (factory w) ''er'' + 1"
  using assms unfolding eval_run_row_def
  by (elim bindE_InrE)
    (auto simp: next_id_eq pick_Inr now_utc_eq dest!: randint_InrD dt_sub_InrD)

lemma incident_row_id:
  assumes "incident_row al w = Inr (r, w')"
  shows "incident_id r = mk_id ''inc'' (counter_get (factory w) ''inc'' + 1)
       \<and> counter_get (factory w') ''inc'' = counter_get (factory w) ''inc'' + 1"
  using assms unfolding incident_row_def
  by (elim bindE_InrE)
    (auto simp: bindE_Inr next_id_eq now_utc_eq random_gt_eq
      split: prod.splits if_splits dest!: randint_InrD dt_sub_InrD dt_add_InrD)

lemma audit_log_row_id:
  assumes "audit_log_row orgs users ids_pool w = Inr (r, w')"
  shows "log_id r = mk_id ''aud'' (counter_get (factory w) ''aud'' + 1)
       \<and> counter_get (factory w') ''aud'' = counter_get (factory w) ''aud'' + 1"
  using assms unfolding audit_log_row_def
  by (elim bindE_InrE)
    (auto simp: bindE_Inr next_id_eq now_utc_eq pick_Inr
      split: prod.splits if_splits dest!: randint_InrD dt_sub_InrD pick_opt_InrD pick_InrD)

lemma gen_orgs_seq:
  assumes "gen_orgs n w = Inr (orgs, w')"
  shows "seq_ids ''org'' (counter_get (factory w) ''org'') (map org_id orgs) w'"
proof -
  let ?c = "counter_get (factory w) ''org''"
  from assms obtain names w1 where s: "shuffle ORG_NAMES w = Inr (names, w1)" and
    l: "for_loop (range_py n) (\<lambda>i orgs. bindE (org_row names i) (\<lambda>r. returnE (orgs @ [r]))) [] w1
       = Inr (orgs, w')"
    unfolding gen_orgs_def by (auto simp: bindE_Inr)
  from shuffle_draws_only [OF s] have f: "factory w1 = factory w" by (simp add: draws_only_def)
  let ?I = "\<lambda>(l::org list) v. seq_ids ''org'' ?c (map org_id l) v"
  show "?I orgs w'"
  proof (rule rows_inv [where I = ?I, OF l])
    show "?I [] w1" using f by (simp add: seq_ids_Nil)
  next
    fix x acc v r v'
    assume "?I acc v" "org_row names x v = Inr (r, v')"
    then show "?I (acc @ [r]) v'"
      by (auto dest!: org_row_id intro: seq_ids_step)
  qed
qed

lemma gen_users_seq:
  assumes "gen_users env orgs k w = Inr (users, w')"
  shows "seq_ids ''usr'' (counter_get (factory w) ''usr'') (map user_id users) w'"
proof -
  let ?c = "counter_get (factory w) ''usr''"
  from assms obtain name_pool w1 w2 name_idx where
    s: "shuffle FIRST_NAMES w = Inr (name_pool, w1)" and
    loop: "for_loop orgs
              (\<lambda>org. let domain = slugify env (org_name org) @ ''.com'' in
                 for_loop (range_py k)
                   (\<lambda>u (users, name_idx).
                      bindE (user_row env name_pool org domain u name_idx)
                        (\<lambda>(r, name_idx'). returnE (users @ [r], name_idx'))))
              ([], 0) w1 = Inr ((users, name_idx), w2)" and w: "w' = w2"
    unfolding gen_users_def by (auto simp: bindE_Inr)
  from shuffle_draws_only [OF s] have f: "factory w1 = factory w" by (simp add: draws_only_def)
  let ?J = "\<lambda>(l::user list) v. seq_ids ''usr'' ?c (map user_id l) v"
  let ?I = "\<lambda>(l, n::nat) v. ?J l v"
  have "?I (users, name_idx) w2"
  proof (rule for_loop_inv [where I = ?I, OF loop])
    show "?I ([], 0) w1" using f by (simp add: seq_ids_Nil)
  next
    fix org l v l' v'
    assume i: "?I l v"
      and b: "(let domain = slugify env (org_name org) @ ''.com'' in
                 for_loop (range_py k)
                   (\<lambda>u (users, name_idx).
                      bindE (user_row env name_pool org domain u name_idx)
                        (\<lambda>(r, name_idx'). returnE (users @ [r], name_idx')))) l v = Inr (l', v')"
    obtain a t where l: "l = (a, t)" by (cases l)
    obtain a' t' where l': "l' = (a', t')" by (cases l')
    have "?J a' v'"
    proof (rule rows_inv2 [where I = ?J, OF b [unfolded Let_def l l']])
      show "?J a v" using i l by simp
    next
      fix u acc s v r s' v'
      assume "?J acc v" "user_row env name_pool org (slugify env (org_name org) @ ''.com'') u s v
          = Inr ((r, s'), v')"
      then show "?J (acc @ [r]) v'"
        by (auto dest!: user_row_spec intro: seq_ids_step)
    qed
    with l' show "?I l' v'" by simp
  qed
  with w show ?thesis by simp
qed

lemma gen_projects_seq:
  assumes "gen_projects orgs k w = Inr (projects, w')"
  shows "seq_ids ''prj'' (counter_get (factory w) ''prj'') (map project_id projects) w'"
proof -
  let ?I = "\<lambda>(l::project list) v. seq_ids ''prj'' (counter_get (factory w) ''prj'') (map project_id l) v"
  show "?I projects w'"
    by (rule nested_rows_inv [where I = ?I, OF assms [unfolded gen_projects_def]])
      (auto dest!: project_row_spec intro: seq_ids_step seq_ids_Nil)
qed

lemma gen_dashboards_seq:
  assumes "gen_dashboards projects users k w = Inr (dashboards, w')"
  shows "seq_ids ''db'' (counter_get (factory w) ''db'') (map dashboard_id dashboards) w'"
proof -
  let ?I = "\<lambda>(l::dashboard list) v.
              seq_ids ''db'' (counter_get (factory w) ''db'') (map dashboard_id l) v"
  show "?I dashboards w'"
    by (rule nested_rows_inv [where I = ?I, OF assms [unfolded gen_dashboards_def Let_def]])
      (auto dest!: dashboard_row_spec intro: seq_ids_step seq_ids_Nil)
qed

lemma gen_metrics_seq:
  assumes "gen_metrics projects k w = Inr (metrics, w')"
  shows "seq_ids ''m'' (counter_get (factory w) ''m'') (map metric_id metrics) w'"
proof -
  let ?I = "\<lambda>(l::metric list) v. seq_ids ''m'' (counter_get (factory w) ''m'') (map metric_id l) v"
  show "?I metrics w'"
  proof (rule for_loop_inv [where I = ?I, OF assms [unfolded gen_metrics_def]])
    show "?I [] w" by (simp add: seq_ids_Nil)
  next
    fix prj l v l' v'
    assume i: "?I l v"
      and b: "bindE (for_loop (range_py k)
                   (\<lambda>_ (metrics, used).
                      bindE (metric_row prj used)
                        (\<lambda>(r, used'). returnE (metrics @ [r], used')))
                   (l, {}))
            (\<lambda>(metrics, used). returnE metrics) v = Inr (l', v')"
    then obtain used where
      loop: "for_loop (range_py k)
                   (\<lambda>_ (metrics, used).
                      bindE (metric_row prj used)
                        (\<lambda>(r, used'). returnE (metrics @ [r], used')))
                   (l, {}) v = Inr ((l', used), v')"
      by (auto simp: bindE_Inr)
    show "?I l' v'"
    proof (rule rows_inv2 [where I = ?I, OF loop i])
      fix x acc s v r s' v'
      assume "?I acc v" "metric_row prj s v = Inr ((r, s'), v')"
      then show "?I (acc @ [r]) v'"
        by (auto dest!: metric_row_spec intro: seq_ids_step)
    qed
  qed
qed

lemma gen_widgets_seq:
  assumes "gen_widgets dashboards metrics k w = Inr (widgets, w')"
  shows "seq_ids ''w'' (counter_get (factory w) ''w'') (map widget_id widgets) w'"
proof -
  let ?I = "\<lambda>(l::widget list) v. seq_ids ''w'' (counter_get (factory w) ''w'') (map widget_id l) v"
  show "?I widgets w'"
    by (rule nested_rows_inv [where I = ?I, OF assms [unfolded gen_widgets_def Let_def]])
      (auto dest!: widget_row_id intro: seq_ids_step seq_ids_Nil)
qed

lemma gen_alerts_seq:
  assumes "gen_alerts projects metrics k w = Inr (alerts, w')"
  shows "seq_ids ''al'' (counter_get (factory w) ''al'') (map alert_id alerts) w'"
proof -
  let ?I = "\<lambda>(l::alert list) v. seq_ids ''al'' (counter_get (factory w) ''al'') (map alert_id l) v"
  show "?I alerts w'"
    by (rule nested_rows_inv [where I = ?I, OF assms [unfolded gen_alerts_def Let_def]])
      (auto dest!: alert_row_id intro: seq_ids_step seq_ids_Nil)
qed

lemma gen_incidents_seq:
  assumes "gen_incidents alerts k w = Inr (incidents, w')"
  shows "seq_ids ''inc'' (counter_get (factory w) ''inc'') (map incident_id incidents) w'"
proof -
  let ?I = "\<lambda>(l::incident list) v.
              seq_ids ''inc'' (counter_get (factory w) ''inc'') (map incident_id l) v"
  show "?I incidents w'"
    by (rule nested_rows_inv [where I = ?I, OF assms [unfolded gen_incidents_def]])
      (auto dest!: incident_row_id intro: seq_ids_step seq_ids_Nil)
qed

lemma gen_eval_suites_seq:
  assumes "gen_eval_suites projects k w = Inr (suites, w')"
  shows "seq_ids ''es'' (counter_get (factory w) ''es'') (map suite_id suites) w'"
proof -
  let ?I = "\<lambda>(l::eval_suite list) v.
              seq_ids ''es'' (counter_get (factory w) ''es'') (map suite_id l) v"
  show "?I suites w'"
    by (rule nested_rows_inv [where I = ?I, OF assms [unfolded gen_eval_suites_def]])
      (auto dest!: eval_suite_row_id intro: seq_ids_step seq_ids_Nil)
qed

lemma gen_eval_runs_seq:
  assumes "gen_eval_runs suites k w = Inr (runs, w')"
  shows "seq_ids ''er'' (counter_get (factory w) ''er'') (map run_id runs) w'"
proof -
  let ?I = "\<lambda>(l::eval_run list) v. seq_ids ''er'' (counter_get (factory w) ''er'') (map run_id l) v"
  show "?I runs w'"
    by (rule nested_rows_inv [where I = ?I, OF assms [unfolded gen_eval_runs_def]])
      (auto dest!: eval_run_row_id intro: seq_ids_step seq_ids_Nil)
qed

lemma gen_audit_logs_seq:
  assumes "gen_audit_logs orgs users projects dashboards widgets alerts k w = Inr (logs, w')"
  shows "seq_ids ''aud'' (counter_get (factory w) ''aud'') (map log_id logs) w'"
proof -
  let ?I = "\<lambda>(l::audit_log list) v. seq_ids ''aud'' (counter_get (factory w) ''aud'') (map log_id l) v"
  show "?I logs w'"
    by (rule rows_inv [where I = ?I, OF assms [unfolded gen_audit_logs_def Let_def]])
      (auto dest!: audit_log_row_id intro: seq_ids_step seq_ids_Nil)
qed

subsection \<open>The identifiers in a dataset\<close>

text \<open>The identifiers \<open>ids\<close> are \<open>p_1, p_2, \<dots>, p_n\<close>, in this order.\<close>

definition numbered :: "string \<Rightarrow> string list \<Rightarrow> bool" where
  "numbered p ids \<longleftrightarrow> ids = map (mk_id p) [1..<Suc (length ids)]"

text \<open>
  The collections whose records carry an \<^verbatim>\<open>id\<close>, each with the prefix its generator passes
  to \<^verbatim>\<open>idf.next\<close>, and the identifiers of all entities of a dataset.
\<close>

definition entity_ids_by_prefix :: "dataset \<Rightarrow> (string \<times> string list) list" where
  "entity_ids_by_prefix d =
     [(''org'', map org_id (data_orgs d)),
      (''usr'', map user_id (data_users d)),
      (''prj'', map project_id (data_projects d)),
      (''db'', map dashboard_id (data_dashboards d)),
      (''w'', map widget_id (data_widgets d)),
      (''m'', map metric_id (data_metrics d)),
      (''al'', map alert_id (data_alerts d)),
      (''inc'', map incident_id (data_incidents d)),
      (''es'', map suite_id (data_eval_suites d)),
      (''er'', map run_id (data_eval_runs d)),
      (''aud'', map log_id (data_audit_logs d))]"

definition entity_ids :: "dataset \<Rightarrow> string list" where
  "entity_ids d = concat (map snd (entity_ids_by_prefix d))"

lemma seq_ids_numbered: "seq_ids p 0 ids w \<Longrightarrow> numbered p ids"
  by (simp add: seq_ids_def numbered_def)

lemma numbered_distinct: "numbered p ids \<Longrightarrow> distinct ids"
proof -
  assume "numbered p ids"
  then have i: "ids = map (mk_id p) [1..<Suc (length ids)]" by (simp add: numbered_def)
  have "inj_on (mk_id p) (set [1..<Suc (length ids)])"
    by (rule inj_onI) (auto dest: mk_id_inj)
  then have "distinct (map (mk_id p) [1..<Suc (length ids)])"
    by (simp add: distinct_map)
  with i show ?thesis by simp
qed

lemma numbered_prefix: "numbered p ids \<Longrightarrow> x \<in> set ids \<Longrightarrow> \<exists>n. x = mk_id p n"
proof -
  assume "numbered p ids" and x: "x \<in> set ids"
  then have "ids = map (mk_id p) [1..<Suc (length ids)]" by (simp add: numbered_def)
  then have "set ids = mk_id p ` set [1..<Suc (length ids)]" by (metis set_map)
  with x show ?thesis by blast
qed

lemma numbered_table_distinct:
  "distinct (map fst ps) \<Longrightarrow> list_all (\<lambda>(p, ids). numbered p ids) ps
     \<Longrightarrow> distinct (concat (map snd ps))"
proof (induction ps)
  case Nil
  then show ?case by simp
next
  case (Cons a ps)
  obtain p ids where a: "a = (p, ids)" by (cases a)
  from Cons.prems a have p: "p \<notin> fst ` set ps" and d: "distinct (map fst ps)"
    and n: "numbered p ids" and rest: "list_all (\<lambda>(p, ids). numbered p ids) ps"
    by simp_all
  have "set ids \<inter> set (concat (map snd ps)) = {}"
  proof (rule ccontr)
    assume "set ids \<inter> set (concat (map snd ps)) \<noteq> {}"
    then obtain x where x: "x \<in> set ids" "x \<in> set (concat (map snd ps))" by blast
    from x(2) obtain q ys where q: "(q, ys) \<in> set ps" "x \<in> set ys" by auto
    with rest have "numbered q ys" by (auto simp: list_all_iff)
    from numbered_prefix [OF this q(2)] numbered_prefix [OF n x(1)]
    have "p = q" by (auto dest: mk_id_inj)
    with q(1) p show False by (metis fst_conv imageI)
  qed
  with numbered_distinct [OF n] Cons.IH [OF d rest] a show ?case by simp
qed

lemma init_counters: "counter_get (factory (init_world env seed)) q = 0"
  by (simp add: init_world_def IdFactory_init_def counter_get_def)

lemma entity_ids_numbered:
  assumes "build_mock_data env seed c = Inr d"
  shows "list_all (\<lambda>(p, ids). numbered p ids) (entity_ids_by_prefix d)"
proof -
  let ?w0 = "init_world env seed"
  from assms obtain w' where "generate env c ?w0 = Inr (d, w')"
    by (auto simp: build_mock_data_Inr)
  then obtain w1 w2 w3 w4 w5 w6 w7 w8 w9 w10 w11 w12 w13 where
    g1: "gen_orgs (c_orgs_count c) ?w0 = Inr (data_orgs d, w1)"
    and g2: "gen_users env (data_orgs d) (c_users_per_org c) w1 = Inr (data_users d, w2)"
    and g3: "gen_projects (data_orgs d) (c_projects_per_org c) w2 = Inr (data_projects d, w3)"
    and g4: "gen_dashboards (data_projects d) (data_users d) (c_dashboards_per_project c) w3
       = Inr (data_dashboards d, w4)"
    and g5: "gen_metrics (data_projects d) (c_metrics_per_project c) w4 = Inr (data_metrics d, w5)"
    and g6: "gen_metric_samples (data_metrics d) (c_samples_per_metric c) w5
       = Inr (data_metric_samples d, w6)"
    and g7: "gen_widgets (data_dashboards d) (data_metrics d) (c_widgets_per_dashboard c) w6
       = Inr (data_widgets d, w7)"
    and g8: "gen_alerts (data_projects d) (data_metrics d) (c_alerts_per_project c) w7
       = Inr (data_alerts d, w8)"
    and g9: "gen_incidents (data_alerts d) (c_incidents_per_alert c) w8 = Inr (data_incidents d, w9)"
    and g10: "gen_eval_suites (data_projects d) (c_suites_per_project c) w9
       = Inr (data_eval_suites d, w10)"
    and g11: "gen_eval_runs (data_eval_suites d) (c_runs_per_suite c) w10
       = Inr (data_eval_runs d, w11)"
    and g12: "gen_permissions (data_projects d) (data_users d) (c_permissions_per_user c) w11
       = Inr (data_permissions d, w12)"
    and g13: "gen_feature_flags (data_orgs d) (c_feature_flags_count c) w12
       = Inr (data_feature_flags d, w13)"
    and g14: "gen_audit_logs (data_orgs d) (data_users d) (data_projects d) (data_dashboards d)
       (data_widgets d) (data_alerts d) (c_audit_logs_count c) w13
       = Inr (data_audit_logs d, w')"
    by (rule generate_InrE)
  have c0: "counter_get (factory ?w0) q = 0" for q by (rule init_counters)
  have c1: "counter_get (factory w1) q = 0" if "q \<noteq> ''org''" for q
    using keeps_counterD [OF keeps_gen_orgs [OF that] g1] c0 by simp
  have c2: "counter_get (factory w2) q = 0" if "q \<noteq> ''org''" "q \<noteq> ''usr''" for q
    using keeps_counterD [OF keeps_gen_users [OF that(2)] g2] c1 [OF that(1)] by simp
  have c3: "counter_get (factory w3) q = 0" if "q \<noteq> ''org''" "q \<noteq> ''usr''" "q \<noteq> ''prj''" for q
    using keeps_counterD [OF keeps_gen_projects [OF that(3)] g3] c2 [OF that(1,2)] by simp
  have c4: "counter_get (factory w4) q = 0"
    if "q \<noteq> ''org''" "q \<noteq> ''usr''" "q \<noteq> ''prj''" "q \<noteq> ''db''" for q
    using keeps_counterD [OF keeps_gen_dashboards [OF that(4)] g4] c3 [OF that(1,2,3)] by simp
  have c5: "counter_get (factory w5) q = 0"
    if "q \<noteq> ''org''" "q \<noteq> ''usr''" "q \<noteq> ''prj''" "q \<noteq> ''db''" "q \<noteq> ''m''" for q
    using keeps_counterD [OF keeps_gen_metrics [OF that(5)] g5] c4 [OF that(1,2,3,4)] by simp
  have c6: "counter_get (factory w6) q = 0"
    if "q \<noteq> ''org''" "q \<noteq> ''usr''" "q \<noteq> ''prj''" "q \<noteq> ''db''" "q \<noteq> ''m''" for q
    using keeps_counterD [OF keeps_gen_metric_samples g6] c5 [OF that] by simp
  have c7: "counter_get (factory w7) q = 0"
    if "q \<noteq> ''org''" "q \<noteq> ''usr''" "q \<noteq> ''prj''" "q \<noteq> ''db''" "q \<noteq> ''m''" "q \<noteq> ''w''" for q
    using keeps_counterD [OF keeps_gen_widgets [OF that(6)] g7] c6 [OF that(1,2,3,4,5)] by simp
  have c8: "counter_get (factory w8) q = 0"
    if "q \<noteq> ''org''" "q \<noteq> ''usr''" "q \<noteq> ''prj''" "q \<noteq> ''db''" "q \<noteq> ''m''" "q \<noteq> ''w''"
      "q \<noteq> ''al''" for q
    using keeps_counterD [OF keeps_gen_alerts [OF that(7)] g8] c7 [OF that(1,2,3,4,5,6)] by simp
  have c9: "counter_get (factory w9) q = 0"
    if "q \<noteq> ''org''" "q \<noteq> ''usr''" "q \<noteq> ''prj''" "q \<noteq> ''db''" "q \<noteq> ''m''" "q \<noteq> ''w''"
      "q \<noteq> ''al''" "q \<noteq> ''inc''" for q
    using keeps_counterD [OF keeps_gen_incidents [OF that(8)] g9] c8 [OF that(1,2,3,4,5,6,7)]
    by simp
  have c10: "counter_get (factory w10) q = 0"
    if "q \<noteq> ''org''" "q \<noteq> ''usr''" "q \<noteq> ''prj''" "q \<noteq> ''db''" "q \<noteq> ''m''" "q \<noteq> ''w''"
      "q \<noteq> ''al''" "q \<noteq> ''inc''" "q \<noteq> ''es''" for q
    using keeps_counterD [OF keeps_gen_eval_suites [OF that(9)] g10]
      c9 [OF that(1,2,3,4,5,6,7,8)] by simp
  have c11: "counter_get (factory w11) q = 0"
    if "q \<noteq> ''org''" "q \<noteq> ''usr''" "q \<noteq> ''prj''" "q \<noteq> ''db''" "q \<noteq> ''m''" "q \<noteq> ''w''"
      "q \<noteq> ''al''" "q \<noteq> ''inc''" "q \<noteq> ''es''" "q \<noteq> ''er''" for q
    using keeps_counterD [OF keeps_gen_eval_runs [OF that(10)] g11]
      c10 [OF that(1,2,3,4,5,6,7,8,9)] by simp
  have c13: "counter_get (factory w13) q = 0"
    if "q \<noteq> ''org''" "q \<noteq> ''usr''" "q \<noteq> ''prj''" "q \<noteq> ''db''" "q \<noteq> ''m''" "q \<noteq> ''w''"
      "q \<noteq> ''al''" "q \<noteq> ''inc''" "q \<noteq> ''es''" "q \<noteq> ''er''" for q
    using keeps_counterD [OF keeps_gen_feature_flags g13]
      keeps_counterD [OF keeps_gen_permissions g12] c11 [OF that] by simp
  have n1: "numbered ''org'' (map org_id (data_orgs d))"
    using gen_orgs_seq [OF g1] c0 by (simp add: seq_ids_numbered)
  have n2: "numbered ''usr'' (map user_id (data_users d))"
    using gen_users_seq [OF g2] c1 [of "''usr''"] by (simp add: seq_ids_numbered)
  have n3: "numbered ''prj'' (map project_id (data_projects d))"
    using gen_projects_seq [OF g3] c2 [of "''prj''"] by (simp add: seq_ids_numbered)
  have n4: "numbered ''db'' (map dashboard_id (data_dashboards d))"
    using gen_dashboards_seq [OF g4] c3 [of "''db''"] by (simp add: seq_ids_numbered)
  have n5: "numbered ''m'' (map metric_id (data_metrics d))"
    using gen_metrics_seq [OF g5] c4 [of "''m''"] by (simp add: seq_ids_numbered)
  have n6: "numbered ''w'' (map widget_id (data_widgets d))"
    using gen_widgets_seq [OF g7] c6 [of "''w''"] by (simp add: seq_ids_numbered)
  have n7: "numbered ''al'' (map alert_id (data_alerts d))"
    using gen_alerts_seq [OF g8] c7 [of "''al''"] by (simp add: seq_ids_numbered)
  have n8: "numbered ''inc'' (map incident_id (data_incidents d))"
    using gen_incidents_seq [OF g9] c8 [of "''inc''"] by (simp add: seq_ids_numbered)
  have n9: "numbered ''es'' (map suite_id (data_eval_suites d))"
    using gen_eval_suites_seq [OF g10] c9 [of "''es''"] by (simp add: seq_ids_numbered)
  have n10: "numbered ''er'' (map run_id (data_eval_runs d))"
    using gen_eval_runs_seq [OF g11] c10 [of "''er''"] by (simp add: seq_ids_numbered)
  have n11: "numbered ''aud'' (map log_id (data_audit_logs d))"
    using gen_audit_logs_seq [OF g14] c13 [of "''aud''"] by (simp add: seq_ids_numbered)
  from n1 n2 n3 n4 n5 n6 n7 n8 n9 n10 n11 show ?thesis
    by (simp add: entity_ids_by_prefix_def)
qed

lemma entity_ids_distinct:
  assumes "build_mock_data env seed c = Inr d"
  shows "distinct (entity_ids d)"
  unfolding entity_ids_def
proof (rule numbered_table_distinct [OF _ entity_ids_numbered [OF assms]])
  show "distinct (map fst (entity_ids_by_prefix d))"
    by (simp add: entity_ids_by_prefix_def)
qed

text \<open>
  Claim C5. On a fresh \<^verbatim>\<open>IdFactory\<close>, whatever the sequence \<open>ps\<close> of prefixes the calls
  \<^verbatim>\<open>next(p)\<close> are made with, the \<open>i\<close>-th call returns \<open>p_n\<close> for its prefix \<open>p\<close>, where \<open>n\<close> is
  the number of calls made for \<open>p\<close> up to and including this one: 1 on the first call for
  \<open>p\<close>, one more on each later call for \<open>p\<close>, whatever calls for other prefixes lie in
  between. Consequently no two identifiers issued in the run are equal. In every dataset
  that \<^verbatim>\<open>build_mock_data\<close> returns, the identifiers of each collection are
  \<open>p_1, p_2, \<dots>, p_n\<close> in order, for the prefix \<open>p\<close> of the collection, and no two entities
  of the dataset, of the same collection or of different ones, have the same identifier.
\<close>

theorem IdFactory_next_sequence:
  "(\<forall>i < length ps.
      fst (issue IdFactory_init ps) ! i = mk_id (ps ! i) (count_list (take (Suc i) ps) (ps ! i)))
   \<and> length (fst (issue IdFactory_init ps)) = length ps
   \<and> distinct (fst (issue IdFactory_init ps))
   \<and> (build_mock_data env seed c = Inr d \<longrightarrow>
        list_all (\<lambda>(p, ids). numbered p ids) (entity_ids_by_prefix d)
        \<and> distinct (entity_ids d))"
proof -
  have "\<And>p. counter_get IdFactory_init p = 0"
    by (simp add: counter_get_def IdFactory_init_def)
  then have "(\<forall>i < length ps.
      fst (issue IdFactory_init ps) ! i = mk_id (ps ! i) (count_list (take (Suc i) ps) (ps ! i)))
   \<and> length (fst (issue IdFactory_init ps)) = length ps
   \<and> distinct (fst (issue IdFactory_init ps))"
    using issue_nth [of _ ps IdFactory_init] issue_length [of IdFactory_init ps]
      issue_distinct [of IdFactory_init ps]
    by simp
  with entity_ids_numbered [of env seed c d] entity_ids_distinct [of env seed c d]
  show ?thesis by blast
qed

theorem IdFactory_next_sequence_witness:
  "fst (issue IdFactory_init [''usr'', ''prj'', ''usr'', ''usr'', ''prj'']) ! 3 = ''usr_3''
   \<and> fst (issue IdFactory_init [''usr'', ''prj'', ''usr'', ''usr'', ''prj''])
       = [''usr_1'', ''prj_1'', ''usr_2'', ''usr_3'', ''prj_2'']
   \<and> distinct (fst (issue IdFactory_init [''usr'', ''prj'', ''usr'', ''usr'', ''prj'']))
   \<and> build_mock_data example_env 42 example_config = Inr example_data
   \<and> list_all (\<lambda>(p, ids). numbered p ids) (entity_ids_by_prefix example_data)
   \<and> distinct (entity_ids example_data)
   \<and> map incident_id (data_incidents example_data) = [''inc_1'', ''inc_2'', ''inc_3'', ''inc_4'']"
proof -
  let ?ps = "[''usr'', ''prj'', ''usr'', ''usr'', ''prj'']"
  let ?ids = "fst (issue IdFactory_init ?ps)"
  from IdFactory_next_sequence [where ps = ?ps and env = example_env and seed = 42
      and c = example_config and d = example_data]
  have n: "\<forall>i < length ?ps. ?ids ! i = mk_id (?ps ! i) (count_list (take (Suc i) ?ps) (?ps ! i))"
    and d: "distinct ?ids"
    and e: "build_mock_data example_env 42 example_config = Inr example_data \<longrightarrow>
        list_all (\<lambda>(p, ids). numbered p ids) (entity_ids_by_prefix example_data)
        \<and> distinct (entity_ids example_data)"
    by blast+
  have "(3::nat) < length ?ps" by simp
  with n have "?ids ! 3 = mk_id (?ps ! 3) (count_list (take (Suc 3) ?ps) (?ps ! 3))"
    by blast
  moreover have "mk_id (?ps ! 3) (count_list (take (Suc 3) ?ps) (?ps ! 3)) = ''usr_3''"
    by code_simp
  moreover have "?ids = [''usr_1'', ''prj_1'', ''usr_2'', ''usr_3'', ''prj_2'']"
    by code_simp
  moreover from e example_run
  have "list_all (\<lambda>(p, ids). numbered p ids) (entity_ids_by_prefix example_data)
        \<and> distinct (entity_ids example_data)" by blast
  moreover have "map incident_id (data_incidents example_data)
      = [''inc_1'', ''inc_2'', ''inc_3'', ''inc_4'']"
    by (simp add: example_data_def)
  ultimately show ?thesis using d example_run by simp
qed

end
